(* ===== verification/Prelude.thy ===== *)
theory Prelude
  imports Main "HOL-Library.Sublist"
begin

text \<open>
  Shared vocabulary of the development: the JavaScript values the pages read from the API
  (TypeScript's \<open>any\<close>), the string operations the code uses, and the lemmas on them.

  Strings are byte lists. Text that is not ASCII (the long dash of the messages) is written as its
  UTF-8 bytes; trimming and letter case are those of ASCII text, the bound of this model.
\<close>

named_theorems js_simps "evaluation of JavaScript value operations"
named_theorems str_simps "evaluation of string operations"

section \<open>JavaScript values\<close>

datatype jsval =
    JUndef
  | JNull
  | JBool bool
  | JNum int
  | JStr string
  | JArr "jsval list"
  | JObj "(string \<times> jsval) list"

type_synonym row = "(string \<times> jsval) list"

text \<open>Truthiness, the left-biased \<open>a || b\<close> and the nullish \<open>a ?? b\<close>.\<close>

fun truthy :: "jsval \<Rightarrow> bool" where
  "truthy JUndef = False"
| "truthy JNull = False"
| "truthy (JBool b) = b"
| "truthy (JNum n) = (n \<noteq> 0)"
| "truthy (JStr s) = (s \<noteq> [])"
| "truthy (JArr _) = True"
| "truthy (JObj _) = True"

fun nullish :: "jsval \<Rightarrow> bool" where
  "nullish JUndef = True"
| "nullish JNull = True"
| "nullish _ = False"

definition jor :: "jsval \<Rightarrow> jsval \<Rightarrow> jsval" where
  "jor a b = (if truthy a then a else b)"

definition jcoalesce :: "jsval \<Rightarrow> jsval \<Rightarrow> jsval" where
  "jcoalesce a b = (if nullish a then b else a)"

text \<open>Property access on an object of the API, and the optional access \<open>v?.k\<close>.\<close>

definition fld :: "row \<Rightarrow> string \<Rightarrow> jsval" where
  "fld r k = (case map_of r k of Some v \<Rightarrow> v | None \<Rightarrow> JUndef)"

fun opt_fld :: "jsval \<Rightarrow> string \<Rightarrow> jsval" where
  "opt_fld (JObj r) k = fld r k"
| "opt_fld _ _ = JUndef"

text \<open>\<open>(v || [])\<close> where the API answers an array or nothing.\<close>

fun as_list :: "jsval \<Rightarrow> jsval list" where
  "as_list (JArr vs) = vs"
| "as_list _ = []"

fun as_row :: "jsval \<Rightarrow> row" where
  "as_row (JObj r) = r"
| "as_row _ = []"

definition opt_str :: "string option \<Rightarrow> jsval" where
  "opt_str x = (case x of None \<Rightarrow> JNull | Some s \<Rightarrow> JStr s)"

lemma truthy_JStr_iff [js_simps]: "truthy (JStr s) \<longleftrightarrow> s \<noteq> []"
  by simp

lemma not_truthy_nullish: "nullish v \<Longrightarrow> \<not> truthy v"
  by (cases v) auto

lemma jor_truthy [js_simps]: "truthy a \<Longrightarrow> jor a b = a"
  by (simp add: jor_def)

lemma jor_falsy [js_simps]: "\<not> truthy a \<Longrightarrow> jor a b = b"
  by (simp add: jor_def)

lemma truthy_jor: "truthy (jor a b) \<longleftrightarrow> truthy a \<or> truthy b"
  by (simp add: jor_def)

lemma nullish_jcoalesce: "nullish (jcoalesce a b) \<longleftrightarrow> nullish a \<and> nullish b"
  by (simp add: jcoalesce_def)

lemma fld_Nil [simp]: "fld [] k = JUndef"
  by (simp add: fld_def)

lemma fld_Cons [simp]: "fld ((k', v) # r) k = (if k = k' then v else fld r k)"
  by (simp add: fld_def)

text \<open>The object spread \<open>{ ...r, [k]: v }\<close>: an existing key keeps its place.\<close>

fun upd :: "row \<Rightarrow> string \<Rightarrow> jsval \<Rightarrow> row" where
  "upd [] k v = [(k, v)]"
| "upd ((k', w) # r) k v = (if k' = k then (k, v) # r else (k', w) # upd r k v)"

lemma fld_upd_same [simp]: "fld (upd r k v) k = v"
  by (induction r) auto

lemma fld_upd_other [simp]: "k \<noteq> k' \<Longrightarrow> fld (upd r k v) k' = fld r k'"
  by (induction r) auto

lemma upd_upd_same [simp]: "upd (upd r k v) k w = upd r k w"
  by (induction r) auto

lemma keys_upd: "set (map fst (upd r k v)) = insert k (set (map fst r))"
  by (induction r k v rule: upd.induct) (simp_all add: insert_commute)

lemma distinct_upd: "distinct (map fst r) \<Longrightarrow> distinct (map fst (upd r k v))"
proof (induction r)
  case Nil
  then show ?case by simp
next
  case (Cons kv r)
  obtain k' w where kv: "kv = (k', w)" by (cases kv)
  with Cons have "distinct (map fst (upd r k v))" "k' \<notin> set (map fst r)" by auto
  then show ?case using Cons.prems kv keys_upd [of r k v] by auto
qed

section \<open>Strings\<close>

text \<open>The decimal text of a number, as template literals and React children show it.\<close>

fun nat_dec :: "nat \<Rightarrow> string" where
  "nat_dec n = (if n < 10 then [''0123456789'' ! n]
                else nat_dec (n div 10) @ [''0123456789'' ! (n mod 10)])"

declare nat_dec.simps [simp del]

definition int_dec :: "int \<Rightarrow> string" where
  "int_dec i = (if i < 0 then CHR ''-'' # nat_dec (nat (- i)) else nat_dec (nat i))"

lemma nat_dec_small [str_simps]: "n < 10 \<Longrightarrow> nat_dec n = [''0123456789'' ! n]"
  by (simp add: nat_dec.simps)

lemma nat_dec_big [str_simps]:
  "\<not> n < 10 \<Longrightarrow> nat_dec n = nat_dec (n div 10) @ [''0123456789'' ! (n mod 10)]"
  by (simp add: nat_dec.simps)

lemma nat_dec_nonempty [simp]: "nat_dec n \<noteq> []"
  by (simp add: nat_dec.simps [of n])

definition digit_chars :: "char set" where
  "digit_chars = set ''0123456789''"

lemma nth_digits: "d < 10 \<Longrightarrow> ''0123456789'' ! d \<in> digit_chars"
  unfolding digit_chars_def by (rule nth_mem) simp

lemma nth_digits_inj: "a < 10 \<Longrightarrow> b < 10 \<Longrightarrow> ''0123456789'' ! a = ''0123456789'' ! b \<Longrightarrow> a = b"
  by (rule nth_eq_iff_index_eq [THEN iffD1, of "''0123456789''"]) auto

lemma set_nat_dec: "set (nat_dec n) \<subseteq> digit_chars"
proof (induction n rule: nat_dec.induct)
  case (1 n)
  then show ?case
    by (cases "n < 10") (auto simp: str_simps nth_digits simp del: nth_Cons_numeral)
qed

lemma nat_dec_inj: "nat_dec m = nat_dec n \<Longrightarrow> m = n"
proof (induction m arbitrary: n rule: nat_dec.induct)
  case (1 m)
  show ?case
  proof (cases "m < 10"; cases "n < 10")
    assume "m < 10" "n < 10"
    with "1.prems" show ?thesis by (auto simp: nat_dec_small dest: nth_digits_inj)
  next
    assume "m < 10" "\<not> n < 10"
    with "1.prems" show ?thesis
      using nat_dec_nonempty [of "n div 10"] by (auto simp: nat_dec_small nat_dec_big [of n])
  next
    assume "\<not> m < 10" "n < 10"
    with "1.prems" show ?thesis by (simp add: nat_dec_small nat_dec_big [of m])
  next
    assume big: "\<not> m < 10" "\<not> n < 10"
    with "1.prems" have *: "nat_dec (m div 10) = nat_dec (n div 10)"
      "''0123456789'' ! (m mod 10) = ''0123456789'' ! (n mod 10)"
      by (simp_all add: nat_dec_big [of n] nat_dec_big [of m])
    have "m div 10 = n div 10" using "1.IH" [OF big(1) *(1)] .
    moreover have "m mod 10 = n mod 10" using nth_digits_inj [OF _ _ *(2)] by simp
    ultimately show ?thesis by (metis div_mult_mod_eq)
  qed
qed

fun join :: "string \<Rightarrow> string list \<Rightarrow> string" where
  "join sep [] = []"
| "join sep [w] = w"
| "join sep (w # ws) = w @ sep @ join sep ws"

fun js_string :: "jsval \<Rightarrow> string" where
  "js_string JUndef = ''undefined''"
| "js_string JNull = ''null''"
| "js_string (JBool b) = (if b then ''true'' else ''false'')"
| "js_string (JNum n) = int_dec n"
| "js_string (JStr s) = s"
| "js_string (JArr vs) = join '','' (map (\<lambda>v. if nullish v then [] else js_string v) vs)"
| "js_string (JObj _) = ''[object Object]''"

text \<open>\<open>TABLE[k]\<close> for a constant table of texts.\<close>

definition label_of :: "(string \<times> string) list \<Rightarrow> jsval \<Rightarrow> jsval" where
  "label_of table k = (case map_of table (js_string k) of Some l \<Rightarrow> JStr l | None \<Rightarrow> JUndef)"

text \<open>\<open>v > 0\<close>, and \<open>v ?? 0\<close> as a summand, for the numbers the API answers.\<close>

definition js_positive :: "jsval \<Rightarrow> bool" where
  "js_positive v = (case v of JNum n \<Rightarrow> 0 < n | JBool b \<Rightarrow> b | _ \<Rightarrow> False)"

definition num_or_0 :: "jsval \<Rightarrow> int" where
  "num_or_0 v = (case v of JNum n \<Rightarrow> n | _ \<Rightarrow> 0)"

text \<open>The identifier of an API object, as it is written into a path.\<close>

definition row_id :: "row \<Rightarrow> string" where
  "row_id c = js_string (fld c ''id'')"

text \<open>\<open>includes\<close>, \<open>startsWith\<close>, \<open>split\<close> at one character, \<open>replace\<close>, \<open>trim\<close>, letter case.\<close>

fun str_includes :: "string \<Rightarrow> string \<Rightarrow> bool" where
  "str_includes [] p = (p = [])"
| "str_includes (c # cs) p = (prefix p (c # cs) \<or> str_includes cs p)"

fun split_on :: "char \<Rightarrow> string \<Rightarrow> string list" where
  "split_on d [] = [[]]"
| "split_on d (c # cs) =
     (if c = d then [] # split_on d cs
      else (case split_on d cs of [] \<Rightarrow> [[c]] | w # ws \<Rightarrow> (c # w) # ws))"

definition replace_all :: "char \<Rightarrow> char \<Rightarrow> string \<Rightarrow> string" where
  "replace_all a b s = map (\<lambda>c. if c = a then b else c) s"

fun replace_first :: "char \<Rightarrow> char \<Rightarrow> string \<Rightarrow> string" where
  "replace_first a b [] = []"
| "replace_first a b (c # cs) = (if c = a then b # cs else c # replace_first a b cs)"

definition is_space :: "char \<Rightarrow> bool" where
  "is_space c \<longleftrightarrow> c \<in> set [CHR '' '', CHR 0x09, CHR 0x0A, CHR 0x0B, CHR 0x0C, CHR 0x0D]"

definition trim :: "string \<Rightarrow> string" where
  "trim s = rev (dropWhile is_space (rev (dropWhile is_space s)))"

definition uppers :: string where "uppers = ''ABCDEFGHIJKLMNOPQRSTUVWXYZ''"
definition lowers :: string where "lowers = ''abcdefghijklmnopqrstuvwxyz''"

definition to_lower_char :: "char \<Rightarrow> char" where
  "to_lower_char c = (case map_of (zip uppers lowers) c of Some d \<Rightarrow> d | None \<Rightarrow> c)"

definition to_upper_char :: "char \<Rightarrow> char" where
  "to_upper_char c = (case map_of (zip lowers uppers) c of Some d \<Rightarrow> d | None \<Rightarrow> c)"

definition to_lower :: "string \<Rightarrow> string" where
  "to_lower = map to_lower_char"

definition mdash :: string where
  "mdash = [CHR 0xE2, CHR 0x80, CHR 0x94]"

definition middot :: string where
  "middot = [CHR 0xC2, CHR 0xB7]"

definition ellipsis :: string where
  "ellipsis = [CHR 0xE2, CHR 0x80, CHR 0xA6]"

definition bullet :: string where
  "bullet = [CHR 0xE2, CHR 0x80, CHR 0xA2]"

definition rsquo :: string where
  "rsquo = [CHR 0xE2, CHR 0x80, CHR 0x99]"

lemma str_includes_iff: "str_includes s p \<longleftrightarrow> (\<exists>xs ys. s = xs @ p @ ys)"
proof (induction s)
  case Nil
  then show ?case by auto
next
  case (Cons c cs)
  have "(\<exists>xs ys. c # cs = xs @ p @ ys) \<longleftrightarrow>
      (\<exists>ys. c # cs = p @ ys) \<or> (\<exists>xs ys. cs = xs @ p @ ys)"
    by (metis append_Cons append_Nil neq_Nil_conv list.inject)
  then show ?case using Cons by (auto simp: prefix_def)
qed

lemma str_includes_Nil [simp]: "str_includes s []"
  by (cases s) simp_all

lemma str_includes_self: "str_includes (xs @ p @ ys) p"
  by (auto simp: str_includes_iff)

lemma str_includes_prefix: "prefix p s \<Longrightarrow> str_includes s p"
  by (auto simp: str_includes_iff prefix_def intro: exI [of _ "[]"])

lemma str_includes_trans: "str_includes s t \<Longrightarrow> str_includes t p \<Longrightarrow> str_includes s p"
  by (metis str_includes_iff append.assoc)

lemma str_includes_append: "str_includes t p \<Longrightarrow> str_includes (s @ t) p"
  by (metis str_includes_iff append.assoc)

lemma join_part: "str_includes (join sep (xs @ w # ys)) w"
proof (induction sep xs rule: join.induct)
  case (1 sep)
  show ?case by (cases ys) (use str_includes_self [of "[]" w] str_includes_self [of "[]" w "[]"] in auto)
next
  case (2 sep v)
  have "str_includes (join sep (w # ys)) w"
    by (cases ys) (use str_includes_self [of "[]" w] str_includes_self [of "[]" w "[]"] in auto)
  then show ?case using str_includes_append [of _ w "v @ sep"] by simp
next
  case (3 sep v v' vs)
  have "join sep ((v # v' # vs) @ w # ys) = (v @ sep) @ join sep ((v' # vs) @ w # ys)" by simp
  then show ?case using 3 str_includes_append by metis
qed

lemma str_includes_set: "str_includes s p \<Longrightarrow> set p \<subseteq> set s"
  by (auto simp: str_includes_iff)

lemma split_on_nonempty [simp]: "split_on d s \<noteq> []"
  by (cases s) (auto split: list.splits)

lemma split_on_no_sep: "d \<notin> set s \<Longrightarrow> split_on d s = [s]"
  by (induction s) auto

lemma split_on_append_sep: "split_on d (xs @ d # ys) = split_on d xs @ split_on d ys"
proof (induction xs)
  case Nil
  then show ?case by simp
next
  case (Cons x xs)
  then show ?case by (auto split: list.splits simp: append_eq_Cons_conv)
qed

lemma split_on_append: "d \<notin> set w \<Longrightarrow> split_on d (w @ d # ys) = w # split_on d ys"
  by (simp add: split_on_append_sep split_on_no_sep)

lemma split_on_hd_prefix: "d \<notin> set w \<Longrightarrow> prefix w (hd (split_on d (w @ ys)))"
  by (induction w) (auto split: list.splits)

lemma join_split_on: "join [d] (split_on d s) = s"
proof (induction s)
  case Nil
  then show ?case by simp
next
  case (Cons c cs)
  obtain w ws where s: "split_on d cs = w # ws"
    by (cases "split_on d cs") auto
  then show ?case using Cons by (cases ws) auto
qed

lemma set_replace_all: "a \<noteq> b \<Longrightarrow> a \<notin> set (replace_all a b s)"
  by (auto simp: replace_all_def)

lemma length_replace_all [simp]: "length (replace_all a b s) = length s"
  by (simp add: replace_all_def)

lemma dropWhile_idem: "dropWhile P (dropWhile P s) = dropWhile P s"
  by (induction s) auto

lemma trim_eq_Nil_iff: "trim s = [] \<longleftrightarrow> (\<forall>c \<in> set s. is_space c)"
proof -
  have "trim s = [] \<longleftrightarrow> (\<forall>c \<in> set (dropWhile is_space s). is_space c)"
    by (simp add: trim_def dropWhile_eq_Nil_conv)
  also have "\<dots> \<longleftrightarrow> (\<forall>c \<in> set s. is_space c)"
    by (induction s) auto
  finally show ?thesis .
qed

lemma trim_Nil [simp]: "trim [] = []"
  by (simp add: trim_def)

lemma dropWhile_hd: "dropWhile P s = [] \<or> \<not> P (hd (dropWhile P s))"
  by (induction s) auto

lemma dropWhile_id: "s = [] \<or> \<not> P (hd s) \<Longrightarrow> dropWhile P s = s"
  by (cases s) auto

lemma hd_rev_dropWhile_rev:
  assumes "rev (dropWhile P (rev t)) \<noteq> []"
  shows "hd (rev (dropWhile P (rev t))) = hd t"
proof -
  obtain pre where pre: "rev t = pre @ dropWhile P (rev t)"
    by (metis takeWhile_dropWhile_id)
  then have t: "t = rev (dropWhile P (rev t)) @ rev pre"
    by (metis rev_append rev_rev_ident)
  with assms show ?thesis by (metis hd_append2)
qed

lemma trim_idem: "trim (trim s) = trim s"
proof -
  let ?t = "dropWhile is_space s"
  let ?u = "rev (dropWhile is_space (rev ?t))"
  have "?u = [] \<or> \<not> is_space (hd ?u)"
    using hd_rev_dropWhile_rev [of is_space ?t] dropWhile_hd [of is_space s] by fastforce
  then have "dropWhile is_space ?u = ?u" by (rule dropWhile_id)
  then show ?thesis by (simp add: trim_def dropWhile_idem)
qed

lemma set_trim: "set (trim s) \<subseteq> set s"
  unfolding trim_def by (auto dest!: set_dropWhileD)

section \<open>Lists\<close>

text \<open>The first element of a list that satisfies a test: \<open>xs.find(p)\<close>.\<close>

lemma find_Some_in: "List.find P xs = Some x \<Longrightarrow> x \<in> set xs \<and> P x"
  by (auto simp: find_Some_iff)

lemma length_filter_split:
  "length (filter P xs) + length (filter (\<lambda>x. \<not> P x) xs) = length xs"
  by (rule sum_length_filter_compl)

lemma length_filter_disj:
  "(\<And>x. x \<in> set xs \<Longrightarrow> \<not> (P x \<and> Q x)) \<Longrightarrow>
   length (filter (\<lambda>x. P x \<or> Q x) xs) = length (filter P xs) + length (filter Q xs)"
  by (induction xs) auto

end
