(* ===== verification/Ui.thy ===== *)
theory Ui
  imports Prelude
begin

text \<open>
  The rendered pages. A page is a list of elements of type \<open>'e ui\<close>, where \<open>'e\<close> is the type of the
  page's events: its texts, the values it shows, its buttons with their \<open>disabled\<close> flag and the event
  of their click handler, its inputs with value and change handler, and its forms. Class names,
  inline styles and icons are left out. \<open>clicks\<close> lists the events a user can trigger on the rendered
  page without typing: a disabled button triggers nothing, and a form is submitted only when its
  submit button is enabled and its required fields are filled in.
\<close>

datatype 'e ui =
    Txt string
  | Val jsval
  | Link string string
  | Btn string bool 'e
  | Field string string bool "string \<Rightarrow> 'e"
  | Select string "(string \<times> string) list" "string \<Rightarrow> 'e"
  | Checkbox string bool "bool \<Rightarrow> 'e"
  | Submit string bool
  | Form 'e "'e ui list"
  | Clickable 'e "'e ui list"
  | Box "'e ui list"

fun submit_flags :: "'e ui \<Rightarrow> bool list" where
  "submit_flags (Submit l d) = [d]"
| "submit_flags (Form e us) = concat (map submit_flags us)"
| "submit_flags (Clickable e us) = concat (map submit_flags us)"
| "submit_flags (Box us) = concat (map submit_flags us)"
| "submit_flags _ = []"

fun unfilled :: "'e ui \<Rightarrow> bool" where
  "unfilled (Field p v req f) = (req \<and> v = [])"
| "unfilled (Form e us) = list_ex unfilled us"
| "unfilled (Clickable e us) = list_ex unfilled us"
| "unfilled (Box us) = list_ex unfilled us"
| "unfilled _ = False"

definition submittable :: "'e ui list \<Rightarrow> bool" where
  "submittable us \<longleftrightarrow>
     (case concat (map submit_flags us) of d # _ \<Rightarrow> \<not> d | [] \<Rightarrow> False) \<and> \<not> list_ex unfilled us"

fun clicks :: "'e ui \<Rightarrow> 'e list" where
  "clicks (Btn l d e) = (if d then [] else [e])"
| "clicks (Form e us) = (if submittable us then [e] else []) @ concat (map clicks us)"
| "clicks (Clickable e us) = e # concat (map clicks us)"
| "clicks (Box us) = concat (map clicks us)"
| "clicks _ = []"

definition page_clicks :: "'e ui list \<Rightarrow> 'e list" where
  "page_clicks us = concat (map clicks us)"

text \<open>The static texts of a page, in document order.\<close>

fun texts :: "'e ui \<Rightarrow> string list" where
  "texts (Txt s) = [s]"
| "texts (Btn l d e) = [l]"
| "texts (Submit l d) = [l]"
| "texts (Link l h) = [l]"
| "texts (Form e us) = concat (map texts us)"
| "texts (Clickable e us) = concat (map texts us)"
| "texts (Box us) = concat (map texts us)"
| "texts _ = []"

definition page_texts :: "'e ui list \<Rightarrow> string list" where
  "page_texts us = concat (map texts us)"

text \<open>\<open>cond && element\<close>: the element or nothing.\<close>

definition shown :: "bool \<Rightarrow> 'e ui list \<Rightarrow> 'e ui list" where
  "shown b us = (if b then us else [])"

lemma shown_simps [simp]: "shown True us = us" "shown False us = []"
  by (simp_all add: shown_def)

lemma page_clicks_simps [simp]:
  "page_clicks [] = []"
  "page_clicks (u # us) = clicks u @ page_clicks us"
  "page_clicks (us @ vs) = page_clicks us @ page_clicks vs"
  by (simp_all add: page_clicks_def)

lemma page_clicks_shown [simp]: "page_clicks (shown b us) = (if b then page_clicks us else [])"
  by (simp add: shown_def)

lemma page_clicks_if: "page_clicks (if b then us else vs) = (if b then page_clicks us else page_clicks vs)"
  by simp

lemma set_page_clicks: "e \<in> set (page_clicks us) \<longleftrightarrow> (\<exists>u \<in> set us. e \<in> set (clicks u))"
  by (auto simp: page_clicks_def)

lemma page_clicks_map: "set (page_clicks (map f xs)) = (\<Union>x \<in> set xs. set (clicks (f x)))"
  by (auto simp: page_clicks_def)

lemma page_clicks_Val [simp]: "page_clicks (map Val vs) = []" "page_clicks (map Txt ts) = []"
  by (simp_all add: page_clicks_def o_def)

lemma clicks_Box [simp]: "clicks (Box us) = page_clicks us"
  by (simp add: page_clicks_def)

lemma clicks_Form [simp]: "clicks (Form e us) = (if submittable us then [e] else []) @ page_clicks us"
  by (simp add: page_clicks_def)

lemma clicks_Clickable [simp]: "clicks (Clickable e us) = e # page_clicks us"
  by (simp add: page_clicks_def)

declare clicks.simps(2-4) [simp del]

lemma page_texts_simps [simp]:
  "page_texts [] = []"
  "page_texts (u # us) = texts u @ page_texts us"
  "page_texts (us @ vs) = page_texts us @ page_texts vs"
  by (simp_all add: page_texts_def)

lemma page_texts_shown [simp]: "page_texts (shown b us) = (if b then page_texts us else [])"
  by (simp add: shown_def)

lemma texts_Box [simp]: "texts (Box us) = page_texts us"
  by (simp add: page_texts_def)

lemma texts_Form [simp]: "texts (Form e us) = page_texts us"
  by (simp add: page_texts_def)

lemma texts_Clickable [simp]: "texts (Clickable e us) = page_texts us"
  by (simp add: page_texts_def)

declare texts.simps(5-7) [simp del]

section \<open>Effects\<close>

text \<open>
  What a handler does besides changing its component's state, in the order it does it: an API call
  (of type \<open>'c\<close>), a toast, a navigation, an invalidation of cached queries, a copy to the clipboard.
\<close>

datatype 'c effect =
    Call 'c
  | ToastOk string
  | ToastErr jsval
  | ToastInfo string
  | Navigate string
  | NavigateReplace string
  | Invalidate "jsval list"
  | CopyText string
  | Refetch string

fun calls_of :: "'c effect list \<Rightarrow> 'c list" where
  "calls_of [] = []"
| "calls_of (Call c # es) = c # calls_of es"
| "calls_of (_ # es) = calls_of es"

lemma calls_of_append [simp]: "calls_of (es @ fs) = calls_of es @ calls_of fs"
  by (induction es rule: calls_of.induct) auto

text \<open>
  The answer of an API call as the handlers see it: the parsed body, or the error axios rejects with:
  its code, the URL of its request and the response's status and body where there is one.
\<close>

record api_error =
  err_code :: jsval
  err_url :: jsval
  err_response :: "(int \<times> jsval) option"

datatype answer = Answered jsval | Failed api_error

text \<open>\<open>err?.response?.data?.detail\<close>\<close>

definition err_detail :: "api_error \<Rightarrow> jsval" where
  "err_detail e = (case err_response e of None \<Rightarrow> JUndef | Some (_, d) \<Rightarrow> opt_fld d ''detail'')"

end
