(* ===== verification/AuthStore.thy ===== *)
theory AuthStore
  imports Ui
begin

text \<open>
  The authentication store and the axios interceptors of \<open>frontend/src/stores/auth.ts\<close>: the stored
  session, the bearer header put on every request, and the automatic logout on a 401 answer.
\<close>

section \<open>The store\<close>

record auth =
  token :: jsval
  userId :: jsval
  role :: jsval
  fullName :: jsval

definition initAuth :: auth where
  "initAuth = \<lparr>token = JNull, userId = JNull, role = JNull, fullName = JNull\<rparr>"

definition setAuth :: "jsval \<Rightarrow> jsval \<Rightarrow> jsval \<Rightarrow> jsval \<Rightarrow> auth \<Rightarrow> auth" where
  "setAuth t u r f s = s\<lparr>token := t, userId := u, role := r, fullName := f\<rparr>"

definition clearAuth :: "auth \<Rightarrow> auth" where
  "clearAuth s = s\<lparr>token := JNull, userId := JNull, role := JNull, fullName := JNull\<rparr>"

definition signed_in :: "auth \<Rightarrow> bool" where
  "signed_in s \<longleftrightarrow> truthy (token s)"

lemma clearAuth_init: "clearAuth s = initAuth"
  by (simp add: clearAuth_def initAuth_def)

lemma clearAuth_setAuth: "clearAuth (setAuth t u r f s) = initAuth"
  by (simp add: clearAuth_init)

lemma not_signed_in_cleared [simp]: "\<not> signed_in (clearAuth s)" "\<not> signed_in initAuth"
  by (simp_all add: signed_in_def clearAuth_def initAuth_def)

lemma signed_in_setAuth [simp]: "signed_in (setAuth t u r f s) \<longleftrightarrow> truthy t"
  by (simp add: signed_in_def setAuth_def)

section \<open>The interceptors\<close>

text \<open>The request interceptor: \<open>config.headers['Authorization'] = `Bearer ${token}`\<close>.\<close>

definition attach_jwt :: "auth \<Rightarrow> row \<Rightarrow> row" where
  "attach_jwt s headers =
     (if truthy (token s)
      then upd headers ''Authorization'' (JStr (''Bearer '' @ js_string (token s)))
      else headers)"

text \<open>
  The browser as the interceptor sees it: the store and the address of the window. Assigning
  \<open>window.location.href\<close> loads that address.
\<close>

record browser =
  auth_store :: auth
  location :: string

definition is_auth_attempt :: "string \<Rightarrow> bool" where
  "is_auth_attempt url \<longleftrightarrow> str_includes url ''/auth/login'' \<or> str_includes url ''/auth/mfa/verify''"

text \<open>The response interceptor's error branch; the error is passed on in every case.\<close>

definition err_url_text :: "api_error \<Rightarrow> string" where
  "err_url_text e = js_string (jor (err_url e) (JStr []))"

definition on_response_error :: "api_error \<Rightarrow> browser \<Rightarrow> browser \<times> api_error" where
  "on_response_error e w =
     ((if (case err_response e of Some (status, _) \<Rightarrow> status = 401 | None \<Rightarrow> False)
          \<and> \<not> is_auth_attempt (err_url_text e)
       then w\<lparr>auth_store := clearAuth (auth_store w), location := ''/login''\<rparr>
       else w), e)"

lemma attach_jwt_header:
  "fld (attach_jwt s h) ''Authorization'' =
     (if signed_in s then JStr (''Bearer '' @ js_string (token s)) else fld h ''Authorization'')"
  by (simp add: attach_jwt_def signed_in_def)

lemma attach_jwt_other: "k \<noteq> ''Authorization'' \<Longrightarrow> fld (attach_jwt s h) k = fld h k"
  by (simp add: attach_jwt_def)

lemma on_response_error_401:
  "err_response e = Some (401, d) \<Longrightarrow> \<not> is_auth_attempt (err_url_text e) \<Longrightarrow>
   fst (on_response_error e w) = w\<lparr>auth_store := initAuth, location := ''/login''\<rparr>"
  by (simp add: on_response_error_def clearAuth_init)

lemma on_response_error_else:
  "(\<forall>d. err_response e \<noteq> Some (401, d)) \<or> is_auth_attempt (err_url_text e) \<Longrightarrow>
   fst (on_response_error e w) = w"
  by (auto simp: on_response_error_def split: option.splits)

text \<open>The path segments of an address, and the addresses the interceptor takes for sign-in attempts.\<close>

definition segments :: "string \<Rightarrow> string list" where
  "segments = split_on (CHR ''/'')"

fun login_segs :: "string list \<Rightarrow> bool" where
  "login_segs (a # b # ws) = ((a = ''auth'' \<and> prefix ''login'' b) \<or> login_segs (b # ws))"
| "login_segs _ = False"

fun verify_segs :: "string list \<Rightarrow> bool" where
  "verify_segs (a # b # c # ws) =
     ((a = ''auth'' \<and> b = ''mfa'' \<and> prefix ''verify'' c) \<or> verify_segs (b # c # ws))"
| "verify_segs _ = False"

lemma login_segs_Cons: "login_segs ws \<Longrightarrow> login_segs (v # ws)"
  by (cases ws) auto

lemma verify_segs_Cons: "verify_segs ws \<Longrightarrow> verify_segs (v # ws)"
  by (cases ws rule: verify_segs.cases) auto

lemma login_segs_append: "login_segs ws \<Longrightarrow> login_segs (vs @ ws)"
  by (induction vs) (auto intro: login_segs_Cons)

lemma verify_segs_append: "verify_segs ws \<Longrightarrow> verify_segs (vs @ ws)"
  by (induction vs) (auto intro: verify_segs_Cons)

lemma login_segs_hd: "segs \<noteq> [] \<Longrightarrow> prefix ''login'' (hd segs) \<Longrightarrow> login_segs (''auth'' # segs)"
  by (cases segs) auto

lemma verify_segs_hd:
  "segs \<noteq> [] \<Longrightarrow> prefix ''verify'' (hd segs) \<Longrightarrow> verify_segs (''auth'' # ''mfa'' # segs)"
  by (cases segs) auto

lemma attempt_login_segs:
  assumes "str_includes url ''/auth/login''"
  shows "login_segs (segments url)"
proof -
  from assms obtain xs ys where "url = xs @ ''/auth/login'' @ ys"
    by (auto simp: str_includes_iff)
  then have "segments url = split_on (CHR ''/'') (xs @ CHR ''/'' # (''auth'' @ CHR ''/'' # (''login'' @ ys)))"
    by (simp add: segments_def)
  also have "\<dots> = split_on (CHR ''/'') xs @ ''auth'' # split_on (CHR ''/'') (''login'' @ ys)"
    by (subst split_on_append_sep, subst split_on_append) simp_all
  finally have s: "segments url = \<dots>" .
  have "prefix ''login'' (hd (split_on (CHR ''/'') (''login'' @ ys)))"
    by (rule split_on_hd_prefix) simp
  then have "login_segs (''auth'' # split_on (CHR ''/'') (''login'' @ ys))"
    by (rule login_segs_hd [OF split_on_nonempty])
  then show ?thesis unfolding s by (rule login_segs_append)
qed

lemma attempt_verify_segs:
  assumes "str_includes url ''/auth/mfa/verify''"
  shows "verify_segs (segments url)"
proof -
  from assms obtain xs ys where "url = xs @ ''/auth/mfa/verify'' @ ys"
    by (auto simp: str_includes_iff)
  then have "segments url = split_on (CHR ''/'')
      (xs @ CHR ''/'' # (''auth'' @ CHR ''/'' # (''mfa'' @ CHR ''/'' # (''verify'' @ ys))))"
    by (simp add: segments_def)
  also have "\<dots> = split_on (CHR ''/'') xs @ ''auth'' # ''mfa'' # split_on (CHR ''/'') (''verify'' @ ys)"
    by (subst split_on_append_sep, subst split_on_append, simp, subst split_on_append) simp_all
  finally have s: "segments url = \<dots>" .
  have "prefix ''verify'' (hd (split_on (CHR ''/'') (''verify'' @ ys)))"
    by (rule split_on_hd_prefix) simp
  then have "verify_segs (''auth'' # ''mfa'' # split_on (CHR ''/'') (''verify'' @ ys))"
    by (rule verify_segs_hd [OF split_on_nonempty])
  then show ?thesis unfolding s by (rule verify_segs_append)
qed

text \<open>An address with neither pattern among its segments is no sign-in attempt.\<close>

lemma not_attempt_segs:
  "\<not> login_segs (segments url) \<Longrightarrow> \<not> verify_segs (segments url) \<Longrightarrow> \<not> is_auth_attempt url"
  by (auto simp: is_auth_attempt_def dest: attempt_login_segs attempt_verify_segs)

end
