(* ===== verification/ApiClient.thy ===== *)
theory ApiClient
  imports AuthStore
begin

text \<open>
  The API client of \<open>frontend/src/stores/auth.ts\<close>: one constructor per function of the \<open>api\<close> object,
  in the source's order and sections, and the request each function hands to axios. Arguments of
  type \<open>any\<close> are JavaScript values, optional arguments are options.
\<close>

datatype http_method = GET | POST | PATCH | PUT | DELETE

record request =
  req_method :: http_method
  req_url :: string
  req_params :: jsval
  req_body :: jsval
  urlencoded :: bool
  timeout_ms :: "nat option"
  blob :: bool

definition mk_request :: "http_method \<Rightarrow> string \<Rightarrow> jsval \<Rightarrow> jsval \<Rightarrow> request" where
  "mk_request m u ps b =
     \<lparr>req_method = m, req_url = u, req_params = ps, req_body = b, urlencoded = False, timeout_ms = None, blob = False\<rparr>"

definition get :: "string \<Rightarrow> request" where
  "get u = mk_request GET u JUndef JUndef"
definition get_with :: "string \<Rightarrow> jsval \<Rightarrow> request" where
  "get_with u ps = mk_request GET u ps JUndef"
definition post :: "string \<Rightarrow> jsval \<Rightarrow> request" where
  "post u b = mk_request POST u JUndef b"
definition patch :: "string \<Rightarrow> jsval \<Rightarrow> request" where
  "patch u b = mk_request PATCH u JUndef b"
definition put :: "string \<Rightarrow> jsval \<Rightarrow> request" where
  "put u b = mk_request PUT u JUndef b"
definition del :: "string \<Rightarrow> request" where
  "del u = mk_request DELETE u JUndef JUndef"

definition or_default :: "'a option \<Rightarrow> 'a \<Rightarrow> 'a" where
  "or_default x d = (case x of Some v \<Rightarrow> v | None \<Rightarrow> d)"

named_theorems request_defs "the request constructors"

lemmas [request_defs] = get_def get_with_def post_def patch_def put_def del_def mk_request_def

section \<open>Sign-in, users, health, alerts, events\<close>

datatype auth_call =
    Login string string
  | Me
  | ListUsers
  | CreateUser jsval
  | MfaVerify jsval string
  | MfaSetup
  | MfaEnable string
  | MfaDisable string string
  | MfaResetUser string
  | Health
  | ListAlerts jsval
  | AlertStats
  | GetAlert string
  | UpdateAlert string jsval
  | IngestAlert jsval
  | ListEvents jsval
  | GetEvent string

primrec auth_request :: "auth_call \<Rightarrow> request" where
  "auth_request (Login email password) =
     (post ''/auth/login'' (JObj [(''username'', JStr email), (''password'', JStr password)]))
       \<lparr>urlencoded := True, timeout_ms := Some 15000\<rparr>"
| "auth_request Me = get ''/auth/me''"
| "auth_request ListUsers = get ''/auth/users''"
| "auth_request (CreateUser d) = post ''/auth/users'' d"
| "auth_request (MfaVerify mfaToken code) =
     (post ''/auth/mfa/verify'' (JObj [(''mfa_token'', mfaToken), (''code'', JStr code)]))
       \<lparr>timeout_ms := Some 15000\<rparr>"
| "auth_request MfaSetup = post ''/auth/mfa/setup'' JUndef"
| "auth_request (MfaEnable code) = post ''/auth/mfa/enable'' (JObj [(''code'', JStr code)])"
| "auth_request (MfaDisable password code) =
     post ''/auth/mfa/disable'' (JObj [(''password'', JStr password), (''code'', JStr code)])"
| "auth_request (MfaResetUser i) = post (''/auth/users/'' @ i @ ''/mfa/reset'') JUndef"
| "auth_request Health = get ''/health/detailed''"
| "auth_request (ListAlerts ps) = get_with ''/alerts'' ps"
| "auth_request AlertStats = get ''/alerts/stats''"
| "auth_request (GetAlert i) = get (''/alerts/'' @ i)"
| "auth_request (UpdateAlert i d) = patch (''/alerts/'' @ i) d"
| "auth_request (IngestAlert d) = post ''/alerts'' d"
| "auth_request (ListEvents ps) = get_with ''/events'' ps"
| "auth_request (GetEvent i) = get (''/events/'' @ i)"

section \<open>AI dashboards\<close>

datatype ai_call =
    FloodingInsights "int option"
  | VulnInsights "int option"
  | GenerateDashboard string "int option"
  | ListDashboards
  | CreateDashboard string
  | GetDashboard string "int option"
  | SaveDashboard string string "jsval list"
  | DeleteDashboard string

definition hours_param :: "int option \<Rightarrow> string \<times> jsval" where
  "hours_param h = (''hours'', JNum (or_default h 24))"

primrec ai_request :: "ai_call \<Rightarrow> request" where
  "ai_request (FloodingInsights h) = get_with ''/ai/insights/flooding'' (JObj [hours_param h])"
| "ai_request (VulnInsights h) = get_with ''/ai/insights/vulnerabilities'' (JObj [hours_param h])"
| "ai_request (GenerateDashboard p h) =
     post ''/ai/dashboard/generate'' (JObj [(''prompt'', JStr p), hours_param h])"
| "ai_request ListDashboards = get ''/ai/dashboards''"
| "ai_request (CreateDashboard n) = post ''/ai/dashboards'' (JObj [(''name'', JStr n)])"
| "ai_request (GetDashboard i h) = get_with (''/ai/dashboards/'' @ i) (JObj [hours_param h])"
| "ai_request (SaveDashboard i n ws) =
     put (''/ai/dashboards/'' @ i) (JObj [(''name'', JStr n), (''widgets'', JArr ws)])"
| "ai_request (DeleteDashboard i) = del (''/ai/dashboards/'' @ i)"

section \<open>Cases\<close>

datatype case_call =
    ListCases jsval
  | GetCase string
  | CreateCase jsval
  | UpdateCase string jsval
  | ListCaseTemplates
  | AddComment string string "bool option"
  | GetComments string
  | UpdateComment string string string
  | AddObservable string jsval
  | GetObservables string
  | UpdateObservable string string jsval
  | DeleteObservable string string
  | CorrelateObservable string string
  | GetCaseTimeline string
  | AddTimelineEvent string string "string list option"
  | ListCaseAlerts string
  | ListCaseTasks string
  | CreateCaseTask string jsval
  | UpdateCaseTask string string jsval
  | DeleteCaseTask string string
  | ListCaseAssets string
  | CreateCaseAsset string jsval
  | UpdateCaseAsset string string jsval
  | DeleteCaseAsset string string
  | ListCaseEvidence string
  | CreateCaseEvidence string jsval
  | UpdateCaseEvidence string string jsval
  | DeleteCaseEvidence string string
  | ListCaseNotes string
  | CreateCaseNote string jsval
  | UpdateCaseNote string string jsval
  | DeleteCaseNote string string
  | ListMitreTechniques
  | DownloadCaseReport string

definition case_path :: "string \<Rightarrow> string \<Rightarrow> string" where
  "case_path i part = ''/cases/'' @ i @ CHR ''/'' # part"

definition case_item :: "string \<Rightarrow> string \<Rightarrow> string \<Rightarrow> string" where
  "case_item i part j = ''/cases/'' @ i @ CHR ''/'' # part @ CHR ''/'' # j"

primrec case_request :: "case_call \<Rightarrow> request" where
  "case_request (ListCases ps) = get_with ''/cases'' ps"
| "case_request (GetCase i) = get (''/cases/'' @ i)"
| "case_request (CreateCase d) = post ''/cases'' d"
| "case_request (UpdateCase i d) = patch (''/cases/'' @ i) d"
| "case_request ListCaseTemplates = get ''/cases/templates''"
| "case_request (AddComment i content internal) = post (case_path i ''comments'')
     (JObj [(''content'', JStr content), (''is_internal'', JBool (or_default internal True))])"
| "case_request (GetComments i) = get (case_path i ''comments'')"
| "case_request (UpdateComment i j content) =
     patch (case_item i ''comments'' j) (JObj [(''content'', JStr content)])"
| "case_request (AddObservable i d) = post (case_path i ''observables'') d"
| "case_request (GetObservables i) = get (case_path i ''observables'')"
| "case_request (UpdateObservable i j d) = patch (case_item i ''observables'' j) d"
| "case_request (DeleteObservable i j) = del (case_item i ''observables'' j)"
| "case_request (CorrelateObservable i j) = get (case_item i ''observables'' j @ ''/correlate'')"
| "case_request (GetCaseTimeline i) = get (case_path i ''timeline'')"
| "case_request (AddTimelineEvent i descr mitre) = post (case_path i ''timeline'')
     (JObj [(''description'', JStr descr), (''event_type'', JStr ''manual''),
            (''mitre_techniques'', JArr (map JStr (or_default mitre [])))])"
| "case_request (ListCaseAlerts i) =
     get_with ''/alerts'' (JObj [(''case_id'', JStr i), (''limit'', JNum 200)])"
| "case_request (ListCaseTasks i) = get (case_path i ''tasks'')"
| "case_request (CreateCaseTask i d) = post (case_path i ''tasks'') d"
| "case_request (UpdateCaseTask i j d) = patch (case_item i ''tasks'' j) d"
| "case_request (DeleteCaseTask i j) = del (case_item i ''tasks'' j)"
| "case_request (ListCaseAssets i) = get (case_path i ''assets'')"
| "case_request (CreateCaseAsset i d) = post (case_path i ''assets'') d"
| "case_request (UpdateCaseAsset i j d) = patch (case_item i ''assets'' j) d"
| "case_request (DeleteCaseAsset i j) = del (case_item i ''assets'' j)"
| "case_request (ListCaseEvidence i) = get (case_path i ''evidence'')"
| "case_request (CreateCaseEvidence i d) = post (case_path i ''evidence'') d"
| "case_request (UpdateCaseEvidence i j d) = patch (case_item i ''evidence'' j) d"
| "case_request (DeleteCaseEvidence i j) = del (case_item i ''evidence'' j)"
| "case_request (ListCaseNotes i) = get (case_path i ''notes'')"
| "case_request (CreateCaseNote i d) = post (case_path i ''notes'') d"
| "case_request (UpdateCaseNote i j d) = patch (case_item i ''notes'' j) d"
| "case_request (DeleteCaseNote i j) = del (case_item i ''notes'' j)"
| "case_request ListMitreTechniques = get ''/mitre/techniques''"
| "case_request (DownloadCaseReport i) = (get (case_path i ''report''))\<lparr>blob := True\<rparr>"

text \<open>
  What \<open>downloadCaseReport\<close> does with the document it received: it makes an object URL for the blob
  (\<open>obj\<close>, the browser's), clicks a temporary anchor on it and releases the URL again.
\<close>

datatype dom_action =
    CreateObjectURL jsval string
  | AppendAnchor string string
  | ClickAnchor string string
  | RemoveAnchor
  | RevokeObjectURL string

definition download_actions :: "jsval \<Rightarrow> string \<Rightarrow> jsval \<Rightarrow> dom_action list" where
  "download_actions data obj caseNumber =
     (let file = ''case-'' @ js_string caseNumber @ ''-report.html'' in
      [CreateObjectURL data obj, AppendAnchor obj file, ClickAnchor obj file, RemoveAnchor,
       RevokeObjectURL obj])"

section \<open>Agents, connectors, engine\<close>

datatype engine_call =
    ListAgents jsval
  | SyncAgents
  | DeleteAgent string
  | AgentVulns string
  | ListConnectors
  | UpdateConnector string jsval
  | VerifyConnector string
  | EngineRules
  | EngineTestLog string "string option"
  | EngineTestRule jsval string "string option"
  | EngineNormalize string "string option"
  | EngineTestParser string "string option" "string option"
  | EngineGenerateParser string "string option"
  | EngineGenerateYaraL string "string option"
  | EngineTestYaraL string "string list" "string option"
  | EngineYaraLRules
  | EngineListParsers
  | EngineGetParser string
  | EngineSaveParser string
  | EngineDeleteParser string

definition str_default :: "string option \<Rightarrow> jsval" where
  "str_default s = JStr (or_default s [])"

primrec engine_request :: "engine_call \<Rightarrow> request" where
  "engine_request (ListAgents ps) = get_with ''/agents'' ps"
| "engine_request SyncAgents = post ''/agents/sync'' JUndef"
| "engine_request (DeleteAgent i) = del (''/agents/'' @ i)"
| "engine_request (AgentVulns i) = get (''/agents/'' @ i @ ''/vulnerabilities'')"
| "engine_request ListConnectors = get ''/connectors''"
| "engine_request (UpdateConnector i d) = patch (''/connectors/'' @ i) d"
| "engine_request (VerifyConnector i) = post (''/connectors/'' @ i @ ''/verify'') JUndef"
| "engine_request EngineRules = get ''/engine/rules''"
| "engine_request (EngineTestLog m p) =
     post ''/engine/test'' (JObj [(''message'', JStr m), (''program'', str_default p)])"
| "engine_request (EngineTestRule r m p) =
     post ''/engine/rules/test'' (JObj [(''rule'', r), (''message'', JStr m), (''program'', str_default p)])"
| "engine_request (EngineNormalize m p) =
     post ''/engine/normalize'' (JObj [(''message'', JStr m), (''program'', str_default p)])"
| "engine_request (EngineTestParser s y p) =
     post ''/engine/parser/test''
       (JObj [(''yaml'', str_default y), (''sample'', JStr s), (''program'', str_default p)])"
| "engine_request (EngineGenerateParser s h) =
     post ''/engine/parser/generate'' (JObj [(''sample'', JStr s), (''hint'', str_default h)])"
| "engine_request (EngineGenerateYaraL s h) =
     post ''/engine/yaral/generate'' (JObj [(''sample'', JStr s), (''hint'', str_default h)])"
| "engine_request (EngineTestYaraL r ms p) =
     post ''/engine/yaral/test''
       (JObj [(''rule'', JStr r), (''messages'', JArr (map JStr ms)), (''program'', str_default p)])"
| "engine_request EngineYaraLRules = get ''/engine/yaral/rules''"
| "engine_request EngineListParsers = get ''/engine/parsers''"
| "engine_request (EngineGetParser n) = get (''/engine/parsers/'' @ n)"
| "engine_request (EngineSaveParser y) = post ''/engine/parsers'' (JObj [(''yaml'', JStr y)])"
| "engine_request (EngineDeleteParser n) = del (''/engine/parsers/'' @ n)"

section \<open>Threat intelligence, dark web, forensics, tenants, SOAR\<close>

datatype intel_call =
    LookupIoc string string
  | MispEvents
  | DarkwebSearch string string
  | DarkwebStats
  | DarkwebAssets
  | DarkwebCreateAsset jsval
  | DarkwebScanAsset string
  | DarkwebDeleteAsset string
  | DarkwebFindings jsval
  | DarkwebUpdateFinding string string
  | AgentDeployCommand
  | ForensicsClients
  | ForensicsFlows string
  | ForensicsCollect string string jsval
  | ForensicsResults string string string
  | ListTenants
  | CreateTenant jsval
  | ListWorkflows
  | GetWorkflow string
  | CreateWorkflow jsval
  | UpdateWorkflow string jsval
  | DeleteWorkflow string
  | RunWorkflow string jsval
  | ListWorkflowRuns string
  | ListNodeTypes

primrec intel_request :: "intel_call \<Rightarrow> request" where
  "intel_request (LookupIoc v t) =
     post ''/threat-intel/lookup'' (JObj [(''value'', JStr v), (''type'', JStr t)])"
| "intel_request MispEvents = get ''/threat-intel/misp/events''"
| "intel_request (DarkwebSearch q t) =
     post ''/darkweb/search'' (JObj [(''query'', JStr q), (''entity_type'', JStr t)])"
| "intel_request DarkwebStats = get ''/darkweb/stats''"
| "intel_request DarkwebAssets = get ''/darkweb/assets''"
| "intel_request (DarkwebCreateAsset d) = post ''/darkweb/assets'' d"
| "intel_request (DarkwebScanAsset i) = post (''/darkweb/assets/'' @ i @ ''/scan'') JUndef"
| "intel_request (DarkwebDeleteAsset i) = del (''/darkweb/assets/'' @ i)"
| "intel_request (DarkwebFindings ps) = get_with ''/darkweb/findings'' ps"
| "intel_request (DarkwebUpdateFinding i s) =
     patch (''/darkweb/findings/'' @ i) (JObj [(''status'', JStr s)])"
| "intel_request AgentDeployCommand = get ''/agent-deploy/command''"
| "intel_request ForensicsClients = get ''/forensics/clients''"
| "intel_request (ForensicsFlows i) = get (''/forensics/clients/'' @ i @ ''/flows'')"
| "intel_request (ForensicsCollect i a ps) =
     post ''/forensics/collect''
       (JObj [(''client_id'', JStr i), (''artifact'', JStr a), (''parameters'', ps)])"
| "intel_request (ForensicsResults i f a) =
     get_with (''/forensics/clients/'' @ i @ ''/flows/'' @ f @ ''/results'') (JObj [(''artifact'', JStr a)])"
| "intel_request ListTenants = get ''/tenants''"
| "intel_request (CreateTenant d) = post ''/tenants'' d"
| "intel_request ListWorkflows = get ''/soar/workflows''"
| "intel_request (GetWorkflow i) = get (''/soar/workflows/'' @ i)"
| "intel_request (CreateWorkflow d) = post ''/soar/workflows'' d"
| "intel_request (UpdateWorkflow i d) = patch (''/soar/workflows/'' @ i) d"
| "intel_request (DeleteWorkflow i) = del (''/soar/workflows/'' @ i)"
| "intel_request (RunWorkflow i d) = post (''/soar/workflows/'' @ i @ ''/run'') (jor d (JObj []))"
| "intel_request (ListWorkflowRuns i) = get (''/soar/workflows/'' @ i @ ''/runs'')"
| "intel_request ListNodeTypes = get ''/soar/node-types''"

section \<open>All calls\<close>

datatype api_call =
    AuthCall auth_call
  | AiCall ai_call
  | CaseCall case_call
  | EngineCall engine_call
  | IntelCall intel_call

primrec api_request :: "api_call \<Rightarrow> request" where
  "api_request (AuthCall c) = auth_request c"
| "api_request (AiCall c) = ai_request c"
| "api_request (CaseCall c) = case_request c"
| "api_request (EngineCall c) = engine_request c"
| "api_request (IntelCall c) = intel_request c"

section \<open>Which addresses the calls use\<close>

text \<open>The arguments a call interpolates into its path.\<close>

definition path_args :: "api_call \<Rightarrow> string list" where
  "path_args c = (case c of
     AuthCall a \<Rightarrow> (case a of MfaResetUser i \<Rightarrow> [i] | GetAlert i \<Rightarrow> [i] | UpdateAlert i _ \<Rightarrow> [i]
       | GetEvent i \<Rightarrow> [i] | _ \<Rightarrow> [])
   | AiCall a \<Rightarrow> (case a of GetDashboard i _ \<Rightarrow> [i] | SaveDashboard i _ _ \<Rightarrow> [i]
       | DeleteDashboard i \<Rightarrow> [i] | _ \<Rightarrow> [])
   | CaseCall a \<Rightarrow> (case a of
         GetCase i \<Rightarrow> [i] | UpdateCase i _ \<Rightarrow> [i] | AddComment i _ _ \<Rightarrow> [i] | GetComments i \<Rightarrow> [i]
       | UpdateComment i j _ \<Rightarrow> [i, j] | AddObservable i _ \<Rightarrow> [i] | GetObservables i \<Rightarrow> [i]
       | UpdateObservable i j _ \<Rightarrow> [i, j] | DeleteObservable i j \<Rightarrow> [i, j]
       | CorrelateObservable i j \<Rightarrow> [i, j] | GetCaseTimeline i \<Rightarrow> [i] | AddTimelineEvent i _ _ \<Rightarrow> [i]
       | ListCaseTasks i \<Rightarrow> [i] | CreateCaseTask i _ \<Rightarrow> [i] | UpdateCaseTask i j _ \<Rightarrow> [i, j]
       | DeleteCaseTask i j \<Rightarrow> [i, j] | ListCaseAssets i \<Rightarrow> [i] | CreateCaseAsset i _ \<Rightarrow> [i]
       | UpdateCaseAsset i j _ \<Rightarrow> [i, j] | DeleteCaseAsset i j \<Rightarrow> [i, j] | ListCaseEvidence i \<Rightarrow> [i]
       | CreateCaseEvidence i _ \<Rightarrow> [i] | UpdateCaseEvidence i j _ \<Rightarrow> [i, j]
       | DeleteCaseEvidence i j \<Rightarrow> [i, j] | ListCaseNotes i \<Rightarrow> [i] | CreateCaseNote i _ \<Rightarrow> [i]
       | UpdateCaseNote i j _ \<Rightarrow> [i, j] | DeleteCaseNote i j \<Rightarrow> [i, j] | DownloadCaseReport i \<Rightarrow> [i]
       | _ \<Rightarrow> [])
   | EngineCall a \<Rightarrow> (case a of DeleteAgent i \<Rightarrow> [i] | AgentVulns i \<Rightarrow> [i] | UpdateConnector i _ \<Rightarrow> [i]
       | VerifyConnector i \<Rightarrow> [i] | EngineGetParser i \<Rightarrow> [i] | EngineDeleteParser i \<Rightarrow> [i] | _ \<Rightarrow> [])
   | IntelCall a \<Rightarrow> (case a of DarkwebScanAsset i \<Rightarrow> [i] | DarkwebDeleteAsset i \<Rightarrow> [i]
       | DarkwebUpdateFinding i _ \<Rightarrow> [i] | ForensicsFlows i \<Rightarrow> [i] | ForensicsResults i f _ \<Rightarrow> [i, f]
       | GetWorkflow i \<Rightarrow> [i] | UpdateWorkflow i _ \<Rightarrow> [i] | DeleteWorkflow i \<Rightarrow> [i]
       | RunWorkflow i _ \<Rightarrow> [i] | ListWorkflowRuns i \<Rightarrow> [i] | _ \<Rightarrow> []))"

definition slash_free :: "string list \<Rightarrow> bool" where
  "slash_free ps \<longleftrightarrow> (\<forall>p \<in> set ps. CHR ''/'' \<notin> set p)"

definition sign_in_call :: "api_call \<Rightarrow> bool" where
  "sign_in_call c = (case c of AuthCall (Login _ _) \<Rightarrow> True | AuthCall (MfaVerify _ _) \<Rightarrow> True | _ \<Rightarrow> False)"

lemma segments_sep [simp]: "segments (CHR ''/'' # cs) = [] # segments cs"
  by (simp add: segments_def)

lemma segments_arg [simp]:
  "CHR ''/'' \<notin> set p \<Longrightarrow> segments (p @ CHR ''/'' # cs) = p # segments cs"
  "CHR ''/'' \<notin> set p \<Longrightarrow> segments p = [p]"
  by (simp_all add: segments_def split_on_append split_on_no_sep)

lemma segments_step [simp]:
  "c \<noteq> CHR ''/'' \<Longrightarrow> segments (c # cs) = (case segments cs of [] \<Rightarrow> [[c]] | w # ws \<Rightarrow> (c # w) # ws)"
  by (simp add: segments_def)

lemmas url_simps = request_defs case_path_def case_item_def path_args_def slash_free_def sign_in_call_def

lemma auth_call_segs:
  assumes "slash_free (path_args (AuthCall c))" and "\<not> sign_in_call (AuthCall c)"
  shows "\<not> login_segs (segments (req_url (auth_request c))) \<and> \<not> verify_segs (segments (req_url (auth_request c)))"
  using assms by (cases c) (simp_all add: url_simps)

lemma ai_call_segs:
  assumes "slash_free (path_args (AiCall c))"
  shows "\<not> login_segs (segments (req_url (ai_request c))) \<and> \<not> verify_segs (segments (req_url (ai_request c)))"
  using assms by (cases c) (simp_all add: url_simps)

lemma case_call_segs:
  assumes "slash_free (path_args (CaseCall c))"
  shows "\<not> login_segs (segments (req_url (case_request c))) \<and> \<not> verify_segs (segments (req_url (case_request c)))"
  using assms by (cases c) (simp_all add: url_simps)

lemma engine_call_segs:
  assumes "slash_free (path_args (EngineCall c))"
  shows "\<not> login_segs (segments (req_url (engine_request c))) \<and> \<not> verify_segs (segments (req_url (engine_request c)))"
  using assms by (cases c) (simp_all add: url_simps)

lemma intel_call_segs:
  assumes "slash_free (path_args (IntelCall c))"
  shows "\<not> login_segs (segments (req_url (intel_request c))) \<and> \<not> verify_segs (segments (req_url (intel_request c)))"
  using assms by (cases c) (simp_all add: url_simps)

lemma sign_in_is_attempt: "sign_in_call c \<Longrightarrow> is_auth_attempt (req_url (api_request c))"
  by (auto simp: sign_in_call_def is_auth_attempt_def request_defs
           split: api_call.splits auth_call.splits)

lemma attempt_iff_sign_in:
  assumes "slash_free (path_args c)"
  shows "is_auth_attempt (req_url (api_request c)) \<longleftrightarrow> sign_in_call c"
proof
  assume "sign_in_call c"
  then show "is_auth_attempt (req_url (api_request c))" by (rule sign_in_is_attempt)
next
  assume attempt: "is_auth_attempt (req_url (api_request c))"
  show "sign_in_call c"
  proof (rule ccontr)
    assume no: "\<not> sign_in_call c"
    have "\<not> login_segs (segments (req_url (api_request c))) \<and> \<not> verify_segs (segments (req_url (api_request c)))"
      using assms no
      by (cases c) (simp_all add: auth_call_segs ai_call_segs case_call_segs engine_call_segs intel_call_segs)
    with attempt show False using not_attempt_segs by blast
  qed
qed

lemma timeout_iff_sign_in:
  "timeout_ms (api_request c) = (if sign_in_call c then Some 15000 else None)"
proof (cases c)
  case (AuthCall a)
  then show ?thesis by (cases a) (simp_all add: request_defs sign_in_call_def)
next
  case (AiCall a)
  then show ?thesis by (cases a) (simp_all add: request_defs sign_in_call_def)
next
  case (CaseCall a)
  then show ?thesis by (cases a) (simp_all add: request_defs sign_in_call_def)
next
  case (EngineCall a)
  then show ?thesis by (cases a) (simp_all add: request_defs sign_in_call_def)
next
  case (IntelCall a)
  then show ?thesis by (cases a) (simp_all add: request_defs sign_in_call_def)
qed

end
