(* ===== verification/Routes.thy ===== *)
theory Routes
  imports ApiClient
begin

text \<open>
  Routing and navigation: the route table and the authentication guard of \<open>frontend/src/App.tsx\<close>,
  the sidebar of \<open>frontend/src/layouts/DashboardLayout.tsx\<close>, and the path every page resolves to.
  The router itself (react-router) is not part of the repository: it is the parameter \<open>pick\<close>, which
  chooses a route for a path.
\<close>

section \<open>The route table\<close>

datatype page =
    LoginPage | DashboardPage | AlertsPage | AlertDetailPage | EventsPage | EventDetailPage
  | CustomDashboardPage | CasesPage | CaseDetailPage | AgentsPage | ThreatIntelPage | DarkWebPage
  | ForensicsPage | SoarPage | WorkflowBuilderPage | EnginePage | ConnectorsPage | SettingsPage
  | AccountSecurityPage

datatype seg = Lit string | Param string

datatype element = Page page | Redirect string

record route =
  pattern :: "seg list option"
  guarded :: bool
  element :: element

definition top_route :: "seg list \<Rightarrow> element \<Rightarrow> route" where
  "top_route p e = \<lparr>pattern = Some p, guarded = False, element = e\<rparr>"

text \<open>A child of the \<open>/\<close> route, whose element is wrapped in \<open>AuthGuard\<close>.\<close>

definition child_route :: "seg list \<Rightarrow> element \<Rightarrow> route" where
  "child_route p e = \<lparr>pattern = Some p, guarded = True, element = e\<rparr>"

definition splat_route :: route where
  "splat_route = \<lparr>pattern = None, guarded = False, element = Redirect ''/dashboard''\<rparr>"

definition app_routes :: "route list" where
  "app_routes =
     [top_route [Lit ''login''] (Page LoginPage),
      child_route [] (Redirect ''/dashboard''),
      child_route [Lit ''dashboard''] (Page DashboardPage),
      child_route [Lit ''alerts''] (Page AlertsPage),
      child_route [Lit ''alerts'', Param ''id''] (Page AlertDetailPage),
      child_route [Lit ''events''] (Page EventsPage),
      child_route [Lit ''events'', Param ''id''] (Page EventDetailPage),
      child_route [Lit ''custom-dashboard''] (Page CustomDashboardPage),
      child_route [Lit ''cases''] (Page CasesPage),
      child_route [Lit ''cases'', Param ''id''] (Page CaseDetailPage),
      child_route [Lit ''agents''] (Page AgentsPage),
      child_route [Lit ''threat-intel''] (Page ThreatIntelPage),
      child_route [Lit ''darkweb''] (Page DarkWebPage),
      child_route [Lit ''forensics''] (Page ForensicsPage),
      child_route [Lit ''soar''] (Page SoarPage),
      child_route [Lit ''soar'', Lit ''new''] (Page WorkflowBuilderPage),
      child_route [Lit ''soar'', Param ''id'', Lit ''edit''] (Page WorkflowBuilderPage),
      child_route [Lit ''engine''] (Page EnginePage),
      child_route [Lit ''connectors''] (Page ConnectorsPage),
      child_route [Lit ''settings''] (Page SettingsPage),
      child_route [Lit ''account''] (Page AccountSecurityPage)]"

text \<open>
  When the address of a window matches a pattern, as react-router documents it: letter case and slashes at
  the end are ignored, and a parameter stands for any segment that is not empty.
\<close>

fun inst :: "seg list \<Rightarrow> string list \<Rightarrow> bool" where
  "inst [] [] = True"
| "inst (Lit l # ps) (w # ws) = (to_lower l = to_lower w \<and> inst ps ws)"
| "inst (Param _ # ps) (w # ws) = (w \<noteq> [] \<and> inst ps ws)"
| "inst _ _ = False"

definition path_segs :: "string \<Rightarrow> string list" where
  "path_segs path =
     (case rev (dropWhile (\<lambda>c. c = CHR ''/'') (rev path)) of
        [] \<Rightarrow> []
      | c # cs \<Rightarrow> if c = CHR ''/'' then segments cs else segments (c # cs))"

definition route_matches :: "route \<Rightarrow> string \<Rightarrow> bool" where
  "route_matches r path =
     (case pattern r of None \<Rightarrow> True | Some p \<Rightarrow> inst p (path_segs path))"

section \<open>Guard and redirects\<close>

text \<open>\<open>AuthGuard\<close>, and what one match of the router shows.\<close>

datatype outcome = Shown page | GoTo string

definition AuthGuard :: "auth \<Rightarrow> outcome \<Rightarrow> outcome" where
  "AuthGuard s children = (if \<not> truthy (token s) then GoTo ''/login'' else children)"

definition render_route :: "auth \<Rightarrow> route \<Rightarrow> outcome" where
  "render_route s r =
     (let inner = (case element r of Page p \<Rightarrow> Shown p | Redirect u \<Rightarrow> GoTo u) in
      if guarded r then AuthGuard s inner else inner)"

text \<open>Following the redirects from a path; \<open>None\<close> when the budget of steps does not reach a page.\<close>

fun settle :: "(string \<Rightarrow> route) \<Rightarrow> auth \<Rightarrow> nat \<Rightarrow> string \<Rightarrow> page option" where
  "settle pick s 0 path = None"
| "settle pick s (Suc n) path =
     (case render_route s (pick path) of Shown p \<Rightarrow> Some p | GoTo u \<Rightarrow> settle pick s n u)"

text \<open>
  What the code relies on of the router: it always shows a route of the table or the splat route; and at
  an address of letters, digits, dashes, underscores and slashes, which it has nothing to decode in, it
  shows a route that matches, and the splat route only when none does.
\<close>

definition plain_path :: "string \<Rightarrow> bool" where
  "plain_path path \<longleftrightarrow> prefix ''/'' path \<and> set path \<subseteq> set (''/-_0123456789'' @ lowers @ uppers)"

definition router_ok :: "(string \<Rightarrow> route) \<Rightarrow> bool" where
  "router_ok pick \<longleftrightarrow>
     (\<forall>path. pick path \<in> insert splat_route (set app_routes)) \<and>
     (\<forall>path. plain_path path \<longrightarrow>
        (if \<exists>r \<in> set app_routes. route_matches r path
         then pick path \<in> set app_routes \<and> route_matches (pick path) path
         else pick path = splat_route))"

definition first_match :: "string \<Rightarrow> route" where
  "first_match path =
     (case List.find (\<lambda>r. route_matches r path) app_routes of Some r \<Rightarrow> r | None \<Rightarrow> splat_route)"

section \<open>The sidebar\<close>

record nav_item =
  nav_to :: string
  nav_label :: string

record nav_group =
  group_label :: string
  items :: "nav_item list"

definition nav :: "string \<Rightarrow> string \<Rightarrow> nav_item" where
  "nav t l = \<lparr>nav_to = t, nav_label = l\<rparr>"

definition NAV_GROUPS :: "nav_group list" where
  "NAV_GROUPS =
     [\<lparr>group_label = ''Monitor'', items =
        [nav ''/dashboard'' ''Overview'', nav ''/alerts'' ''Alerts'', nav ''/events'' ''Events'',
         nav ''/agents'' ''Agents'', nav ''/custom-dashboard'' ''Dashboard'']\<rparr>,
      \<lparr>group_label = ''Investigate'', items =
        [nav ''/cases'' ''Cases'', nav ''/threat-intel'' ''Threat Intel'', nav ''/darkweb'' ''Dark Web'',
         nav ''/forensics'' ''Forensics'', nav ''/soar'' ''SOAR'']\<rparr>,
      \<lparr>group_label = ''Platform'', items =
        [nav ''/engine'' ''Engine'', nav ''/connectors'' ''Connectors'', nav ''/settings'' ''Settings'']\<rparr>]"

definition nav_items :: "nav_item list" where
  "nav_items = concat (map items NAV_GROUPS)"

definition nav_active :: "string \<Rightarrow> nav_item \<Rightarrow> bool" where
  "nav_active pathname i = prefix (nav_to i) pathname"

definition currentPage :: "string \<Rightarrow> nav_item option" where
  "currentPage pathname = List.find (nav_active pathname) nav_items"

datatype layout_event = NavTo string | Logout | ToggleSidebar

text \<open>The events' handlers: \<open>navigate\<close> and \<open>handleLogout\<close>; \<open>open\<close> is the sidebar's state.\<close>

record layout_state =
  lay_store :: auth
  lay_path :: string
  sidebar_open :: bool

fun layout_step :: "layout_event \<Rightarrow> layout_state \<Rightarrow> layout_state" where
  "layout_step (NavTo t) s = s\<lparr>lay_path := t\<rparr>"
| "layout_step Logout s = s\<lparr>lay_store := clearAuth (lay_store s), lay_path := ''/login''\<rparr>"
| "layout_step ToggleSidebar s = s\<lparr>sidebar_open := \<not> sidebar_open s\<rparr>"

definition sidebar_view :: "layout_state \<Rightarrow> layout_event ui list" where
  "sidebar_view s =
     (let op = sidebar_open s in
      shown op [Txt ''SocBlitz'', Txt ''SOC Platform''] @
      concat (map (\<lambda>g. shown op [Txt (group_label g)] @
                map (\<lambda>i. Btn (nav_label i) False (NavTo (nav_to i))) (items g)) NAV_GROUPS) @
      (if op
       then [Btn ''Account security'' False (NavTo ''/account''),
             Val (jor (fullName (lay_store s)) (JStr ''Analyst'')), Val (role (lay_store s)),
             Btn ''Sign out'' False Logout]
       else [Btn ''Sign out'' False Logout]) @
      [Btn (if op then ''Collapse'' else ''Expand'') False ToggleSidebar])"

text \<open>The top bar: the page title and, when there are critical alerts, their number.\<close>

definition criticalCount :: "jsval \<Rightarrow> jsval" where
  "criticalCount stats = jcoalesce (opt_fld (opt_fld stats ''severity'') ''critical'') (JNum 0)"

definition topbar_view :: "jsval \<Rightarrow> layout_state \<Rightarrow> layout_event ui list" where
  "topbar_view stats s =
     [Txt (case currentPage (lay_path s) of Some i \<Rightarrow> nav_label i | None \<Rightarrow> ''Dashboard'')] @
     shown (js_positive (criticalCount stats))
       [Clickable (NavTo ''/alerts'') [Val (criticalCount stats), Txt '' critical'']] @
     [Txt ''Live'']"

section \<open>Routing lemmas\<close>

fun compat :: "seg list \<Rightarrow> seg list \<Rightarrow> bool" where
  "compat [] [] = True"
| "compat (Lit a # p) (Lit b # q) = (to_lower a = to_lower b \<and> compat p q)"
| "compat (Lit a # p) (Param b # q) = compat p q"
| "compat (Param a # p) (s # q) = compat p q"
| "compat _ _ = False"

lemma inst_compat: "inst p ws \<Longrightarrow> inst q ws \<Longrightarrow> compat p q"
proof (induction p ws arbitrary: q rule: inst.induct)
  case (2 l ps w ws)
  then show ?case by (cases q rule: inst.cases [where x = "(q, w # ws)" for q]) auto
next
  case (3 v ps w ws)
  then show ?case by (cases q rule: inst.cases [where x = "(q, w # ws)" for q]) auto
qed (auto elim: inst.elims)

definition same_or_apart :: "route \<Rightarrow> route \<Rightarrow> bool" where
  "same_or_apart r r' \<longleftrightarrow> r = r' \<or>
     (case pattern r of Some p \<Rightarrow> (case pattern r' of Some q \<Rightarrow> \<not> compat p q | None \<Rightarrow> False) | None \<Rightarrow> False)"

lemma same_or_apart_match:
  assumes "same_or_apart r r'" "route_matches r path" "route_matches r' path"
  shows "r = r'"
proof (rule ccontr)
  assume "r \<noteq> r'"
  with assms(1) obtain p q where "pattern r = Some p" "pattern r' = Some q" "\<not> compat p q"
    by (auto simp: same_or_apart_def split: option.splits)
  with assms(2,3) inst_compat show False by (auto simp: route_matches_def)
qed

lemma routes_apart: "list_all (\<lambda>r. list_all (same_or_apart r) app_routes) app_routes"
  by code_simp

lemma routes_unambiguous:
  assumes "r \<in> set app_routes" "r' \<in> set app_routes" "route_matches r path" "route_matches r' path"
  shows "r = r'"
proof -
  have "same_or_apart r r'"
    using routes_apart assms(1,2) unfolding list_all_iff by blast
  then show ?thesis using assms(3,4) by (rule same_or_apart_match)
qed

lemma router_ok_first_match: "router_ok first_match"
proof -
  have "first_match path \<in> insert splat_route (set app_routes)" for path
    by (auto simp: first_match_def dest: find_Some_in split: option.splits)
  moreover have "if \<exists>r \<in> set app_routes. route_matches r path
      then first_match path \<in> set app_routes \<and> route_matches (first_match path) path
      else first_match path = splat_route" for path
  proof (cases "List.find (\<lambda>r. route_matches r path) app_routes")
    case None
    then have "\<not> (\<exists>r \<in> set app_routes. route_matches r path)" by (auto simp: find_None_iff)
    with None show ?thesis by (simp add: first_match_def)
  next
    case (Some r)
    with find_Some_in [OF this] show ?thesis by (auto simp: first_match_def)
  qed
  ultimately show ?thesis by (simp add: router_ok_def)
qed

lemma pick_in_table: "router_ok pick \<Longrightarrow> pick path \<in> insert splat_route (set app_routes)"
  by (simp add: router_ok_def)

text \<open>At a plain address the router has no choice: one route of the table at most matches.\<close>

lemma pick_matches:
  assumes "router_ok pick" "r \<in> set app_routes" "route_matches r path" "plain_path path"
  shows "pick path = r"
proof -
  have "pick path \<in> set app_routes \<and> route_matches (pick path) path"
    using assms unfolding router_ok_def by meson
  then show ?thesis using routes_unambiguous assms(2,3) by blast
qed

lemma render_cases:
  assumes "r \<in> insert splat_route (set app_routes)"
  shows "render_route s r = GoTo ''/dashboard'' \<or> render_route s r = GoTo ''/login'' \<and> \<not> signed_in s \<or>
         (\<exists>p. render_route s r = Shown p \<and> (signed_in s \<or> p = LoginPage))"
  using assms
  by (auto simp: app_routes_def top_route_def child_route_def splat_route_def render_route_def
        AuthGuard_def signed_in_def)

definition login_route :: route where
  "login_route = top_route [Lit ''login''] (Page LoginPage)"

definition dashboard_route :: route where
  "dashboard_route = child_route [Lit ''dashboard''] (Page DashboardPage)"

lemma pick_login: "router_ok pick \<Longrightarrow> pick ''/login'' = login_route"
  by (erule pick_matches) (simp add: app_routes_def login_route_def, code_simp+)

lemma pick_dashboard: "router_ok pick \<Longrightarrow> pick ''/dashboard'' = dashboard_route"
  by (erule pick_matches) (simp add: app_routes_def dashboard_route_def, code_simp+)

lemma render_login [simp]: "render_route s login_route = Shown LoginPage"
  by (simp add: render_route_def login_route_def top_route_def)

lemma render_dashboard [simp]:
  "render_route s dashboard_route = (if signed_in s then Shown DashboardPage else GoTo ''/login'')"
  by (simp add: render_route_def dashboard_route_def child_route_def AuthGuard_def signed_in_def)

lemma settle_login: "router_ok pick \<Longrightarrow> settle pick s (Suc n) ''/login'' = Some LoginPage"
  by (simp add: pick_login)

lemma settle_dashboard:
  "router_ok pick \<Longrightarrow> settle pick s (Suc (Suc n)) ''/dashboard'' =
     Some (if signed_in s then DashboardPage else LoginPage)"
  by (simp add: pick_dashboard pick_login)

lemma settle_three:
  assumes "router_ok pick"
  shows "\<exists>p. settle pick s 3 path = Some p \<and> (signed_in s \<or> p = LoginPage)"
proof -
  have three: "settle pick s 3 path =
      (case render_route s (pick path) of Shown p \<Rightarrow> Some p | GoTo u \<Rightarrow> settle pick s (Suc (Suc 0)) u)"
    by (simp add: numeral_3_eq_3)
  from render_cases [OF pick_in_table [OF assms], of s path] show ?thesis
    using settle_dashboard [OF assms, of s 0] settle_login [OF assms, of s "Suc 0"]
    unfolding three by (auto split: if_splits)
qed

lemma settle_signed_out:
  "router_ok pick \<Longrightarrow> \<not> signed_in s \<Longrightarrow> settle pick s 3 path = Some LoginPage"
  using settle_three [of pick s path] by auto

section \<open>Sidebar lemmas\<close>

lemma nav_items_apart:
  "list_all (\<lambda>i. list_all (\<lambda>j. i = j \<or> \<not> prefix (nav_to i) (nav_to j)) nav_items) nav_items"
  by code_simp

lemma nav_active_unique:
  assumes "i \<in> set nav_items" "j \<in> set nav_items" "nav_active p i" "nav_active p j"
  shows "i = j"
proof -
  from assms(3,4) have "prefix (nav_to i) (nav_to j) \<or> prefix (nav_to j) (nav_to i)"
    unfolding nav_active_def by (rule prefix_same_cases)
  then show ?thesis using nav_items_apart assms(1,2) by (auto simp: list_all_iff)
qed

lemma currentPage_iff:
  "currentPage p = Some i \<longleftrightarrow> i \<in> set nav_items \<and> nav_active p i"
proof
  assume "currentPage p = Some i"
  then show "i \<in> set nav_items \<and> nav_active p i"
    unfolding currentPage_def by (rule find_Some_in)
next
  assume i: "i \<in> set nav_items \<and> nav_active p i"
  then have "currentPage p \<noteq> None" unfolding currentPage_def by (auto simp: find_None_iff)
  then obtain j where j: "currentPage p = Some j" by auto
  then have "j \<in> set nav_items \<and> nav_active p j" unfolding currentPage_def by (rule find_Some_in)
  with i j show "currentPage p = Some i" using nav_active_unique by blast
qed

definition nav_pages :: "page list" where
  "nav_pages = [DashboardPage, AlertsPage, EventsPage, AgentsPage, CustomDashboardPage, CasesPage,
     ThreatIntelPage, DarkWebPage, ForensicsPage, SoarPage, EnginePage, ConnectorsPage, SettingsPage]"

definition nav_shows :: "nav_item \<Rightarrow> page \<Rightarrow> bool" where
  "nav_shows i p \<longleftrightarrow> plain_path (nav_to i) \<and> list_ex (\<lambda>r. route_matches r (nav_to i) \<and> guarded r \<and> element r = Page p) app_routes"

lemma nav_targets: "list_all2 nav_shows nav_items nav_pages"
  by code_simp

lemma settle_guarded_page:
  assumes "router_ok pick" "signed_in s" "nav_shows i p"
  shows "settle pick s (Suc n) (nav_to i) = Some p"
proof -
  from assms(3) obtain r where r: "r \<in> set app_routes" "route_matches r (nav_to i)" "guarded r"
    "element r = Page p" "plain_path (nav_to i)"
    by (auto simp: nav_shows_def list_ex_iff)
  have "pick (nav_to i) = r" using pick_matches [OF assms(1) r(1,2,5)] .
  with r assms(2) show ?thesis by (simp add: render_route_def AuthGuard_def signed_in_def)
qed

section \<open>Properties\<close>

lemma settle_matched_page:
  assumes "router_ok pick" "signed_in s" "r \<in> set app_routes" "route_matches r path" "plain_path path" "element r = Page q"
  shows "settle pick s 3 path = Some q"
proof -
  have "pick path = r" using pick_matches [OF assms(1,3,4,5)] .
  with assms(2,6) show ?thesis
    by (simp add: numeral_3_eq_3 render_route_def AuthGuard_def signed_in_def Let_def)
qed

text \<open>C10. However the router resolves addresses, every one leads to a page after at most two redirects,
  and without a session that page is the sign-in page: no other page is ever rendered for a visitor
  whose token is missing. For a signed-in user an address of letters, digits, dashes, underscores and slashes that
  matches the route of a page shows this page, whatever its letter case and slashes at its end.\<close>

theorem guard_and_redirects:
  assumes "router_ok pick"
  shows "(\<exists>p. settle pick s 3 path = Some p \<and> (signed_in s \<or> p = LoginPage)) \<and>
    (\<forall>r \<in> set app_routes. \<forall>q. signed_in s \<and> plain_path path \<and> route_matches r path \<and> element r = Page q \<longrightarrow>
       settle pick s 3 path = Some q)"
  using settle_three [OF assms] settle_matched_page [OF assms] by blast

theorem guard_and_redirects_witness:
  "router_ok first_match \<and>
   (\<exists>p. settle first_match initAuth 3 ''/cases/42'' = Some p \<and> (signed_in initAuth \<or> p = LoginPage)) \<and>
   settle first_match (setAuth (JStr ''t'') JNull JNull JNull initAuth) 3 ''/Cases/42/'' = Some CaseDetailPage"
proof -
  let ?r = "child_route [Lit ''cases'', Param ''id''] (Page CaseDetailPage)"
  have r: "?r \<in> set app_routes" by (simp add: app_routes_def)
  have m: "plain_path ''/Cases/42/''" "route_matches ?r ''/Cases/42/''" by code_simp+
  have e: "element ?r = Page CaseDetailPage" "signed_in (setAuth (JStr ''t'') JNull JNull JNull initAuth)"
    by (simp_all add: child_route_def signed_in_def setAuth_def)
  show ?thesis
    using guard_and_redirects [OF router_ok_first_match, of initAuth "''/cases/42''"]
      guard_and_redirects [OF router_ok_first_match, of "setAuth (JStr ''t'') JNull JNull JNull initAuth" "''/Cases/42/''"]
      router_ok_first_match r m e by blast
qed

text \<open>The sidebar is consistent with the routes: for a signed-in user each entry shows a page of
  its own, and at every address at most one entry is highlighted, the one the page title shows.\<close>

theorem sidebar_consistent:
  assumes "router_ok pick" and "signed_in s"
  shows "map (\<lambda>i. settle pick s 1 (nav_to i)) nav_items = map Some nav_pages \<and> distinct nav_pages \<and>
    (\<forall>p i. i \<in> set nav_items \<and> nav_active p i \<longleftrightarrow> currentPage p = Some i)"
proof (intro conjI allI)
  have "list_all2 (\<lambda>i p. settle pick s (Suc 0) (nav_to i) = Some p) nav_items nav_pages"
    using nav_targets by (rule list_all2_mono) (rule settle_guarded_page [OF assms])
  then show "map (\<lambda>i. settle pick s 1 (nav_to i)) nav_items = map Some nav_pages"
    by (simp only: One_nat_def list.rel_eq [symmetric] list.rel_map)
  show "distinct nav_pages" by code_simp
  show "i \<in> set nav_items \<and> nav_active p i \<longleftrightarrow> currentPage p = Some i" for p i
    by (simp add: currentPage_iff)
qed

theorem sidebar_consistent_witness:
  "signed_in (setAuth (JStr ''t'') JNull JNull JNull initAuth) \<and>
   currentPage ''/cases/7'' = Some (nav ''/cases'' ''Cases'')"
  using sidebar_consistent [OF router_ok_first_match, of "setAuth (JStr ''t'') JNull JNull JNull initAuth"]
  by (simp add: currentPage_def nav_items_def NAV_GROUPS_def nav_active_def nav_def)

end
