(* ===== verification/Async.thy ===== *)
theory Async
  imports Ui
begin

text \<open>
  Pages as transition systems, and the contract of a busy flag. A page starts an API call from an
  event handler and learns its answer in a later event. Many pages set a flag before the call and
  reset it in \<open>finally\<close>, and disable their submit button while the flag is set; \<open>busy_flag\<close> and
  \<open>single_flight\<close> state what such a page promises and derive that calls never overlap.
\<close>

section \<open>Reachable states\<close>

inductive reach :: "('s \<Rightarrow> bool) \<Rightarrow> ('e \<Rightarrow> 's \<Rightarrow> bool) \<Rightarrow> ('e \<Rightarrow> 's \<Rightarrow> 's) \<Rightarrow> 's \<Rightarrow> bool"
  for start allowed step where
  reach_start: "start s \<Longrightarrow> reach start allowed step s"
| reach_step: "reach start allowed step s \<Longrightarrow> allowed e s \<Longrightarrow> reach start allowed step (step e s)"

lemma reach_invariant:
  assumes "reach start allowed step s"
    and "\<And>s. start s \<Longrightarrow> P s"
    and "\<And>s e. reach start allowed step s \<Longrightarrow> P s \<Longrightarrow> allowed e s \<Longrightarrow> P (step e s)"
  shows "P s"
  using assms(1) by (induction rule: reach.induct) (auto intro: assms(2,3))

text \<open>A run of events, and the check that each of them was possible when it happened.\<close>

fun run :: "('e \<Rightarrow> 's \<Rightarrow> 's) \<Rightarrow> 'e list \<Rightarrow> 's \<Rightarrow> 's" where
  "run step [] s = s"
| "run step (e # es) s = run step es (step e s)"

fun legal :: "('e \<Rightarrow> 's \<Rightarrow> bool) \<Rightarrow> ('e \<Rightarrow> 's \<Rightarrow> 's) \<Rightarrow> 'e list \<Rightarrow> 's \<Rightarrow> bool" where
  "legal allowed step [] s = True"
| "legal allowed step (e # es) s = (allowed e s \<and> legal allowed step es (step e s))"

lemma run_append: "run step (es @ fs) s = run step fs (run step es s)"
  by (induction es arbitrary: s) simp_all

lemma legal_append:
  "legal allowed step (es @ fs) s \<longleftrightarrow> legal allowed step es s \<and> legal allowed step fs (run step es s)"
  by (induction es arbitrary: s) simp_all

lemma legal_reach:
  "reach start allowed step s \<Longrightarrow> legal allowed step es s \<Longrightarrow> reach start allowed step (run step es s)"
  by (induction es arbitrary: s) (auto intro: reach_step)

section \<open>The busy flag\<close>

locale busy_flag =
  fixes start :: "'s \<Rightarrow> bool"
    and allowed :: "'e \<Rightarrow> 's \<Rightarrow> bool"
    and step :: "'e \<Rightarrow> 's \<Rightarrow> 's"
    and busy :: "'s \<Rightarrow> bool"
    and inflight :: "'s \<Rightarrow> nat"
    and launches_at :: "'e \<Rightarrow> 's \<Rightarrow> bool"
    and lands :: "'e \<Rightarrow> bool"
  assumes idle_at_start: "start s \<Longrightarrow> \<not> busy s \<and> inflight s = 0"
    and launch_at_law: "allowed e s \<Longrightarrow> launches_at e s \<Longrightarrow>
          \<not> busy s \<and> busy (step e s) \<and> inflight (step e s) = Suc (inflight s)"
    and land_at_law: "allowed e s \<Longrightarrow> lands e \<Longrightarrow>
          \<not> busy (step e s) \<and> Suc (inflight (step e s)) = inflight s"
    and quiet_at_law: "allowed e s \<Longrightarrow> \<not> launches_at e s \<Longrightarrow> \<not> lands e \<Longrightarrow>
          busy (step e s) = busy s \<and> inflight (step e s) = inflight s"
begin

lemma flag_exact_step:
  assumes "inflight s = (if busy s then 1 else 0)" "allowed e s"
  shows "inflight (step e s) = (if busy (step e s) then 1 else 0)"
proof -
  consider (launch) "launches_at e s" | (land) "lands e" | (quiet) "\<not> launches_at e s" "\<not> lands e" by blast
  then show ?thesis
  proof cases
    case launch
    with launch_at_law [OF assms(2)] assms(1) show ?thesis by simp
  next
    case land
    with land_at_law [OF assms(2)] assms(1) show ?thesis by (simp split: if_splits)
  next
    case quiet
    with quiet_at_law [OF assms(2)] assms(1) show ?thesis by simp
  qed
qed

text \<open>The flag is set exactly while a call is in flight, and there is never more than one.\<close>

lemma flag_exact: "reach start allowed step s \<Longrightarrow> inflight s = (if busy s then 1 else 0)"
  by (erule reach_invariant) (simp_all add: idle_at_start flag_exact_step)

lemma at_most_one: "reach start allowed step s \<Longrightarrow> inflight s \<le> 1"
  by (simp add: flag_exact)

lemma no_launch_in_flight: "reach start allowed step s \<Longrightarrow> 0 < inflight s \<Longrightarrow> launches_at e s \<Longrightarrow> \<not> allowed e s"
  using flag_exact launch_at_law by fastforce

end

text \<open>The usual case: which events start a call does not depend on the state.\<close>

locale single_flight =
  fixes start :: "'s \<Rightarrow> bool"
    and allowed :: "'e \<Rightarrow> 's \<Rightarrow> bool"
    and step :: "'e \<Rightarrow> 's \<Rightarrow> 's"
    and busy :: "'s \<Rightarrow> bool"
    and inflight :: "'s \<Rightarrow> nat"
    and launches :: "'e \<Rightarrow> bool"
    and lands :: "'e \<Rightarrow> bool"
  assumes start_idle: "start s \<Longrightarrow> \<not> busy s \<and> inflight s = 0"
    and launch_law: "allowed e s \<Longrightarrow> launches e \<Longrightarrow>
          \<not> busy s \<and> busy (step e s) \<and> inflight (step e s) = Suc (inflight s)"
    and land_law: "allowed e s \<Longrightarrow> lands e \<Longrightarrow>
          \<not> busy (step e s) \<and> Suc (inflight (step e s)) = inflight s"
    and quiet_law: "allowed e s \<Longrightarrow> \<not> launches e \<Longrightarrow> \<not> lands e \<Longrightarrow>
          busy (step e s) = busy s \<and> inflight (step e s) = inflight s"

sublocale single_flight < busy_flag start allowed step busy inflight "\<lambda>e s. launches e" lands
  using start_idle launch_law land_law quiet_law by unfold_locales auto

context single_flight
begin

lemma no_second_launch: "reach start allowed step s \<Longrightarrow> 0 < inflight s \<Longrightarrow> launches e \<Longrightarrow> \<not> allowed e s"
  by (rule no_launch_in_flight)

text \<open>Over a run, every call that was started has been answered or is the one in flight.\<close>

lemma launches_land:
  "legal allowed step es s \<Longrightarrow> (\<And>e. \<not> (launches e \<and> lands e)) \<Longrightarrow>
   inflight s + length (filter launches es) = length (filter lands es) + inflight (run step es s)"
proof (induction es arbitrary: s)
  case Nil
  then show ?case by simp
next
  case (Cons e es)
  from Cons.prems have a: "allowed e s" and l: "legal allowed step es (step e s)" by simp_all
  from Cons.IH [OF l Cons.prems(2)]
  have IH: "inflight (step e s) + length (filter launches es) =
      length (filter lands es) + inflight (run step es (step e s))" .
  from launch_law [OF a] land_law [OF a] quiet_law [OF a] IH Cons.prems(2) [of e] show ?case
    by (cases "launches e"; cases "lands e") auto
qed

end

section \<open>A search that shows its result\<close>

text \<open>
  A page with a search form and a result: starting a search takes the old result away, and apart from
  an answer nothing brings one. Then no result is shown while a search runs.
\<close>

locale search_form = busy_flag start allowed step busy inflight launches_at lands
  for start :: "'s \<Rightarrow> bool"
    and allowed :: "'e \<Rightarrow> 's \<Rightarrow> bool"
    and step :: "'e \<Rightarrow> 's \<Rightarrow> 's"
    and busy :: "'s \<Rightarrow> bool"
    and inflight :: "'s \<Rightarrow> nat"
    and launches_at :: "'e \<Rightarrow> 's \<Rightarrow> bool"
    and lands :: "'e \<Rightarrow> bool" +
  fixes found :: "'s \<Rightarrow> jsval"
  assumes launch_clears: "allowed e s \<Longrightarrow> launches_at e s \<Longrightarrow> found (step e s) = JNull"
    and quiet_keeps: "allowed e s \<Longrightarrow> \<not> launches_at e s \<Longrightarrow> \<not> lands e \<Longrightarrow>
          found (step e s) = found s \<or> found (step e s) = JNull"
begin

lemma nothing_shown_while_busy: "reach start allowed step s \<Longrightarrow> busy s \<longrightarrow> found s = JNull"
proof (erule reach_invariant)
  fix s e
  assume r: "busy s \<longrightarrow> found s = JNull" and a: "allowed e s"
  consider (launch) "launches_at e s" | (land) "lands e" | (quiet) "\<not> launches_at e s" "\<not> lands e" by blast
  then show "busy (step e s) \<longrightarrow> found (step e s) = JNull"
    by cases (use r launch_clears [OF a] land_at_law [OF a] quiet_at_law [OF a] quiet_keeps [OF a] in auto)
qed (simp add: idle_at_start)

end

text \<open>Removing the answered call from the calls in flight.\<close>

definition drop_nth :: "nat \<Rightarrow> 'a list \<Rightarrow> 'a list" where
  "drop_nth i xs = take i xs @ drop (Suc i) xs"

lemma length_drop_nth: "i < length xs \<Longrightarrow> Suc (length (drop_nth i xs)) = length xs"
  by (simp add: drop_nth_def)

lemma drop_nth_mem: "x \<in> set (drop_nth i xs) \<Longrightarrow> x \<in> set xs"
  by (auto simp: drop_nth_def dest: in_set_takeD in_set_dropD)

end
