(* ===== verification/Login.thy ===== *)
theory Login
  imports ApiClient Async
begin

text \<open>
  The sign-in page, \<open>frontend/src/pages/Login.tsx\<close>: its state, its handlers cut at the \<open>await\<close> of
  their API call, its error messages and its rendered view. A call in flight keeps the variables its
  handler closed over when the form was submitted.
\<close>

section \<open>State and handlers\<close>

datatype flight =
    LoginFlight string string
  | MfaFlight jsval string string

record login_state =
  email :: string
  password :: string
  loading :: bool
  mfaToken :: jsval
  mfa_code :: string
  session :: auth
  flights :: "flight list"

datatype login_event =
    TypeEmail string
  | TypePassword string
  | TypeCode string
  | SubmitLogin
  | SubmitMfa
  | BackToSignIn
  | Landed nat answer

definition init_login :: "auth \<Rightarrow> login_state" where
  "init_login st = \<lparr>email = [], password = [], loading = False, mfaToken = JNull, mfa_code = [],
     session = st, flights = []\<rparr>"

definition finishLogin :: "jsval \<Rightarrow> string \<Rightarrow> login_state \<Rightarrow> login_state \<times> api_call effect list" where
  "finishLogin data captured_email s =
     (s\<lparr>session := setAuth (opt_fld data ''access_token'') (opt_fld data ''user_id'')
                     (opt_fld data ''role'') (jor (opt_fld data ''full_name'') (JStr captured_email))
                     (session s)\<rparr>,
      [ToastOk ''Authenticated'', Navigate ''/dashboard''])"

text \<open>\<open>loginErrorMessage\<close>; the address is the one the form was submitted with.\<close>

definition loginErrorMessage :: "string \<Rightarrow> api_error \<Rightarrow> string" where
  "loginErrorMessage captured_email err =
     (if err_code err = JStr ''ECONNABORTED''
      then ''Server did not respond within 15 seconds '' @ mdash @
           '' it may still be starting up, try again shortly''
      else case err_response err of
        None \<Rightarrow> ''Cannot reach the server '' @ mdash @ '' check that the backend is running and try again''
      | Some (status, data) \<Rightarrow>
          let detail = (case opt_fld data ''detail'' of JStr d \<Rightarrow> d | _ \<Rightarrow> []) in
          if status = 401
          then (if detail \<noteq> [] then detail else ''Incorrect email or password'') @
               (if str_includes captured_email ''@'' then []
                else '' '' @ mdash @ '' sign in with your full email address'')
          else if detail \<noteq> [] then detail
          else if status = 422 then ''Enter both your email address and password''
          else if status = 429 then ''Too many attempts '' @ mdash @ '' wait a few minutes and try again''
          else if status \<ge> 500
          then ''Server error (HTTP '' @ int_dec status @ '') '' @ mdash @
               '' try again or check the backend logs''
          else ''Sign-in failed (HTTP '' @ int_dec status @ '')'')"

text \<open>What a property access on \<open>undefined\<close> or \<open>null\<close> throws: an error without code and response.\<close>

definition type_error :: api_error where
  "type_error = \<lparr>err_code = JUndef, err_url = JUndef, err_response = None\<rparr>"

text \<open>The continuation of \<open>handleLogin\<close> after its \<open>await\<close>, \<open>finally\<close> included.\<close>

definition login_landed ::
  "string \<Rightarrow> answer \<Rightarrow> login_state \<Rightarrow> login_state \<times> api_call effect list" where
  "login_landed captured_email a s =
     (let (s', es) = (case a of
        Answered data \<Rightarrow>
          if nullish data then (s, [ToastErr (JStr (loginErrorMessage captured_email type_error))])
          else if truthy (opt_fld data ''mfa_required'')
          then (s\<lparr>mfaToken := opt_fld data ''mfa_token'', mfa_code := []\<rparr>, [])
          else finishLogin data captured_email s
      | Failed err \<Rightarrow> (s, [ToastErr (JStr (loginErrorMessage captured_email err))]))
      in (s'\<lparr>loading := False\<rparr>, es))"

text \<open>
  The \<open>catch\<close> branch of \<open>handleMfaVerify\<close>: \<open>detail.includes\<close> is the substring test on a string and
  the element test on an array; on any other truthy value it throws, and nothing is shown.
\<close>

definition mfa_failed :: "api_error \<Rightarrow> login_state \<Rightarrow> login_state \<times> api_call effect list" where
  "mfa_failed err s =
     (let detail = jor (err_detail err) (JStr []);
          includes_hint = (case detail of
              JStr d \<Rightarrow> Some (str_includes d ''sign in again'')
            | JArr vs \<Rightarrow> Some (JStr ''sign in again'' \<in> set vs)
            | _ \<Rightarrow> None)
      in case includes_hint of
           None \<Rightarrow> (s, [])
         | Some True \<Rightarrow> (s\<lparr>mfaToken := JNull\<rparr>,
             [ToastErr (JStr (''Session expired '' @ mdash @ '' sign in again''))])
         | Some False \<Rightarrow> (s, [ToastErr (jor detail (JStr ''Invalid verification code''))]))"

definition mfa_landed ::
  "string \<Rightarrow> answer \<Rightarrow> login_state \<Rightarrow> login_state \<times> api_call effect list" where
  "mfa_landed captured_email a s =
     (let (s', es) = (case a of
        Answered data \<Rightarrow>
          if nullish data then mfa_failed type_error s else finishLogin data captured_email s
      | Failed err \<Rightarrow> mfa_failed err s)
      in (s'\<lparr>loading := False\<rparr>, es))"

fun flight_landed ::
  "flight \<Rightarrow> answer \<Rightarrow> login_state \<Rightarrow> login_state \<times> api_call effect list" where
  "flight_landed (LoginFlight em pw) a s = login_landed em a s"
| "flight_landed (MfaFlight tok c em) a s = mfa_landed em a s"

fun login_step :: "login_event \<Rightarrow> login_state \<Rightarrow> login_state \<times> api_call effect list" where
  "login_step (TypeEmail v) s = (s\<lparr>email := v\<rparr>, [])"
| "login_step (TypePassword v) s = (s\<lparr>password := v\<rparr>, [])"
| "login_step (TypeCode v) s = (s\<lparr>mfa_code := v\<rparr>, [])"
| "login_step SubmitLogin s =
     (s\<lparr>loading := True, flights := flights s @ [LoginFlight (email s) (password s)]\<rparr>,
      [Call (AuthCall (Login (email s) (password s)))])"
| "login_step SubmitMfa s =
     (s\<lparr>loading := True, flights := flights s @ [MfaFlight (mfaToken s) (mfa_code s) (email s)]\<rparr>,
      [Call (AuthCall (MfaVerify (mfaToken s) (mfa_code s)))])"
| "login_step BackToSignIn s = (s\<lparr>mfaToken := JNull, mfa_code := []\<rparr>, [])"
| "login_step (Landed i a) s =
     (if i < length (flights s)
      then flight_landed (flights s ! i) a (s\<lparr>flights := drop_nth i (flights s)\<rparr>)
      else (s, []))"

section \<open>The rendered page\<close>

record feed_line =
  feed_sev :: string
  feed_text :: string
  feed_time :: string

definition FEED_LINES :: "feed_line list" where
  "FEED_LINES = map (\<lambda>(s, x, t). \<lparr>feed_sev = s, feed_text = x, feed_time = t\<rparr>)
     [(''critical'', ''Lateral movement detected '' @ mdash @ '' DC01'', ''00:03''),
      (''high'', ''Brute force: 412 attempts on sshd'', ''00:07''),
      (''medium'', ''DNS over HTTPS traffic anomaly'', ''00:11''),
      (''critical'', ''Credential dump: lsass.exe access'', ''00:18''),
      (''high'', ''C2 beacon to 185.220.101.42:443'', ''00:22''),
      (''medium'', ''New scheduled task via GPO'', ''00:29''),
      (''low'', ''Port scan from 10.0.0.44'', ''00:35''),
      (''critical'', ''Ransomware extension pattern: .enc'', ''00:41''),
      (''high'', ''Mimikatz signature in memory'', ''00:48''),
      (''medium'', ''PowerShell obfuscation detected'', ''00:54''),
      (''low'', ''RDP connection from 192.168.2.19'', ''01:02''),
      (''high'', ''Exfil: 1.4 GB to external FTP'', ''01:09'')]"

definition feed_view :: "login_event ui list" where
  "feed_view =
     [Txt ''SocBlitz'', Txt ''Security Operations'', Txt ''Live threat feed'',
      Box (map (\<lambda>l. Box [Txt (feed_time l), Txt (feed_text l)]) FEED_LINES),
      Txt ''Unified SIEM, SOAR, and threat intelligence.'', Txt ''Built for teams that move at alert speed.'']"

definition mfa_view :: "login_state \<Rightarrow> login_event ui list" where
  "mfa_view s =
     [Txt ''Two-factor authentication'',
      Txt ''Enter the 6-digit code from your authenticator app, or a backup code'',
      Form SubmitMfa
        [Txt ''Verification code'',
         Field ''123456'' (mfa_code s) True TypeCode,
         Submit (if loading s then ''Verifying'' @ ellipsis else ''Verify'')
                (loading s \<or> \<not> trim (mfa_code s) \<noteq> []),
         Btn ''Back to sign in'' False BackToSignIn]]"

definition signin_view :: "login_state \<Rightarrow> login_event ui list" where
  "signin_view s =
     [Txt ''Sign in'', Txt ''Access your security operations centre'',
      Form SubmitLogin
        [Txt ''Email address'', Field ''analyst@yourorg.com'' (email s) True TypeEmail,
         Txt ''Password'', Field (concat (replicate 8 bullet)) (password s) True TypePassword,
         Submit (if loading s then ''Authenticating'' @ ellipsis else ''Sign in'') (loading s)]]"

definition login_view :: "login_state \<Rightarrow> login_event ui list" where
  "login_view s =
     feed_view @ [Txt ''SocBlitz''] @
     (if truthy (mfaToken s) then mfa_view s else signin_view s) @
     shown (\<not> truthy (mfaToken s))
       [Txt ''First sign-in'',
        Txt (''Use the admin email and password set via FIRST_ADMIN_EMAIL / FIRST_ADMIN_PASSWORD in your deployment'' @ rsquo @ ''s .env.'')] @
     [Txt (''SocBlitz v1.0.0 '' @ middot @ '' Open-source SOC platform'')]"

text \<open>
  Which events can happen: typing at any time, clicks and submissions the rendered page offers, and
  the answer of a call in flight.
\<close>

definition login_allowed :: "login_event \<Rightarrow> login_state \<Rightarrow> bool" where
  "login_allowed e s = (case e of
     TypeEmail _ \<Rightarrow> True | TypePassword _ \<Rightarrow> True | TypeCode _ \<Rightarrow> True
   | Landed i _ \<Rightarrow> i < length (flights s)
   | _ \<Rightarrow> e \<in> set (page_clicks (login_view s)))"

abbreviation login_next :: "login_event \<Rightarrow> login_state \<Rightarrow> login_state" where
  "login_next e s \<equiv> fst (login_step e s)"

definition login_start :: "login_state \<Rightarrow> bool" where
  "login_start s \<longleftrightarrow> s = init_login (session s)"

abbreviation login_reach :: "login_state \<Rightarrow> bool" where
  "login_reach \<equiv> reach login_start login_allowed login_next"


section \<open>What the page offers\<close>

lemma feed_clicks [simp]: "page_clicks feed_view = []"
  by (simp add: feed_view_def page_clicks_def)

lemma mfa_view_clicks [simp]:
  "page_clicks (mfa_view s) =
     (if \<not> loading s \<and> trim (mfa_code s) \<noteq> [] then [SubmitMfa] else []) @ [BackToSignIn]"
  by (auto simp: mfa_view_def submittable_def)

lemma signin_view_clicks [simp]:
  "page_clicks (signin_view s) =
     (if \<not> loading s \<and> email s \<noteq> [] \<and> password s \<noteq> [] then [SubmitLogin] else [])"
  by (auto simp: signin_view_def submittable_def)

lemma login_clicks:
  "page_clicks (login_view s) =
     (if truthy (mfaToken s)
      then (if \<not> loading s \<and> trim (mfa_code s) \<noteq> [] then [SubmitMfa] else []) @ [BackToSignIn]
      else (if \<not> loading s \<and> email s \<noteq> [] \<and> password s \<noteq> [] then [SubmitLogin] else []))"
  by (simp add: login_view_def)

lemma allowed_SubmitLogin:
  "login_allowed SubmitLogin s \<longleftrightarrow>
     \<not> truthy (mfaToken s) \<and> \<not> loading s \<and> email s \<noteq> [] \<and> password s \<noteq> []"
  by (auto simp: login_allowed_def login_clicks)

lemma allowed_SubmitMfa:
  "login_allowed SubmitMfa s \<longleftrightarrow> truthy (mfaToken s) \<and> \<not> loading s \<and> trim (mfa_code s) \<noteq> []"
  by (auto simp: login_allowed_def login_clicks)

lemma allowed_Landed: "login_allowed (Landed i a) s \<longleftrightarrow> i < length (flights s)"
  by (simp add: login_allowed_def)

lemmas login_allowed_simps = allowed_SubmitLogin allowed_SubmitMfa allowed_Landed

section \<open>The busy flag\<close>

lemma finishLogin_frame [simp]:
  "flights (fst (finishLogin d em s)) = flights s" "mfaToken (fst (finishLogin d em s)) = mfaToken s"
  "calls_of (snd (finishLogin d em s)) = []"
  by (simp_all add: finishLogin_def)

lemma mfa_failed_frame [simp]:
  "flights (fst (mfa_failed e s)) = flights s" "session (fst (mfa_failed e s)) = session s"
  "calls_of (snd (mfa_failed e s)) = []"
  by (auto simp: mfa_failed_def Let_def split: jsval.splits option.splits bool.splits)

lemma login_landed_frame [simp]:
  "\<not> loading (fst (login_landed em a s))" "flights (fst (login_landed em a s)) = flights s"
  "calls_of (snd (login_landed em a s)) = []"
  by (simp_all add: login_landed_def split_def Let_def split: answer.splits)

lemma mfa_landed_frame [simp]:
  "\<not> loading (fst (mfa_landed em a s))" "flights (fst (mfa_landed em a s)) = flights s"
  "calls_of (snd (mfa_landed em a s)) = []"
  by (simp_all add: mfa_landed_def split_def Let_def split: answer.splits)

lemma flight_landed_flag [simp]:
  "\<not> loading (fst (flight_landed f a s))" "flights (fst (flight_landed f a s)) = flights s"
  "calls_of (snd (flight_landed f a s)) = []"
  by (cases f; simp)+

fun launches_login :: "login_event \<Rightarrow> bool" where
  "launches_login SubmitLogin = True"
| "launches_login SubmitMfa = True"
| "launches_login _ = False"

fun lands_login :: "login_event \<Rightarrow> bool" where
  "lands_login (Landed _ _) = True"
| "lands_login _ = False"

interpretation signin: single_flight login_start login_allowed login_next loading
  "\<lambda>s. length (flights s)" launches_login lands_login
proof unfold_locales
  show "login_start s \<Longrightarrow> \<not> loading s \<and> length (flights s) = 0" for s
    unfolding login_start_def by (metis init_login_def list.size(3) login_state.select_convs(3,7))
  show "login_allowed e s \<Longrightarrow> launches_login e \<Longrightarrow>
      \<not> loading s \<and> loading (login_next e s) \<and>
      length (flights (login_next e s)) = Suc (length (flights s))" for e s
    by (cases e) (simp_all add: login_allowed_simps)
  show "login_allowed e s \<Longrightarrow> lands_login e \<Longrightarrow>
      \<not> loading (login_next e s) \<and> Suc (length (flights (login_next e s))) = length (flights s)" for e s
    by (cases e) (simp_all add: login_allowed_simps length_drop_nth)
  show "login_allowed e s \<Longrightarrow> \<not> launches_login e \<Longrightarrow> \<not> lands_login e \<Longrightarrow>
      loading (login_next e s) = loading s \<and> length (flights (login_next e s)) = length (flights s)" for e s
    by (cases e) simp_all
qed

text \<open>A verification call in flight was started with a token and a code.\<close>

fun flight_ok :: "flight \<Rightarrow> bool" where
  "flight_ok (LoginFlight em pw) = (em \<noteq> [] \<and> pw \<noteq> [])"
| "flight_ok (MfaFlight tok c em) = (truthy tok \<and> trim c \<noteq> [])"

lemma flights_ok_step:
  "\<forall>f \<in> set (flights s). flight_ok f \<Longrightarrow> login_allowed e s \<Longrightarrow> \<forall>f \<in> set (flights (login_next e s)). flight_ok f"
  by (cases e) (auto simp: login_allowed_simps dest: drop_nth_mem)

lemma flights_ok: "login_reach s \<Longrightarrow> f \<in> set (flights s) \<Longrightarrow> flight_ok f"
proof -
  assume r: "login_reach s" and f: "f \<in> set (flights s)"
  from r have "\<forall>f \<in> set (flights s). flight_ok f"
  proof (rule reach_invariant)
    fix s assume "login_start s"
    then have "length (flights s) = 0" using signin.start_idle by blast
    then show "\<forall>f \<in> set (flights s). flight_ok f" by simp
  qed (rule flights_ok_step)
  with f show ?thesis by blast
qed

lemma login_calls:
  "login_allowed e s \<Longrightarrow> c \<in> set (calls_of (snd (login_step e s))) \<Longrightarrow>
   launches_login e \<and>
   (c = AuthCall (Login (email s) (password s)) \<and> email s \<noteq> [] \<and> password s \<noteq> [] \<or>
    c = AuthCall (MfaVerify (mfaToken s) (mfa_code s)) \<and> truthy (mfaToken s) \<and> trim (mfa_code s) \<noteq> [])"
  by (cases e) (auto simp: login_allowed_simps)

section \<open>The session\<close>

lemma login_landed_session:
  "session (fst (login_landed em a s)) \<noteq> session s \<Longrightarrow>
   \<exists>d. a = Answered d \<and> \<not> nullish d \<and> \<not> truthy (opt_fld d ''mfa_required'') \<and>
       token (session (fst (login_landed em a s))) = opt_fld d ''access_token''"
  by (auto simp: login_landed_def finishLogin_def setAuth_def split_def Let_def split: answer.splits if_splits)

lemma mfa_landed_session:
  "session (fst (mfa_landed em a s)) \<noteq> session s \<Longrightarrow>
   \<exists>d. a = Answered d \<and> \<not> nullish d \<and>
       token (session (fst (mfa_landed em a s))) = opt_fld d ''access_token''"
  by (auto simp: mfa_landed_def finishLogin_def setAuth_def split_def Let_def split: answer.splits if_splits)

text \<open>Who may grant a session: a password answer without a challenge, or a verified second factor.\<close>

fun granted :: "flight \<Rightarrow> jsval \<Rightarrow> bool" where
  "granted (LoginFlight em pw) d = (\<not> nullish d \<and> \<not> truthy (opt_fld d ''mfa_required''))"
| "granted (MfaFlight tok c em) d = (\<not> nullish d \<and> truthy tok)"

section \<open>Properties\<close>

text \<open>C9. The sign-in page never has two calls under way, and the token it asserts to be present
  (\<open>mfaToken!\<close>) is present: whenever a reachable page starts a call, none is in flight, and the call
  is a sign-in with address and password filled in or a verification with a token and a code.\<close>

theorem sign_in_calls_guarded:
  assumes "login_reach s" and "login_allowed e s" and "c \<in> set (calls_of (snd (login_step e s)))"
  shows "flights s = [] \<and>
    (c = AuthCall (Login (email s) (password s)) \<and> email s \<noteq> [] \<and> password s \<noteq> [] \<or>
     c = AuthCall (MfaVerify (mfaToken s) (mfa_code s)) \<and> truthy (mfaToken s) \<and> trim (mfa_code s) \<noteq> [])"
proof -
  from login_calls [OF assms(2,3)] have l: "launches_login e" by blast
  with signin.no_second_launch [OF assms(1)] assms(2) have "flights s = []" by blast
  with login_calls [OF assms(2,3)] show ?thesis by blast
qed

definition typed_login :: login_state where
  "typed_login = (init_login initAuth)\<lparr>email := ''a@b.c'', password := ''pw''\<rparr>"

lemma typed_login_reach: "login_reach typed_login"
proof -
  have "login_reach (init_login initAuth)"
    by (rule reach_start) (simp add: login_start_def init_login_def)
  from legal_reach [OF this, of "[TypeEmail ''a@b.c'', TypePassword ''pw'']"]
  show ?thesis by (simp add: login_allowed_def typed_login_def init_login_def)
qed

lemma typed_login_submit: "login_allowed SubmitLogin typed_login"
  by (simp add: login_allowed_simps typed_login_def init_login_def)

theorem sign_in_calls_guarded_witness:
  "login_allowed SubmitLogin typed_login \<and> flights typed_login = [] \<and>
   calls_of (snd (login_step SubmitLogin typed_login)) = [AuthCall (Login ''a@b.c'' ''pw'')]"
  using sign_in_calls_guarded [OF typed_login_reach typed_login_submit,
      of "AuthCall (Login ''a@b.c'' ''pw'')"] typed_login_submit
  by (simp add: typed_login_def init_login_def)

text \<open>A session is only ever granted by the server: when an event changes the stored session, it
  is the answer to a call in flight, either to a sign-in that asks for no second factor or to a
  verification that was sent with a token, and the new token is that answer's \<open>access_token\<close>.\<close>

theorem session_granted_by_server:
  assumes "login_reach s" and "login_allowed e s" and "session (login_next e s) \<noteq> session s"
  shows "\<exists>i d. e = Landed i (Answered d) \<and> i < length (flights s) \<and> granted (flights s ! i) d \<and>
    token (session (login_next e s)) = opt_fld d ''access_token''"
proof (cases e)
  case (Landed i a)
  with assms(2) have i: "i < length (flights s)" by (simp add: login_allowed_simps)
  with assms(1) have ok: "flight_ok (flights s ! i)" using flights_ok nth_mem by blast
  let ?s = "s\<lparr>flights := drop_nth i (flights s)\<rparr>"
  have eq: "login_next e s = fst (flight_landed (flights s ! i) a ?s)" using Landed i by simp
  show ?thesis
  proof (cases "flights s ! i")
    case (LoginFlight em pw)
    with login_landed_session [of em a ?s] assms(3) eq Landed i show ?thesis by auto
  next
    case (MfaFlight tok c em)
    with mfa_landed_session [of em a ?s] assms(3) eq Landed i ok show ?thesis by auto
  qed
qed (use assms(3) in simp_all)

definition waiting_login :: login_state where
  "waiting_login = login_next SubmitLogin typed_login"

lemma waiting_login_reach: "login_reach waiting_login"
  unfolding waiting_login_def by (rule reach_step [OF typed_login_reach typed_login_submit])

definition token_answer :: answer where
  "token_answer = Answered (JObj [(''access_token'', JStr ''jwt'')])"

theorem session_granted_by_server_witness:
  "login_allowed (Landed 0 token_answer) waiting_login \<and>
   token (session (login_next (Landed 0 token_answer) waiting_login)) = JStr ''jwt''"
proof -
  have a: "login_allowed (Landed 0 token_answer) waiting_login"
    by (simp add: login_allowed_simps waiting_login_def typed_login_def)
  moreover have "session (login_next (Landed 0 token_answer) waiting_login) \<noteq> session waiting_login"
    by (simp add: waiting_login_def typed_login_def init_login_def token_answer_def login_landed_def
        finishLogin_def setAuth_def initAuth_def)
  ultimately show ?thesis
    using session_granted_by_server [OF waiting_login_reach a] by (auto simp: token_answer_def)
qed

text \<open>A failed sign-in always says something: the message is never empty, a text the server gives
  in \<open>detail\<close> is shown (with the hint about the full address appended exactly on a 401 for a name
  without an at-sign), and an answer without such a text gets a message of its own.\<close>

theorem login_error_shown:
  "loginErrorMessage em err \<noteq> [] \<and>
   (err_code err \<noteq> JStr ''ECONNABORTED'' \<longrightarrow> err_response err = Some (st, d) \<longrightarrow>
    opt_fld d ''detail'' = JStr t \<longrightarrow> t \<noteq> [] \<longrightarrow>
    loginErrorMessage em err =
      t @ (if st = 401 \<and> \<not> str_includes em ''@''
           then '' '' @ mdash @ '' sign in with your full email address'' else []))"
  by (auto simp: loginErrorMessage_def Let_def split: option.splits jsval.splits)

definition wrong_password :: api_error where
  "wrong_password = \<lparr>err_code = JStr ''ERR_BAD_REQUEST'', err_url = JStr ''/auth/login'',
     err_response = Some (401, JObj [(''detail'', JStr ''Incorrect email or password'')])\<rparr>"

theorem login_error_shown_witness:
  "loginErrorMessage ''a@b.c'' wrong_password = ''Incorrect email or password''"
  using login_error_shown [of "''a@b.c''" wrong_password 401
      "JObj [(''detail'', JStr ''Incorrect email or password'')]" "''Incorrect email or password''"]
  by (simp add: wrong_password_def)

text \<open>C26. No answer leaves the page stuck: after any answer, even one whose handling throws, the page
  is idle again, and it shows the password form exactly when no second factor is pending; a
  verification refused with the text "sign in again" always leads back to the password form.\<close>

theorem answer_unblocks:
  assumes "login_reach s" and "login_allowed (Landed i a) s"
  shows "\<not> loading (login_next (Landed i a) s) \<and> flights (login_next (Landed i a) s) = [] \<and>
    (BackToSignIn \<in> set (page_clicks (login_view (login_next (Landed i a) s))) \<longleftrightarrow>
       truthy (mfaToken (login_next (Landed i a) s))) \<and>
    (\<forall>tok c em err t. flights s ! i = MfaFlight tok c em \<longrightarrow> a = Failed err \<longrightarrow>
       err_detail err = JStr t \<longrightarrow> str_includes t ''sign in again'' \<longrightarrow>
       mfaToken (login_next (Landed i a) s) = JNull)"
proof (intro conjI allI impI)
  have l: "\<not> loading (login_next (Landed i a) s) \<and>
      Suc (length (flights (login_next (Landed i a) s))) = length (flights s)"
    using signin.land_law [OF assms(2)] by simp
  then show "\<not> loading (login_next (Landed i a) s)" by blast
  from l signin.at_most_one [OF assms(1)] have "length (flights (login_next (Landed i a) s)) = 0"
    by linarith
  then show "flights (login_next (Landed i a) s) = []" by (simp only: length_0_conv)
  show "BackToSignIn \<in> set (page_clicks (login_view (login_next (Landed i a) s))) \<longleftrightarrow>
       truthy (mfaToken (login_next (Landed i a) s))"
    by (auto simp: login_clicks)
next
  fix tok c em err t
  assume h: "flights s ! i = MfaFlight tok c em" "a = Failed err" "err_detail err = JStr t"
    "str_includes t ''sign in again''"
  then have "t \<noteq> []" by auto
  with h assms(2) show "mfaToken (login_next (Landed i a) s) = JNull"
    by (simp add: login_allowed_simps mfa_landed_def mfa_failed_def jor_def)
qed

theorem answer_unblocks_witness:
  "login_allowed (Landed 0 token_answer) waiting_login \<and>
   \<not> loading (login_next (Landed 0 token_answer) waiting_login)"
proof -
  have a: "login_allowed (Landed 0 token_answer) waiting_login"
    by (simp add: login_allowed_simps waiting_login_def typed_login_def)
  with answer_unblocks [OF waiting_login_reach a] show ?thesis by blast
qed

end
