(* ===== verification/Session.thy ===== *)
theory Session
  imports Login Routes
begin

text \<open>
  The life of a session across the application: the sign-in page, the guard, the layout's sign-out and
  the response interceptor composed the way the browser runs them, and the small machine they
  implement. The store outlives a page load, everything else does not. A call of a sign-in page that
  was left keeps running: its continuation still writes the store and navigates.
\<close>

section \<open>The composed application\<close>

record app =
  signin_page :: login_state
  address :: string
  orphans :: "flight list"

definition app_store :: "app \<Rightarrow> auth" where
  "app_store a = session (signin_page a)"

definition with_store :: "auth \<Rightarrow> app \<Rightarrow> app" where
  "with_store st a = a\<lparr>signin_page := (signin_page a)\<lparr>session := st\<rparr>\<rparr>"

text \<open>The address the redirects from \<open>u\<close> end at; two of them are enough.\<close>

fun final_path :: "(string \<Rightarrow> route) \<Rightarrow> auth \<Rightarrow> nat \<Rightarrow> string \<Rightarrow> string" where
  "final_path pick st 0 u = u"
| "final_path pick st (Suc n) u =
     (case render_route st (pick u) of Shown p \<Rightarrow> u | GoTo v \<Rightarrow> final_path pick st n v)"

text \<open>Loading an address: a fresh page over the persisted store.\<close>

definition page_load :: "(string \<Rightarrow> route) \<Rightarrow> auth \<Rightarrow> string \<Rightarrow> app" where
  "page_load pick st u = \<lparr>signin_page = init_login st, address = final_path pick st 3 u, orphans = []\<rparr>"

definition leave_page :: "app \<Rightarrow> app" where
  "leave_page a = a\<lparr>signin_page := init_login (app_store a), orphans := orphans a @ flights (signin_page a)\<rparr>"

text \<open>The router goes to an address: the sign-in page stays mounted only if that address shows it at once.\<close>

definition arrive :: "(string \<Rightarrow> route) \<Rightarrow> string \<Rightarrow> app \<Rightarrow> app" where
  "arrive pick u a =
     (let a' = a\<lparr>address := final_path pick (app_store a) 3 u\<rparr> in
      if render_route (app_store a) (pick u) = Shown LoginPage then a' else leave_page a')"

fun follow :: "(string \<Rightarrow> route) \<Rightarrow> api_call effect list \<Rightarrow> app \<Rightarrow> app" where
  "follow pick [] a = a"
| "follow pick (Navigate u # es) a = follow pick es (arrive pick u a)"
| "follow pick (e # es) a = follow pick es a"

text \<open>
  Every failed call passes the interceptor before its handler sees it; assigning the window's location
  loads that address.
\<close>

definition rejects :: "api_error \<Rightarrow> bool" where
  "rejects e \<longleftrightarrow> (case err_response e of Some (status, _) \<Rightarrow> status = 401 | None \<Rightarrow> False)
     \<and> \<not> is_auth_attempt (err_url_text e)"

definition intercepted :: "(string \<Rightarrow> route) \<Rightarrow> api_error \<Rightarrow> app \<Rightarrow> app" where
  "intercepted pick e a =
     (let w = fst (on_response_error e \<lparr>auth_store = app_store a, location = address a\<rparr>) in
      if rejects e then page_load pick (auth_store w) (location w) else a)"

definition before_handler :: "(string \<Rightarrow> route) \<Rightarrow> answer \<Rightarrow> app \<Rightarrow> app" where
  "before_handler pick ans a = (case ans of Failed err \<Rightarrow> intercepted pick err a | Answered d \<Rightarrow> a)"

datatype app_event =
    OnLogin login_event
  | OnOrphan nat answer
  | OnLayout layout_event
  | CallFails api_call api_error
  | Visit string
  | LoadPage string

definition layout_of :: "app \<Rightarrow> bool \<Rightarrow> layout_state" where
  "layout_of a op = \<lparr>lay_store = app_store a, lay_path = address a, sidebar_open = op\<rparr>"

definition on_login :: "(string \<Rightarrow> route) \<Rightarrow> login_event \<Rightarrow> app \<Rightarrow> app" where
  "on_login pick e a =
     (let a1 = (case e of Landed i ans \<Rightarrow> before_handler pick ans a | _ \<Rightarrow> a);
          r = login_step e (signin_page a1)
      in follow pick (snd r) (a1\<lparr>signin_page := fst r\<rparr>))"

definition on_orphan :: "(string \<Rightarrow> route) \<Rightarrow> nat \<Rightarrow> answer \<Rightarrow> app \<Rightarrow> app" where
  "on_orphan pick i ans a =
     (let a1 = before_handler pick ans a in
      if i < length (orphans a1)
      then let r = flight_landed (orphans a1 ! i) ans (init_login (app_store a1))
           in follow pick (snd r) (with_store (session (fst r)) (a1\<lparr>orphans := drop_nth i (orphans a1)\<rparr>))
      else a1)"

definition on_layout :: "(string \<Rightarrow> route) \<Rightarrow> layout_event \<Rightarrow> app \<Rightarrow> app" where
  "on_layout pick e a =
     (let l = layout_step e (layout_of a True) in arrive pick (lay_path l) (with_store (lay_store l) a))"

primrec app_step :: "(string \<Rightarrow> route) \<Rightarrow> app_event \<Rightarrow> app \<Rightarrow> app" where
  "app_step pick (OnLogin e) a = on_login pick e a"
| "app_step pick (OnOrphan i ans) a = on_orphan pick i ans a"
| "app_step pick (OnLayout e) a = on_layout pick e a"
| "app_step pick (CallFails c err) a = intercepted pick err a"
| "app_step pick (Visit u) a = arrive pick u a"
| "app_step pick (LoadPage u) a = page_load pick (app_store a) u"

text \<open>
  What can happen: events of the sign-in page while it is shown, clicks in the layout while another page
  is, answers to calls in flight, failures of any other call, and addresses entered at any time. An
  error carries the address of its request.
\<close>

fun flight_call :: "flight \<Rightarrow> api_call" where
  "flight_call (LoginFlight em pw) = AuthCall (Login em pw)"
| "flight_call (MfaFlight tok c em) = AuthCall (MfaVerify tok c)"

definition error_of :: "api_call \<Rightarrow> answer \<Rightarrow> bool" where
  "error_of c ans = (case ans of Failed err \<Rightarrow> err_url err = JStr (req_url (api_request c)) | Answered d \<Rightarrow> True)"

definition page_shown :: "(string \<Rightarrow> route) \<Rightarrow> app \<Rightarrow> page option" where
  "page_shown pick a = settle pick (app_store a) 3 (address a)"

definition app_allowed :: "(string \<Rightarrow> route) \<Rightarrow> app_event \<Rightarrow> app \<Rightarrow> bool" where
  "app_allowed pick e a = (case e of
     OnLogin le \<Rightarrow> page_shown pick a = Some LoginPage \<and> login_allowed le (signin_page a) \<and>
       (case le of Landed i ans \<Rightarrow> error_of (flight_call (flights (signin_page a) ! i)) ans | _ \<Rightarrow> True)
   | OnOrphan i ans \<Rightarrow> i < length (orphans a) \<and> error_of (flight_call (orphans a ! i)) ans
   | OnLayout le \<Rightarrow> page_shown pick a \<noteq> Some LoginPage \<and>
       (\<exists>op \<in> {True, False}. le \<in> set (page_clicks (sidebar_view (layout_of a op))))
   | CallFails c err \<Rightarrow> \<not> sign_in_call c \<and> slash_free (path_args c) \<and> error_of c (Failed err)
   | Visit u \<Rightarrow> True
   | LoadPage u \<Rightarrow> True)"

abbreviation app_reach :: "(string \<Rightarrow> route) \<Rightarrow> app \<Rightarrow> bool" where
  "app_reach pick \<equiv> reach (\<lambda>a. \<exists>st u. a = page_load pick st u) (app_allowed pick) (app_step pick)"

section \<open>The session machine\<close>

datatype session_spec = SignedOut | SignedIn jsval

datatype session_move = Quiet | Granted jsval | Ended

inductive session_moves :: "session_move \<Rightarrow> session_spec \<Rightarrow> session_spec \<Rightarrow> bool" where
  quiet: "session_moves Quiet s s"
| grant: "truthy t \<Longrightarrow> session_moves (Granted t) s (SignedIn t)"
| empty_grant: "\<not> truthy t \<Longrightarrow> session_moves (Granted t) s SignedOut"
| ended: "session_moves Ended s SignedOut"

inductive_simps session_moves_simps [simp]:
  "session_moves Quiet s s'" "session_moves (Granted t) s s'" "session_moves Ended s s'"

text \<open>What the application's state and events are in the machine.\<close>

definition session_of :: "app \<Rightarrow> session_spec" where
  "session_of a = (if truthy (token (app_store a)) then SignedIn (token (app_store a)) else SignedOut)"

fun grant_of :: "flight \<Rightarrow> answer \<Rightarrow> session_move" where
  "grant_of f (Answered d) = (if granted f d then Granted (opt_fld d ''access_token'') else Quiet)"
| "grant_of f (Failed err) = Quiet"

fun move_of :: "app_event \<Rightarrow> app \<Rightarrow> session_move" where
  "move_of (OnLogin (Landed i ans)) a = grant_of (flights (signin_page a) ! i) ans"
| "move_of (OnOrphan i ans) a = grant_of (orphans a ! i) ans"
| "move_of (OnLayout Logout) a = Ended"
| "move_of (CallFails c err) a = (case err_response err of Some (status, d) \<Rightarrow> if status = 401 then Ended else Quiet | None \<Rightarrow> Quiet)"
| "move_of e a = Quiet"

section \<open>Frames\<close>

lemma session_init [simp]: "session (init_login st) = st" "flights (init_login st) = []"
  by (simp_all add: init_login_def)

lemma app_store_simps [simp]:
  "app_store (page_load pick st u) = st" "app_store (arrive pick u a) = app_store a"
  "app_store (with_store st a) = st" "app_store (a\<lparr>address := u\<rparr>) = app_store a"
  "app_store (a\<lparr>orphans := fs\<rparr>) = app_store a" "app_store (a\<lparr>signin_page := p\<rparr>) = session p"
  by (simp_all add: app_store_def page_load_def arrive_def leave_page_def with_store_def Let_def)

lemma app_store_follow [simp]: "app_store (follow pick es a) = app_store a"
  by (induction pick es a rule: follow.induct) simp_all

definition calls_out :: "app \<Rightarrow> flight set" where
  "calls_out a = set (flights (signin_page a)) \<union> set (orphans a)"

lemma calls_out_simps [simp]:
  "calls_out (page_load pick st u) = {}" "calls_out (arrive pick u a) = calls_out a"
  "calls_out (with_store st a) = calls_out a"
  by (auto simp: calls_out_def page_load_def arrive_def leave_page_def with_store_def Let_def)

lemma calls_out_follow [simp]: "calls_out (follow pick es a) = calls_out a"
  by (induction pick es a rule: follow.induct) simp_all

lemma calls_out_drop: "calls_out (a\<lparr>orphans := drop_nth i (orphans a)\<rparr>) \<subseteq> calls_out a"
  by (auto simp: calls_out_def dest: drop_nth_mem)

lemma intercepted_eq:
  "intercepted pick e a = (if rejects e then page_load pick initAuth ''/login'' else a)"
  by (simp add: intercepted_def on_response_error_def rejects_def clearAuth_init Let_def)

lemma sign_in_not_rejected: "sign_in_call c \<Longrightarrow> error_of c (Failed err) \<Longrightarrow> \<not> rejects err"
  using sign_in_is_attempt [of c]
  by (auto simp: rejects_def error_of_def err_url_text_def jor_def is_auth_attempt_def)

lemma other_rejected:
  assumes "\<not> sign_in_call c" "slash_free (path_args c)" "error_of c (Failed err)"
  shows "rejects err \<longleftrightarrow> (\<exists>d. err_response err = Some (401, d))"
  using attempt_iff_sign_in [OF assms(2)] assms(1,3)
  by (auto simp: rejects_def error_of_def err_url_text_def jor_def is_auth_attempt_def split: option.splits)

lemma flight_call_sign_in [simp]: "sign_in_call (flight_call f)"
  by (cases f) (simp_all add: sign_in_call_def)

lemma before_handler_flight: "error_of (flight_call f) ans \<Longrightarrow> before_handler pick ans a = a"
  using sign_in_not_rejected [of "flight_call f"]
  by (auto simp: before_handler_def intercepted_eq split: answer.splits)

section \<open>Calls in flight\<close>

lemma calls_ok_step:
  assumes "\<forall>f \<in> calls_out a. flight_ok f" "app_allowed pick e a"
  shows "\<forall>f \<in> calls_out (app_step pick e a). flight_ok f"
proof (cases e)
  case (OnLogin le)
  let ?a1 = "case le of Landed i ans \<Rightarrow> before_handler pick ans a | _ \<Rightarrow> a"
  have a1: "?a1 = a" using assms(2) OnLogin
    by (auto simp: app_allowed_def before_handler_flight split: login_event.splits)
  have "\<forall>f \<in> set (flights (signin_page a)). flight_ok f" "login_allowed le (signin_page a)"
    using assms OnLogin by (auto simp: calls_out_def app_allowed_def)
  from flights_ok_step [OF this] show ?thesis
    using OnLogin a1 assms(1) by (auto simp: on_login_def Let_def calls_out_def [of "_\<lparr>signin_page := _\<rparr>"])
      (auto simp: calls_out_def)
next
  case (OnOrphan i ans)
  then have "before_handler pick ans a = a"
    using assms(2) before_handler_flight [of "orphans a ! i" ans] by (simp add: app_allowed_def)
  then show ?thesis using OnOrphan assms(1) calls_out_drop [where a = a and i = i]
    by (auto simp: on_orphan_def Let_def)
next
  case (CallFails c err)
  then show ?thesis using assms(1) by (simp add: intercepted_eq)
qed (use assms(1) in \<open>simp_all add: on_layout_def Let_def\<close>)

lemma calls_ok: "app_reach pick a \<Longrightarrow> f \<in> calls_out a \<Longrightarrow> flight_ok f"
proof -
  assume r: "app_reach pick a" and f: "f \<in> calls_out a"
  from r have "\<forall>f \<in> calls_out a. flight_ok f"
    by (rule reach_invariant) (use calls_ok_step in \<open>auto simp only: calls_out_simps\<close>)
  with f show ?thesis by blast
qed

section \<open>The simulation\<close>

lemma spec_of_store: "app_store a = app_store b \<Longrightarrow> session_of a = session_of b"
  by (simp add: session_of_def)

lemma flight_landed_token:
  assumes "flight_ok f"
  shows "(case grant_of f ans of
      Granted t \<Rightarrow> token (session (fst (flight_landed f ans s))) = t
    | _ \<Rightarrow> session (fst (flight_landed f ans s)) = session s)"
proof (cases f)
  case (LoginFlight em pw)
  then show ?thesis
    by (cases ans) (simp_all add: login_landed_def finishLogin_def setAuth_def)
next
  case (MfaFlight tok c em)
  then show ?thesis using assms
    by (cases ans) (simp_all add: mfa_landed_def finishLogin_def setAuth_def split_def Let_def)
qed

lemma quiet_login:
  assumes "\<forall>i ans. e \<noteq> Landed i ans"
  shows "session (fst (login_step e s)) = session s"
  using assms by (cases e) auto

lemma session_of_store:
  "app_store b = app_store a \<Longrightarrow> session_moves Quiet (session_of a) (session_of b)"
  by (simp add: session_of_def)

lemma grant_moves:
  assumes "case grant_of f ans of Granted t \<Rightarrow> token (app_store b) = t | _ \<Rightarrow> app_store b = app_store a"
  shows "session_moves (grant_of f ans) (session_of a) (session_of b)"
  using assms by (cases "grant_of f ans"; cases ans) (auto simp: session_of_def split: if_splits)

lemma login_moves:
  assumes "app_reach pick a" "app_allowed pick (OnLogin le) a"
  shows "session_moves (move_of (OnLogin le) a) (session_of a) (session_of (on_login pick le a))"
proof (cases le)
  case (Landed i ans)
  let ?f = "flights (signin_page a) ! i"
  have i: "i < length (flights (signin_page a))" and "error_of (flight_call ?f) ans"
    using assms(2) Landed by (simp_all add: app_allowed_def allowed_Landed)
  then have b: "before_handler pick ans a = a" by (simp add: before_handler_flight)
  have "flight_ok ?f" using calls_ok [OF assms(1)] i by (simp add: calls_out_def)
  let ?p = "(signin_page a)\<lparr>flights := drop_nth i (flights (signin_page a))\<rparr>"
  have "app_store (on_login pick le a) = session (fst (flight_landed ?f ans ?p))"
    using Landed i b by (simp add: on_login_def Let_def)
  moreover have "app_store a = session ?p" by (simp add: app_store_def)
  ultimately have "session_moves (grant_of ?f ans) (session_of a) (session_of (on_login pick le a))"
    using flight_landed_token [OF \<open>flight_ok ?f\<close>, of ans ?p]
    by (intro grant_moves) (cases "grant_of ?f ans"; simp)
  then show ?thesis using Landed by simp
qed (simp_all add: on_login_def Let_def session_of_def, simp_all add: app_store_def)

lemma orphan_moves:
  assumes "app_reach pick a" "app_allowed pick (OnOrphan i ans) a"
  shows "session_moves (move_of (OnOrphan i ans) a) (session_of a) (session_of (on_orphan pick i ans a))"
proof -
  let ?f = "orphans a ! i"
  have i: "i < length (orphans a)" and "error_of (flight_call ?f) ans"
    using assms(2) by (simp_all add: app_allowed_def)
  then have b: "before_handler pick ans a = a" by (simp add: before_handler_flight)
  have "flight_ok ?f" using calls_ok [OF assms(1)] i by (simp add: calls_out_def)
  let ?p = "init_login (app_store a)"
  have "app_store (on_orphan pick i ans a) = session (fst (flight_landed ?f ans ?p))"
    using i b by (simp add: on_orphan_def Let_def)
  then have "session_moves (grant_of ?f ans) (session_of a) (session_of (on_orphan pick i ans a))"
    using flight_landed_token [OF \<open>flight_ok ?f\<close>, of ans ?p]
    by (intro grant_moves) (cases "grant_of ?f ans"; simp)
  then show ?thesis by simp
qed

lemma layout_moves:
  "session_moves (move_of (OnLayout le) a) (session_of a) (session_of (on_layout pick le a))"
  by (cases le) (simp_all add: on_layout_def Let_def layout_of_def session_of_def clearAuth_def)

lemma failure_moves:
  assumes "app_allowed pick (CallFails c err) a"
  shows "session_moves (move_of (CallFails c err) a) (session_of a) (session_of (intercepted pick err a))"
  using assms other_rejected [of c err]
  by (auto simp: app_allowed_def intercepted_eq session_of_def initAuth_def split: option.splits)

lemma app_simulates:
  assumes "app_reach pick a" "app_allowed pick e a"
  shows "session_moves (move_of e a) (session_of a) (session_of (app_step pick e a))"
proof (cases e)
  case (OnLogin le) then show ?thesis using login_moves assms by simp
next
  case (OnOrphan i ans) then show ?thesis using orphan_moves assms by simp
next
  case (OnLayout le) then show ?thesis using layout_moves by simp
next
  case (CallFails c err) then show ?thesis using failure_moves assms by simp
qed (simp_all add: session_of_def)

lemma grant_follows:
  assumes "grant_of f ans = Granted t"
  shows "\<exists>s'. flight_landed f ans s = (s', [ToastOk ''Authenticated'', Navigate ''/dashboard''])"
proof (cases f)
  case (LoginFlight em pw)
  then show ?thesis using assms
    by (cases ans) (auto simp: login_landed_def finishLogin_def split: if_splits)
next
  case (MfaFlight tok c em)
  then show ?thesis using assms
    by (cases ans) (auto simp: mfa_landed_def finishLogin_def split: if_splits)
qed

lemma grant_navigates:
  assumes "app_reach pick a" "app_allowed pick e a" "move_of e a = Granted t"
  shows "\<exists>c. app_step pick e a = arrive pick ''/dashboard'' c"
proof -
  consider i ans where "e = OnLogin (Landed i ans)" | i ans where "e = OnOrphan i ans"
    using assms(3) by (cases "(e, a)" rule: move_of.cases) (auto split: option.splits if_splits)
  then show ?thesis
  proof cases
    case 1
    let ?f = "flights (signin_page a) ! i"
    have i: "i < length (flights (signin_page a))" and g: "grant_of ?f ans = Granted t"
      and b: "before_handler pick ans a = a"
      using assms(2,3) 1 before_handler_flight [of ?f ans] by (simp_all add: app_allowed_def allowed_Landed)
    from grant_follows [OF g] obtain s' where
      "flight_landed ?f ans ((signin_page a)\<lparr>flights := drop_nth i (flights (signin_page a))\<rparr>) =
        (s', [ToastOk ''Authenticated'', Navigate ''/dashboard''])" by blast
    then show ?thesis using 1 i b by (auto simp: on_login_def Let_def)
  next
    case 2
    let ?f = "orphans a ! i"
    have i: "i < length (orphans a)" and g: "grant_of ?f ans = Granted t" and b: "before_handler pick ans a = a"
      using assms(2,3) 2 before_handler_flight [of ?f ans] by (simp_all add: app_allowed_def)
    from grant_follows [OF g] obtain s' where
      "flight_landed ?f ans (init_login (app_store a)) = (s', [ToastOk ''Authenticated'', Navigate ''/dashboard''])"
      by blast
    then show ?thesis using 2 i b by (auto simp: on_orphan_def Let_def)
  qed
qed

section \<open>Histories\<close>

lemma moves_keep:
  "session_moves m s (SignedIn t) \<Longrightarrow> m = Granted t \<and> truthy t \<or> m = Quiet \<and> s = SignedIn t"
  by (cases m) auto

text \<open>Whoever is signed in was granted that token, and nothing happened to the session since.\<close>

lemma origin:
  assumes "reach start allowed step s" "spec_of s = SignedOut"
    and "\<And>s e. reach start allowed step s \<Longrightarrow> allowed e s \<Longrightarrow> session_moves (move e s) (spec_of s) (spec_of (step e s))"
    and "legal allowed step es s" "spec_of (run step es s) = SignedIn t"
  shows "\<exists>es1 e es2. es = es1 @ e # es2 \<and> move e (run step es1 s) = Granted t \<and> truthy t \<and>
    (\<forall>es3 e' es4. es2 = es3 @ e' # es4 \<longrightarrow> move e' (run step (es1 @ e # es3) s) = Quiet)"
  using assms(4,5)
proof (induction es rule: rev_induct)
  case Nil
  with assms(2) show ?case by simp
next
  case (snoc e es)
  have l: "legal allowed step es s" "allowed e (run step es s)" using snoc.prems(1) by (simp_all add: legal_append)
  let ?u = "run step es s"
  have "session_moves (move e ?u) (spec_of ?u) (SignedIn t)"
    using assms(3) [OF legal_reach [OF assms(1) l(1)] l(2)] snoc.prems(2) by (simp add: run_append)
  then consider "move e ?u = Granted t" "truthy t" | "move e ?u = Quiet" "spec_of ?u = SignedIn t"
    using moves_keep by blast
  then show ?case
  proof cases
    case 1
    then show ?thesis by (intro exI [of _ es] exI [of _ e] exI [of _ "[]"]) simp
  next
    case 2
    from snoc.IH [OF l(1) 2(2)] obtain es1 e1 es2 where *: "es = es1 @ e1 # es2"
      "move e1 (run step es1 s) = Granted t" "truthy t"
      "\<forall>es3 e' es4. es2 = es3 @ e' # es4 \<longrightarrow> move e' (run step (es1 @ e1 # es3) s) = Quiet" by blast
    have "move e' (run step (es1 @ e1 # es3) s) = Quiet" if "es2 @ [e] = es3 @ e' # es4" for es3 e' es4
    proof (cases es4 rule: rev_cases)
      case Nil
      with that have "es3 = es2" "e' = e" by simp_all
      with * 2(1) show ?thesis by simp
    next
      case (snoc es5 x)
      with that have "es2 = es3 @ e' # es5" by simp
      with *(4) show ?thesis by blast
    qed
    with * show ?thesis by (intro exI [of _ es1] exI [of _ e1] exI [of _ "es2 @ [e]"]) simp
  qed
qed

section \<open>Properties\<close>

text \<open>C1. The application implements the session machine: from every reachable state, whatever happens, the
  stored session moves as that machine does, whose only moves are the grant of the token in the answer
  to an accepted sign-in, the end by sign-out or by a 401 answer to another call, and nothing.\<close>

theorem app_refines_session:
  assumes "app_reach pick a" "app_allowed pick e a"
  shows "session_moves (move_of e a) (session_of a) (session_of (app_step pick e a))"
  using assms by (rule app_simulates)

text \<open>A history: sign in with a password, get a token.\<close>

definition signing_in :: "app_event list" where
  "signing_in = [OnLogin (TypeEmail ''a@b.c''), OnLogin (TypePassword ''pw''), OnLogin SubmitLogin]"

abbreviation waiting_app :: app where
  "waiting_app \<equiv> run (app_step first_match) signing_in (page_load first_match initAuth ''/login'')"

lemma waiting_app_parts:
  "app_store waiting_app = initAuth" "flights (signin_page waiting_app) = [LoginFlight ''a@b.c'' ''pw'']"
  by (simp_all add: signing_in_def on_login_def page_load_def init_login_def) (simp_all add: app_store_def)

lemma signing_in_legal:
  "legal (app_allowed first_match) (app_step first_match) signing_in (page_load first_match initAuth ''/login'')"
proof -
  have shown: "page_shown first_match a = Some LoginPage" if "app_store a = initAuth" for a
    using settle_signed_out [OF router_ok_first_match, of "app_store a"] that by (simp add: page_shown_def)
  show ?thesis
    by (simp add: signing_in_def app_allowed_def shown on_login_def page_load_def app_store_def login_allowed_simps)
      (simp add: login_allowed_def init_login_def)
qed

lemma token_lands:
  "app_allowed first_match (OnLogin (Landed 0 token_answer)) waiting_app"
  using settle_signed_out [OF router_ok_first_match, of initAuth]
  by (simp add: app_allowed_def page_shown_def waiting_app_parts allowed_Landed error_of_def token_answer_def)

lemma token_granted:
  "move_of (OnLogin (Landed 0 token_answer)) waiting_app = Granted (JStr ''jwt'')"
  by (simp add: waiting_app_parts token_answer_def)

lemma waiting_app_reach: "app_reach first_match waiting_app"
  by (rule legal_reach [OF _ signing_in_legal]) (rule reach_start, blast)

theorem app_refines_session_witness:
  "session_of (app_step first_match (OnLogin (Landed 0 token_answer)) waiting_app) = SignedIn (JStr ''jwt'')"
  using app_refines_session [OF waiting_app_reach token_lands] token_granted by simp

text \<open>C3. Nobody is signed in without a grant: in every history that starts signed out and ends signed in
  there is an answer that granted exactly the token now stored, from a sign-in without a challenge or a
  verified second factor, and since then neither a sign-out nor a rejected call nor another grant.\<close>

theorem session_has_origin:
  assumes "legal (app_allowed pick) (app_step pick) es (page_load pick initAuth u)"
    and "truthy (token (app_store (run (app_step pick) es (page_load pick initAuth u))))"
  shows "\<exists>es1 e es2. es = es1 @ e # es2 \<and>
    move_of e (run (app_step pick) es1 (page_load pick initAuth u)) =
      Granted (token (app_store (run (app_step pick) es (page_load pick initAuth u)))) \<and>
    (\<forall>es3 e' es4. es2 = es3 @ e' # es4 \<longrightarrow>
       move_of e' (run (app_step pick) (es1 @ e # es3) (page_load pick initAuth u)) = Quiet)"
proof -
  let ?a = "page_load pick initAuth u"
  have r: "app_reach pick ?a" by (rule reach_start) blast
  have s: "session_of ?a = SignedOut" by (simp add: session_of_def initAuth_def)
  have "session_of (run (app_step pick) es ?a) = SignedIn (token (app_store (run (app_step pick) es ?a)))"
    using assms(2) by (simp add: session_of_def)
  from origin [where spec_of = session_of and move = move_of, OF r s app_simulates assms(1) this]
  show ?thesis by blast
qed

lemma granted_token:
  "token (app_store (app_step first_match (OnLogin (Landed 0 token_answer)) waiting_app)) = JStr ''jwt''"
  using app_simulates [OF waiting_app_reach token_lands] token_granted
  by (simp add: session_of_def split: if_splits)

theorem session_has_origin_witness:
  "\<exists>es1 e es2. signing_in @ [OnLogin (Landed 0 token_answer)] = es1 @ e # es2 \<and>
    move_of e (run (app_step first_match) es1 (page_load first_match initAuth ''/login'')) = Granted (JStr ''jwt'')"
proof -
  let ?es = "signing_in @ [OnLogin (Landed 0 token_answer)]"
  have l: "legal (app_allowed first_match) (app_step first_match) ?es (page_load first_match initAuth ''/login'')"
    using signing_in_legal token_lands by (simp add: legal_append)
  have t: "token (app_store (run (app_step first_match) ?es (page_load first_match initAuth ''/login''))) = JStr ''jwt''"
    using granted_token by (simp add: run_append)
  from session_has_origin [OF l] t show ?thesis by (simp only: t) force
qed

text \<open>Signing in leads to the overview: when an accepted sign-in or verification answers with a token,
  wherever the visitor was, and also when the page that asked had been left, the application ends at
  the overview page, signed in, with no sign-in form left behind.\<close>

theorem grant_opens_dashboard:
  assumes "router_ok pick" "app_reach pick a" "app_allowed pick e a"
    and "move_of e a = Granted t" "truthy t" "b = app_step pick e a"
  shows "page_shown pick b = Some DashboardPage \<and> session_of b = SignedIn t \<and>
    signin_page b = init_login (app_store b)"
proof -
  have s: "session_of b = SignedIn t"
    using app_simulates [OF assms(2,3)] assms(4-6) by simp
  then have st: "signed_in (app_store b)" by (simp add: session_of_def signed_in_def split: if_splits)
  obtain c where b: "b = arrive pick ''/dashboard'' c"
    using grant_navigates [OF assms(2-4)] assms(6) by blast
  have "signed_in (app_store c)" using st b by simp
  then have r: "render_route (app_store c) (pick ''/dashboard'') = Shown DashboardPage"
    using pick_dashboard [OF assms(1)] by (simp add: render_dashboard)
  then have "final_path pick (app_store c) 3 ''/dashboard'' = ''/dashboard''" by (simp add: numeral_3_eq_3)
  with r have "address b = ''/dashboard''" "signin_page b = init_login (app_store b)"
    by (simp_all add: b arrive_def leave_page_def Let_def app_store_def)
  then show ?thesis using s st settle_dashboard [OF assms(1), of "app_store b" 1]
    by (simp add: page_shown_def numeral_3_eq_3)
qed

theorem grant_opens_dashboard_witness:
  "page_shown first_match (app_step first_match (OnLogin (Landed 0 token_answer)) waiting_app) = Some DashboardPage"
  using grant_opens_dashboard [OF router_ok_first_match waiting_app_reach token_lands token_granted _ refl] by simp

end
