(* ===== verification/TimeRange.thy ===== *)
theory TimeRange
  imports Ui
begin

text \<open>
  The time-range selection of \<open>frontend/src/components/TimeRangeFilter.tsx\<close>, with the part of
  JavaScript's \<open>Date\<close> it uses. Time values are milliseconds since the epoch. \<open>toISOString\<close> is written
  out; how the browser reads the text of a \<open>datetime-local\<close> input depends on the user's time zone, so
  \<open>new Date(text)\<close> is the parameter \<open>parse\<close>, with \<open>None\<close> for an invalid date.
\<close>

section \<open>Calendar dates\<close>

text \<open>The proleptic Gregorian date of a day number, counting years from March.\<close>

definition year_of_era :: "int \<Rightarrow> int \<times> int" where
  "year_of_era doe =
     (let c = min 3 (doe div 36524); r1 = doe - 36524 * c; q = r1 div 1461; r2 = r1 - 1461 * q;
          n = min 3 (r2 div 365)
      in (100 * c + 4 * q + n, r2 - 365 * n))"

definition civil :: "int \<Rightarrow> int \<times> int \<times> int" where
  "civil day =
     (let z = day + 719468; era = z div 146097; (yoe, doy) = year_of_era (z mod 146097);
          mp = (5 * doy + 2) div 153;
          d = doy - (153 * mp + 2) div 5 + 1;
          m = (if mp < 10 then mp + 3 else mp - 9);
          y = yoe + era * 400 + (if m \<le> 2 then 1 else 0)
      in (y, m, d))"

definition day_number :: "int \<Rightarrow> int \<Rightarrow> int \<Rightarrow> int" where
  "day_number y m d =
     (let y' = (if m \<le> 2 then y - 1 else y); era = y' div 400; yoe = y' mod 400;
          mp = (if m > 2 then m - 3 else m + 9);
          doy = (153 * mp + 2) div 5 + d - 1;
          doe = yoe * 365 + yoe div 4 - yoe div 100 + doy
      in era * 146097 + doe - 719468)"

lemma year_of_era_bounds:
  assumes doe: "0 \<le> doe" "doe < 146097" and yd: "year_of_era doe = (yoe, doy)"
  shows "0 \<le> yoe" "yoe < 400" "0 \<le> doy" "doy \<le> 365"
    "yoe * 365 + yoe div 4 - yoe div 100 + doy = doe"
proof -
  define c where "c = min 3 (doe div 36524)"
  define r1 where "r1 = doe - 36524 * c"
  define q where "q = r1 div 1461"
  define r2 where "r2 = r1 - 1461 * q"
  define n where "n = min 3 (r2 div 365)"
  from yd have y: "yoe = 100 * c + 4 * q + n" and d: "doy = r2 - 365 * n"
    by (simp_all add: year_of_era_def Let_def c_def r1_def q_def r2_def n_def)
  have "0 \<le> doe div 36524" "36524 * (doe div 36524) \<le> doe" "doe < 36524 * (doe div 36524) + 36524"
    using doe by auto
  then have c: "0 \<le> c" "c \<le> 3" "0 \<le> r1" "r1 \<le> 36524"
    using doe unfolding c_def r1_def by auto
  have q: "1461 * q \<le> r1" "r1 < 1461 * q + 1461" unfolding q_def by auto
  then have q': "0 \<le> q" "q \<le> 24" "0 \<le> r2" "r2 \<le> 1460" using c unfolding r2_def by auto
  have "365 * (r2 div 365) \<le> r2" "r2 < 365 * (r2 div 365) + 365" by auto
  then have n: "0 \<le> n" "n \<le> 3" "0 \<le> doy" "doy \<le> 365" using q' unfolding n_def d by auto
  from c q' n show "0 \<le> yoe" "yoe < 400" unfolding y by auto
  from n show "0 \<le> doy" "doy \<le> 365" by auto
  have "yoe div 4 = 25 * c + q" "yoe div 100 = c" using c q' n unfolding y by auto
  then show "yoe * 365 + yoe div 4 - yoe div 100 + doy = doe"
    unfolding y d r2_def r1_def by simp
qed

lemma month_bounds:
  fixes doy mp e :: int
  assumes "0 \<le> doy" "doy \<le> 365"
  defines "mp \<equiv> (5 * doy + 2) div 153"
  defines "e \<equiv> (153 * mp + 2) div 5"
  shows "0 \<le> mp" "mp \<le> 11" "1 \<le> doy - e + 1" "doy - e + 1 \<le> 31"
proof -
  have m: "153 * mp \<le> 5 * doy + 2" "5 * doy + 2 < 153 * mp + 153" unfolding mp_def by auto
  have e: "5 * e \<le> 153 * mp + 2" "153 * mp + 2 < 5 * e + 5" unfolding e_def by auto
  show "0 \<le> mp" "mp \<le> 11" using m assms(1,2) by auto
  show "1 \<le> doy - e + 1" "doy - e + 1 \<le> 31" using m e by auto
qed

text \<open>The date of a day names that day, with a month from 1 to 12 and a day from 1 to 31.\<close>

lemma day_number_civil:
  assumes "civil day = (y, m, d)"
  shows "day_number y m d = day" "1 \<le> m" "m \<le> 12" "1 \<le> d" "d \<le> 31"
proof -
  define z where "z = day + 719468"
  define era where "era = z div 146097"
  define doe where "doe = z mod 146097"
  obtain yoe doy where yd: "year_of_era doe = (yoe, doy)" by fastforce
  define mp where "mp = (5 * doy + 2) div 153"
  have doe: "0 \<le> doe" "doe < 146097" by (simp_all add: doe_def)
  note yb = year_of_era_bounds [OF doe yd]
  note mb = month_bounds [OF yb(3,4), folded mp_def]
  have z: "era * 146097 + doe = z" by (simp add: era_def doe_def)
  from assms yd have ymd: "m = (if mp < 10 then mp + 3 else mp - 9)"
    "d = doy - (153 * mp + 2) div 5 + 1" "y = yoe + era * 400 + (if m \<le> 2 then 1 else 0)"
    by (auto simp: civil_def Let_def z_def era_def doe_def mp_def)
  show "1 \<le> m" "m \<le> 12" using ymd(1) mb(1,2) by auto
  show "1 \<le> d" "d \<le> 31" using ymd(2) mb(3,4) by auto
  have mp: "(if m > 2 then m - 3 else m + 9) = mp" using ymd(1) mb(1,2) by auto
  have y': "(if m \<le> 2 then y - 1 else y) = yoe + era * 400" using ymd(3) by auto
  have era': "(yoe + era * 400) div 400 = era" "(yoe + era * 400) mod 400 = yoe"
    using yb(1,2) by simp_all
  have "day_number y m d = era * 146097 + (yoe * 365 + yoe div 4 - yoe div 100 + ((153 * mp + 2) div 5 + d - 1)) - 719468"
    unfolding day_number_def Let_def y' mp era' by simp
  also have "\<dots> = era * 146097 + (yoe * 365 + yoe div 4 - yoe div 100 + doy) - 719468"
    using ymd(2) by simp
  also have "\<dots> = day" using z yb(5) by (simp add: z_def)
  finally show "day_number y m d = day" .
qed

section \<open>ISO 8601 texts\<close>

text \<open>Decimal digits padded to a width, and the number a text of digits denotes.\<close>

fun pad :: "nat \<Rightarrow> int \<Rightarrow> string" where
  "pad 0 n = []"
| "pad (Suc w) n = pad w (n div 10) @ [''0123456789'' ! nat (n mod 10)]"

definition digit_val :: "char \<Rightarrow> int" where
  "digit_val c = (case map_of (zip ''0123456789'' [0..9]) c of Some v \<Rightarrow> v | None \<Rightarrow> 0)"

definition number :: "string \<Rightarrow> int" where
  "number s = foldl (\<lambda>a c. 10 * a + digit_val c) 0 s"

lemma length_pad [simp]: "length (pad w n) = w"
  by (induction w arbitrary: n) auto

lemma digit_val_nth: "0 \<le> i \<Longrightarrow> i < 10 \<Longrightarrow> digit_val (''0123456789'' ! nat i) = i"
proof -
  assume "0 \<le> i" "i < 10"
  then have "i = 0 \<or> i = 1 \<or> i = 2 \<or> i = 3 \<or> i = 4 \<or> i = 5 \<or> i = 6 \<or> i = 7 \<or> i = 8 \<or> i = 9"
    by presburger
  then show ?thesis by (auto simp: digit_val_def upto_rec_numeral upto.simps)
qed

lemma number_pad: "number (pad w n) = n mod 10 ^ w"
proof (induction w arbitrary: n)
  case 0
  then show ?case by (simp add: number_def)
next
  case (Suc w)
  have "number (pad (Suc w) n) = 10 * number (pad w (n div 10)) + digit_val (''0123456789'' ! nat (n mod 10))"
    by (simp add: number_def del: nth_Cons_numeral)
  also have "\<dots> = 10 * (n div 10 mod 10 ^ w) + n mod 10"
    using Suc.IH digit_val_nth [of "n mod 10"] by simp
  also have "\<dots> = n mod 10 ^ Suc w"
    by (simp add: zmod_zmult2_eq)
  finally show ?case .
qed

definition iso_year :: "int \<Rightarrow> string" where
  "iso_year y = (if 0 \<le> y \<and> y \<le> 9999 then pad 4 y
                 else (if y < 0 then CHR ''-'' else CHR ''+'') # pad 6 \<bar>y\<bar>)"

text \<open>\<open>toISOString\<close>: \<open>None\<close> is the \<open>RangeError\<close> beyond 100 million days from the epoch.\<close>

definition toISOString :: "int \<Rightarrow> string option" where
  "toISOString t =
     (if \<bar>t\<bar> > 8640000000000000 then None
      else let (y, m, d) = civil (t div 86400000); r = t mod 86400000 in
        Some (iso_year y @ ''-'' @ pad 2 m @ ''-'' @ pad 2 d @ ''T'' @
              pad 2 (r div 3600000) @ '':'' @ pad 2 (r div 60000 mod 60) @ '':'' @
              pad 2 (r div 1000 mod 60) @ ''.'' @ pad 3 (r mod 1000) @ ''Z''))"

text \<open>Reading such a text back (four-digit years).\<close>

definition field_at :: "nat \<Rightarrow> nat \<Rightarrow> string \<Rightarrow> int" where
  "field_at i w s = number (take w (drop i s))"

definition from_iso :: "string \<Rightarrow> int" where
  "from_iso s =
     day_number (field_at 0 4 s) (field_at 5 2 s) (field_at 8 2 s) * 86400000 +
     field_at 11 2 s * 3600000 + field_at 14 2 s * 60000 + field_at 17 2 s * 1000 + field_at 20 3 s"

lemma field_at_pad:
  assumes "length pre = i"
  shows "field_at i w (pre @ pad w n @ post) = n mod 10 ^ w"
  using assms by (simp add: field_at_def number_pad)

lemma clock_split:
  fixes r :: int
  assumes "0 \<le> r" "r < 86400000"
  shows "r div 3600000 * 3600000 + r div 60000 mod 60 * 60000 + r div 1000 mod 60 * 1000 + r mod 1000 = r"
    "0 \<le> r div 3600000" "r div 3600000 < 24"
proof -
  have a: "r div 1000 = r div 60000 * 60 + r div 1000 mod 60"
    and b: "r div 60000 = r div 3600000 * 60 + r div 60000 mod 60"
    using zdiv_zmult2_eq [of 60 r 1000] zdiv_zmult2_eq [of 60 r 60000]
    by (simp_all add: mult_div_mod_eq mult.commute)
  have c: "r = r div 1000 * 1000 + r mod 1000" by simp
  show "r div 3600000 * 3600000 + r div 60000 mod 60 * 60000 + r div 1000 mod 60 * 1000 + r mod 1000 = r"
    using a b c by linarith
  show "0 \<le> r div 3600000" "r div 3600000 < 24" using assms by auto
qed

lemma from_iso_toISOString:
  assumes t: "toISOString t = Some s" and y: "0 \<le> fst (civil (t div 86400000))"
    "fst (civil (t div 86400000)) \<le> 9999"
  shows "from_iso s = t"
proof -
  obtain yy m d where c: "civil (t div 86400000) = (yy, m, d)" by (cases "civil (t div 86400000)")
  define r where "r = t mod 86400000"
  have r: "0 \<le> r" "r < 86400000" by (simp_all add: r_def)
  have s: "s = pad 4 yy @ ''-'' @ pad 2 m @ ''-'' @ pad 2 d @ ''T'' @ pad 2 (r div 3600000) @ '':'' @
      pad 2 (r div 60000 mod 60) @ '':'' @ pad 2 (r div 1000 mod 60) @ ''.'' @ pad 3 (r mod 1000) @ ''Z''"
    using t y c by (simp add: toISOString_def iso_year_def r_def Let_def split: if_splits)
  note dn = day_number_civil [OF c]
  have "field_at 0 4 s = yy mod 10 ^ 4" 
    using field_at_pad [of "[]" 0 4 yy] unfolding s by simp
  then have f0: "field_at 0 4 s = yy" using y c by simp
  have "field_at 5 2 s = m mod 10 ^ 2"
    using field_at_pad [of "pad 4 yy @ ''-''" 5 2 m] unfolding s by simp
  then have f5: "field_at 5 2 s = m" using dn by simp
  have "field_at 8 2 s = d mod 10 ^ 2"
    using field_at_pad [of "pad 4 yy @ ''-'' @ pad 2 m @ ''-''" 8 2 d] unfolding s by simp
  then have f8: "field_at 8 2 s = d" using dn by simp
  let ?date = "pad 4 yy @ ''-'' @ pad 2 m @ ''-'' @ pad 2 d @ ''T''"
  have "field_at 11 2 s = r div 3600000 mod 10 ^ 2"
    using field_at_pad [of ?date 11 2 "r div 3600000"] unfolding s by simp
  then have f11: "field_at 11 2 s = r div 3600000"
    using clock_split(2,3) [OF r] mod_pos_pos_trivial [of "r div 3600000" 100] by simp
  have "field_at 14 2 s = r div 60000 mod 60 mod 10 ^ 2"
    using field_at_pad [of "?date @ pad 2 (r div 3600000) @ '':''" 14 2] unfolding s by simp
  then have f14: "field_at 14 2 s = r div 60000 mod 60"
    using mod_pos_pos_trivial [of "r div 60000 mod 60" 100] by simp
  have "field_at 17 2 s = r div 1000 mod 60 mod 10 ^ 2"
    using field_at_pad [of "?date @ pad 2 (r div 3600000) @ '':'' @ pad 2 (r div 60000 mod 60) @ '':''" 17 2]
    unfolding s by simp
  then have f17: "field_at 17 2 s = r div 1000 mod 60"
    using mod_pos_pos_trivial [of "r div 1000 mod 60" 100] by simp
  have "field_at 20 3 s = r mod 1000 mod 10 ^ 3"
    using field_at_pad [of "?date @ pad 2 (r div 3600000) @ '':'' @ pad 2 (r div 60000 mod 60) @ '':'' @
        pad 2 (r div 1000 mod 60) @ ''.''" 20 3] unfolding s by simp
  then have f20: "field_at 20 3 s = r mod 1000" by simp
  have "from_iso s = t div 86400000 * 86400000 +
      (r div 3600000 * 3600000 + r div 60000 mod 60 * 60000 + r div 1000 mod 60 * 1000 + r mod 1000)"
    unfolding from_iso_def f0 f5 f8 f11 f14 f17 f20 dn(1) by simp
  also have "\<dots> = t" using clock_split(1) [OF r] by (simp add: r_def)
  finally show ?thesis .
qed


section \<open>The component\<close>

record TimeRange =
  preset :: string
  range_start :: jsval
  range_end :: jsval

definition DEFAULT_RANGE :: TimeRange where
  "DEFAULT_RANGE = \<lparr>preset = ''24h'', range_start = JUndef, range_end = JUndef\<rparr>"

record Preset =
  preset_value :: string
  preset_label :: string
  preset_hours :: "int option"

definition PRESETS :: "Preset list" where
  "PRESETS = map (\<lambda>(v, l, h). \<lparr>preset_value = v, preset_label = l, preset_hours = h\<rparr>)
     [(''1h'', ''Last hour'', Some 1),
      (''6h'', ''Last 6 hours'', Some 6),
      (''24h'', ''Last 24 hours'', Some 24),
      (''7d'', ''Last 7 days'', Some 168),
      (''30d'', ''Last 30 days'', Some 720),
      (''custom'', ''Custom range'', None)]"

text \<open>\<open>PRESETS.find((x) => x.value === r.preset)?.hours ?? 24\<close>\<close>

definition range_hours :: "string \<Rightarrow> int" where
  "range_hours p =
     (case List.find (\<lambda>x. preset_value x = p) PRESETS of
        Some x \<Rightarrow> (case preset_hours x of Some h \<Rightarrow> h | None \<Rightarrow> 24)
      | None \<Rightarrow> 24)"

text \<open>One bound of a custom range: nothing when the text is empty, \<open>None\<close> when \<open>toISOString\<close> throws.\<close>

definition custom_bound :: "(string \<Rightarrow> int option) \<Rightarrow> string \<Rightarrow> jsval \<Rightarrow> row option" where
  "custom_bound parse k v =
     (if \<not> truthy v then Some []
      else (case Option.bind (parse (js_string v)) toISOString of
              None \<Rightarrow> None | Some s \<Rightarrow> Some [(k, JStr s)]))"

definition rangeToParams :: "(string \<Rightarrow> int option) \<Rightarrow> int \<Rightarrow> TimeRange \<Rightarrow> row option" where
  "rangeToParams parse now r =
     (if preset r = ''custom''
      then (case custom_bound parse ''start'' (range_start r) of
              None \<Rightarrow> None
            | Some p \<Rightarrow> (case custom_bound parse ''end'' (range_end r) of
                 None \<Rightarrow> None | Some q \<Rightarrow> Some (p @ q)))
      else (case toISOString (now - range_hours (preset r) * 3600000) of
              None \<Rightarrow> None | Some s \<Rightarrow> Some [(''start'', JStr s)]))"

text \<open>The control: each change hands the parent the old range with one member replaced.\<close>

definition TimeRangeFilter :: "TimeRange \<Rightarrow> TimeRange ui list" where
  "TimeRangeFilter v =
     [Select (preset v) (map (\<lambda>p. (preset_value p, preset_label p)) PRESETS)
        (\<lambda>x. v\<lparr>preset := x\<rparr>)] @
     shown (preset v = ''custom'')
       [Field ''start'' (js_string (jcoalesce (range_start v) (JStr []))) False
          (\<lambda>x. v\<lparr>range_start := JStr x\<rparr>),
        Txt ''to'',
        Field ''end'' (js_string (jcoalesce (range_end v) (JStr []))) False
          (\<lambda>x. v\<lparr>range_end := JStr x\<rparr>)]"

lemma range_hours_eq:
  "range_hours p = (if p = ''1h'' then 1 else if p = ''6h'' then 6 else if p = ''7d'' then 168
     else if p = ''30d'' then 720 else 24)"
  by (simp add: range_hours_def PRESETS_def)

lemma range_hours_bounds: "1 \<le> range_hours p \<and> range_hours p \<le> 720"
  by (simp add: range_hours_eq)

lemma era_four_digit:
  assumes "0 \<le> t" "t \<le> 253402300799999"
  shows "0 \<le> fst (civil (t div 86400000))" "fst (civil (t div 86400000)) \<le> 9999"
proof -
  define z where "z = t div 86400000 + 719468"
  obtain yoe doy where yd: "year_of_era (z mod 146097) = (yoe, doy)" by fastforce
  note yb = year_of_era_bounds [OF _ _ yd]
  have z: "719468 \<le> z" "z \<le> 3652364" using assms unfolding z_def by auto
  have e: "z = 146097 * (z div 146097) + z mod 146097" "0 \<le> z mod 146097" "z mod 146097 < 146097" by auto
  have era: "4 \<le> z div 146097" "z div 146097 \<le> 24" using z by auto
  define mp where "mp = (5 * doy + 2) div 153"
  have y: "fst (civil (t div 86400000)) = yoe + z div 146097 * 400 + (if (if mp < 10 then mp + 3 else mp - 9) \<le> 2 then 1 else 0)"
    by (simp add: civil_def Let_def z_def [symmetric] yd mp_def)
  show "0 \<le> fst (civil (t div 86400000))" using yb(1) e era unfolding y by auto
  show "fst (civil (t div 86400000)) \<le> 9999"
  proof (cases "z div 146097 = 24 \<and> yoe = 399")
    case False
    then show ?thesis using yb(2) e era unfolding y by auto
  next
    case True
    then have "146097 * 24 + (yoe * 365 + yoe div 4 - yoe div 100 + doy) \<le> 3652364"
      using yb(5) e z by simp
    then have "doy \<le> 305" using True by simp
    then have "mp < 10" unfolding mp_def by auto
    moreover have "0 \<le> mp" using yb(3) e unfolding mp_def by auto
    ultimately show ?thesis using True unfolding y by auto
  qed
qed

lemma from_iso_range:
  assumes "0 \<le> t" "t \<le> 253402300799999" "toISOString t = Some s"
  shows "from_iso s = t"
  using from_iso_toISOString [OF assms(3)] era_four_digit [OF assms(1,2)] by simp

lemma toISOString_defined: "\<bar>t\<bar> \<le> 8640000000000000 \<Longrightarrow> \<exists>s. toISOString t = Some s"
  by (cases "civil (t div 86400000)") (simp add: toISOString_def Let_def)

lemma fld_custom_bound:
  assumes "custom_bound parse k v = Some p"
  shows "fld (p @ q) k = (if truthy v then fld p k else fld q k)"
    "k' \<noteq> k \<Longrightarrow> fld (p @ q) k' = fld q k'"
    "truthy v \<Longrightarrow> \<exists>t s. parse (js_string v) = Some t \<and> toISOString t = Some s \<and> fld p k = JStr s"
    "\<not> truthy v \<Longrightarrow> fld p k' = JUndef"
  using assms by (auto simp: custom_bound_def split: option.splits if_splits Option.bind_splits)

lemma default_range_params: "\<exists>p. rangeToParams parse 1700000000000 DEFAULT_RANGE = Some p"
  using toISOString_defined [of 1699913600000] by (auto simp: rangeToParams_def DEFAULT_RANGE_def range_hours_eq)

section \<open>Properties\<close>

text \<open>C33. A relative preset resolves against the current clock to exactly one parameter, \<open>start\<close>, and
  reading that ISO text back gives the instant the preset names: one, 6, 24, 168 or 720 hours before
  now for the presets of an hour, 6 hours, a day, a week and 30 days, and a day before now for a value that is
  not listed. It always lies before now, and \<open>end\<close> is left open. The clock is taken to be between
  31 January 1970 and the end of the year 9999, so that the instant has a year of four digits.\<close>

theorem relative_range_start:
  assumes "preset r \<noteq> ''custom''" and "2592000000 \<le> now" and "now \<le> 253402300799999"
  shows "\<exists>s. rangeToParams parse now r = Some [(''start'', JStr s)] \<and>
    from_iso s = now - 3600000 *
      (if preset r = ''1h'' then 1 else if preset r = ''6h'' then 6 else if preset r = ''7d'' then 168
       else if preset r = ''30d'' then 720 else 24) \<and>
    from_iso s < now"
proof -
  let ?t = "now - range_hours (preset r) * 3600000"
  have t: "0 \<le> ?t" "?t \<le> 253402300799999" "?t < now"
    using range_hours_bounds [of "preset r"] assms(2,3) by auto
  then obtain s where s: "toISOString ?t = Some s" using toISOString_defined [of ?t] by auto
  then have "rangeToParams parse now r = Some [(''start'', JStr s)]" using assms(1) by (simp add: rangeToParams_def)
  then show ?thesis
    using t(3) from_iso_range [OF t(1,2) s] by (intro exI [of _ s]) (simp add: range_hours_eq)
qed

theorem relative_range_start_witness:
  "\<exists>s. rangeToParams (\<lambda>_. None) 1700000000000 (DEFAULT_RANGE\<lparr>preset := ''7d''\<rparr>) = Some [(''start'', JStr s)] \<and>
     from_iso s = 1699395200000"
  using relative_range_start [of "DEFAULT_RANGE\<lparr>preset := ''7d''\<rparr>" 1700000000000 "\<lambda>_. None"]
  by simp blast

text \<open>C34. A custom range sends exactly the bounds that were entered: a bound is a parameter when its
  text is not empty, with the ISO text of the instant the browser reads from it, and is absent
  otherwise; the clock plays no part. The call throws exactly when an entered text is no valid date.\<close>

theorem custom_range_exact:
  assumes "preset r = ''custom''"
  shows "(case rangeToParams parse now r of
      None \<Rightarrow> (\<exists>v \<in> {range_start r, range_end r}. truthy v \<and>
                 Option.bind (parse (js_string v)) toISOString = None)
    | Some p \<Rightarrow> rangeToParams parse now' r = Some p \<and>
        (\<forall>(k, v) \<in> {(''start'', range_start r), (''end'', range_end r)}.
           if truthy v
           then \<exists>t s. parse (js_string v) = Some t \<and> toISOString t = Some s \<and> fld p k = JStr s
           else fld p k = JUndef))"
proof (cases "custom_bound parse ''start'' (range_start r)")
  case None
  then show ?thesis using assms
    by (auto simp: rangeToParams_def custom_bound_def split: option.splits if_splits)
next
  case p: (Some p)
  show ?thesis
  proof (cases "custom_bound parse ''end'' (range_end r)")
    case None
    with p show ?thesis using assms
      by (auto simp: rangeToParams_def custom_bound_def [of _ "''end''"] split: option.splits if_splits)
  next
    case q: (Some q)
    have "fld q ''start'' = JUndef"
      using q by (auto simp: custom_bound_def split: option.splits if_splits)
    then show ?thesis
      using assms p q fld_custom_bound [OF p] fld_custom_bound [OF q]
      by (auto simp: rangeToParams_def)
  qed
qed

theorem custom_range_exact_witness:
  "rangeToParams (\<lambda>_. Some 0) 5 \<lparr>preset = ''custom'', range_start = JStr ''1970-01-01T00:00'', range_end = JUndef\<rparr> =
     Some [(''start'', JStr ''1970-01-01T00:00:00.000Z'')]"
proof -
  let ?r = "\<lparr>preset = ''custom'', range_start = JStr ''1970-01-01T00:00'', range_end = JUndef\<rparr>"
  have iso: "toISOString 0 = Some ''1970-01-01T00:00:00.000Z''" by code_simp
  show ?thesis
    using custom_range_exact [of ?r "\<lambda>_. Some 0" 5 6] iso
    by (simp add: rangeToParams_def custom_bound_def)
qed

end
