(* ===== verification/Connectors.thy ===== *)
theory Connectors
  imports Complex_Main ApiClient
begin

text \<open>
  Connector display metadata, \<open>frontend/src/lib/connectors.ts\<close>, and the connectors page,
  \<open>frontend/src/pages/Connectors.tsx\<close>: health summary, connection tests and the inline edit form.
\<close>

section \<open>Metadata\<close>

record ConnectorMeta =
  meta_label :: string
  meta_desc :: string
  meta_docs :: string
  meta_category :: string

definition CONNECTOR_META :: "(string \<times> ConnectorMeta) list" where
  "CONNECTOR_META = map (\<lambda>(k, l, d, u, c).
       (k, \<lparr>meta_label = l, meta_desc = d, meta_docs = u, meta_category = c\<rparr>))
     [(''wazuh_manager'', ''SocBlitz Engine'', ''Detection engine '' @ mdash @ '' agent management, rules, FIM'', ''https://documentation.wazuh.com'', ''SIEM''),
      (''wazuh_indexer'', ''SocBlitz Store'', ''ClickHouse '' @ mdash @ '' alert and vulnerability data'', ''https://clickhouse.com/docs'', ''SIEM''),
      (''velociraptor'', ''SocBlitz Forensics'', ''Endpoint forensics and artifact collection'', ''https://docs.velociraptor.app'', ''DFIR''),
      (''misp'', ''SocBlitz Threat Intel'', ''Threat intelligence '' @ mdash @ '' IOCs and events'', ''https://www.misp-project.org'', ''Intel''),
      (''shuffle'', ''Shuffle SOAR'', ''Security orchestration and automation'', ''https://shuffler.io/docs'', ''SOAR''),
      (''thehive'', ''TheHive'', ''Case management and investigation'', ''https://docs.strangebee.com'', ''IR''),
      (''virustotal'', ''VirusTotal'', ''Multi-engine IOC reputation service'', ''https://developers.virustotal.com'', ''Intel''),
      (''crowdstrike'', ''CrowdStrike'', ''EDR '' @ mdash @ '' endpoint detection and isolation'', ''https://falcon.crowdstrike.com'', ''EDR''),
      (''sentinelone'', ''SentinelOne'', ''EDR '' @ mdash @ '' autonomous endpoint protection'', ''https://docs.sentinelone.com'', ''EDR''),
      (''dfir_iris'', ''DFIR IRIS'', ''Incident response and digital forensics'', ''https://docs.dfir-iris.org'', ''IR'')]"

text \<open>
  The members every object inherits: indexing a record with one of these names does not answer
  \<open>undefined\<close> but the inherited function, which is truthy.
\<close>

definition object_members :: "string list" where
  "object_members = [''constructor'', ''hasOwnProperty'', ''isPrototypeOf'', ''propertyIsEnumerable'',
     ''toLocaleString'', ''toString'', ''valueOf'', ''__proto__'', ''__defineGetter__'',
     ''__defineSetter__'', ''__lookupGetter__'', ''__lookupSetter__'']"

definition is_word_char :: "char \<Rightarrow> bool" where
  "is_word_char c \<longleftrightarrow> c \<in> set (lowers @ uppers @ ''0123456789_'')"

text \<open>\<open>replace(/\b\w/g, toUpperCase)\<close>: upper-case each word character not preceded by one.\<close>

fun title_case :: "bool \<Rightarrow> string \<Rightarrow> string" where
  "title_case prev [] = []"
| "title_case prev (c # cs) =
     (if is_word_char c \<and> \<not> prev then to_upper_char c else c) # title_case (is_word_char c) cs"

definition fallback_label :: "string \<Rightarrow> string" where
  "fallback_label ty = title_case False (replace_all (CHR ''_'') (CHR '' '') ty)"

datatype meta_value = Meta ConnectorMeta | Inherited string

definition connectorMeta :: "jsval \<Rightarrow> meta_value" where
  "connectorMeta ty =
     (case map_of CONNECTOR_META (js_string ty) of
        Some m \<Rightarrow> Meta m
      | None \<Rightarrow>
          if js_string ty \<in> set object_members then Inherited (js_string ty)
          else Meta \<lparr>meta_label = fallback_label (if truthy ty then js_string ty else []),
                     meta_desc = ''Security integration'',
                     meta_docs = ''#'', meta_category = ''Other''\<rparr>)"

text \<open>The members of the value, \<open>undefined\<close> on an inherited function.\<close>

definition shown_label :: "meta_value \<Rightarrow> jsval" where
  "shown_label m = (case m of Meta c \<Rightarrow> JStr (meta_label c) | Inherited _ \<Rightarrow> JUndef)"

definition shown_desc :: "meta_value \<Rightarrow> jsval" where
  "shown_desc m = (case m of Meta c \<Rightarrow> JStr (meta_desc c) | Inherited _ \<Rightarrow> JUndef)"

definition shown_category :: "meta_value \<Rightarrow> jsval" where
  "shown_category m = (case m of Meta c \<Rightarrow> JStr (meta_category c) | Inherited _ \<Rightarrow> JUndef)"

definition docs_link :: "meta_value \<Rightarrow> string option" where
  "docs_link m = (case m of
     Meta c \<Rightarrow> if meta_docs c \<noteq> [] \<and> meta_docs c \<noteq> ''#'' then Some (meta_docs c) else None
   | Inherited _ \<Rightarrow> None)"

section \<open>The page\<close>

record connectors_state =
  editing :: jsval
  editForm :: row

definition init_connectors :: connectors_state where
  "init_connectors = \<lparr>editing = JNull, editForm = []\<rparr>"

datatype connectors_event =
    VerifyAll "row list"
  | Verify row
  | VerifySettled jsval
  | Configure row
  | CancelEdit
  | TypeForm string string
  | SaveChanges row
  | Updated

fun connectors_step ::
  "connectors_event \<Rightarrow> connectors_state \<Rightarrow> connectors_state \<times> api_call effect list" where
  "connectors_step (VerifyAll cs) s =
     (s, map (\<lambda>c. Call (EngineCall (VerifyConnector (row_id c)))) cs)"
| "connectors_step (Verify c) s = (s, [Call (EngineCall (VerifyConnector (row_id c)))])"
| "connectors_step (VerifySettled data) s =
     (s, [Invalidate [JStr ''connectors''],
          if truthy (opt_fld data ''connected'') then ToastOk ''Connection verified''
          else ToastErr (JStr (''Failed: '' @ js_string (opt_fld data ''detail'')))])"
| "connectors_step (Configure c) s =
     (s\<lparr>editing := (if editing s = fld c ''id'' then JNull else fld c ''id''),
        editForm := [(''url'', jor (fld c ''url'') (JStr [])),
                     (''username'', jor (fld c ''username'') (JStr []))]\<rparr>, [])"
| "connectors_step CancelEdit s = (s\<lparr>editing := JNull\<rparr>, [])"
| "connectors_step (TypeForm k v) s = (s\<lparr>editForm := upd (editForm s) k (JStr v)\<rparr>, [])"
| "connectors_step (SaveChanges c) s =
     (s, [Call (EngineCall (UpdateConnector (row_id c) (JObj (editForm s))))])"
| "connectors_step Updated s =
     (s\<lparr>editing := JNull\<rparr>, [Invalidate [JStr ''connectors''], ToastOk ''Connector updated''])"

text \<open>
  The health summary. The percentage is \<open>Math.round\<close> of the floating-point value \<open>q\<close> of
  \<open>(online / total) * 100\<close>, an argument because it is rounded to a double.
\<close>

definition online_count :: "row list \<Rightarrow> nat" where
  "online_count cs = length (filter (\<lambda>c. truthy (fld c ''verified'')) cs)"

definition health_pct :: "rat \<Rightarrow> row list \<Rightarrow> int" where
  "health_pct q cs = (if 0 < length cs then \<lfloor>q + 1 / 2\<rfloor> else 0)"

definition health_view :: "rat \<Rightarrow> row list \<Rightarrow> connectors_event ui list" where
  "health_view q cs =
     (let online = online_count cs; total = length cs in
      [Txt ''Platform health'', Txt (int_dec (health_pct q cs) @ ''%''),
       Txt (nat_dec online @ '' of '' @ nat_dec total @ '' connectors online'' @
            (if online < total then '' '' @ middot @ '' '' @ nat_dec (total - online) @ '' offline'' else []))])"

definition form_text :: "row \<Rightarrow> string \<Rightarrow> string" where
  "form_text f k = js_string (jor (fld f k) (JStr []))"

definition connector_card :: "bool \<Rightarrow> connectors_state \<Rightarrow> row \<Rightarrow> connectors_event ui" where
  "connector_card verifyPending s c =
     (let m = connectorMeta (fld c ''connector_type''); isEdit = (editing s = fld c ''id'') in
      Box ([Val (shown_label m), Val (shown_category m), Val (shown_desc m),
            Txt (if truthy (fld c ''verified'') then ''Online'' else ''Offline'')] @
           shown (truthy (fld c ''url'')) [Val (fld c ''url'')] @
           shown isEdit
             [Field (''URL (https://'' @ ellipsis @ '')'') (form_text (editForm s) ''url'') False (TypeForm ''url''),
              Field ''Username (if applicable)'' (form_text (editForm s) ''username'') False (TypeForm ''username''),
              Field ''Password or API key'' (form_text (editForm s) ''password'') False (TypeForm ''password''),
              Btn ''Save changes'' False (SaveChanges c),
              Btn ''Cancel'' False CancelEdit] @
           [Btn ''Test'' verifyPending (Verify c),
            Btn (if isEdit then ''Cancel'' else ''Configure'') False (Configure c)] @
           (case docs_link m of Some u \<Rightarrow> [Link ''Docs'' u] | None \<Rightarrow> []) @
           shown (truthy (fld c ''last_verified'')) [Txt ''Checked '', Val (fld c ''last_verified'')]))"

definition connectors_view ::
  "rat \<Rightarrow> bool \<Rightarrow> bool \<Rightarrow> row list \<Rightarrow> connectors_state \<Rightarrow> connectors_event ui list" where
  "connectors_view q isLoading verifyPending cs s =
     [Txt ''Connectors'', Txt ''Integrations and external platform health'',
      Btn ''Verify all'' False (VerifyAll cs)] @
     health_view q cs @
     shown isLoading [Txt (''Loading'' @ ellipsis)] @
     map (connector_card verifyPending s) cs"

section \<open>Lemmas on the metadata\<close>

lemma length_title_case [simp]: "length (title_case p s) = length s"
  by (induction s arbitrary: p) auto

lemma length_fallback_label: "length (fallback_label ty) = length ty"
  by (simp add: fallback_label_def)

lemma to_upper_char_cases: "to_upper_char c = c \<or> c \<in> set lowers \<and> to_upper_char c \<in> set uppers"
proof (cases "map_of (zip lowers uppers) c")
  case None
  then show ?thesis by (simp add: to_upper_char_def)
next
  case (Some d)
  then have "(c, d) \<in> set (zip lowers uppers)" by (rule map_of_SomeD)
  then show ?thesis using Some by (auto simp: to_upper_char_def dest: set_zip_leftD set_zip_rightD)
qed

lemma set_title_case: "set (title_case p s) \<subseteq> set s \<union> set uppers"
  by (induction s arbitrary: p) (use to_upper_char_cases in fastforce)+

lemma underscore_gone: "CHR ''_'' \<notin> set (fallback_label ty)"
proof -
  have "CHR ''_'' \<notin> set uppers" by (simp add: uppers_def)
  moreover have "CHR ''_'' \<notin> set (replace_all (CHR ''_'') (CHR '' '') ty)"
    by (rule set_replace_all) simp
  ultimately show ?thesis unfolding fallback_label_def using set_title_case by blast
qed

lemma upper_not_lower: "c \<in> set lowers \<Longrightarrow> to_upper_char c \<notin> set lowers"
proof -
  have "\<forall>c \<in> set lowers. to_upper_char c \<notin> set lowers" by code_simp
  then show "c \<in> set lowers \<Longrightarrow> to_upper_char c \<notin> set lowers" by blast
qed

lemma title_case_first:
  "title_case False (c # cs) = d # ds \<Longrightarrow> d \<notin> set lowers"
proof -
  assume "title_case False (c # cs) = d # ds"
  then have d: "d = (if is_word_char c then to_upper_char c else c)" by auto
  show "d \<notin> set lowers"
  proof (cases "c \<in> set lowers")
    case True
    then show ?thesis using d upper_not_lower by (simp add: is_word_char_def)
  next
    case False
    have "\<forall>x \<in> set uppers. x \<notin> set lowers" by (simp add: uppers_def lowers_def)
    then show ?thesis using False d to_upper_char_cases [of c] by (auto split: if_splits)
  qed
qed

text \<open>After a character that ends a word, the next one starts a title-cased text again.\<close>

lemma title_case_append:
  "\<not> is_word_char b \<Longrightarrow> title_case p (s @ b # cs) = title_case p s @ b # title_case False cs"
  by (induction s arbitrary: p) auto

lemma word_starts_upper:
  assumes "replace_all (CHR ''_'') (CHR '' '') ty = pre @ c # rest" "pre = [] \<or> last pre = CHR '' ''"
  shows "fallback_label ty ! length pre \<notin> set lowers"
proof -
  have nw: "\<not> is_word_char (CHR '' '')" by (simp add: is_word_char_def lowers_def uppers_def)
  show ?thesis
  proof (cases "pre = []")
    case True
    obtain d ds where t: "title_case False (c # rest) = d # ds" by simp
    then show ?thesis using assms(1) True title_case_first [OF t] by (simp add: fallback_label_def)
  next
    case False
    with assms(2) obtain pre' where pre: "pre = pre' @ [CHR '' '']" by (metis append_butlast_last_id)
    obtain d ds where t: "title_case False (c # rest) = d # ds" by simp
    have "fallback_label ty = title_case False pre' @ CHR '' '' # d # ds"
      unfolding fallback_label_def assms(1) pre using title_case_append [OF nw, of False pre' "c # rest"] t
      by simp
    then show ?thesis using title_case_first [OF t] pre by (simp add: nth_append)
  qed
qed

text \<open>
  Unknown connector types. The label has the length of the type name; its words are those of the name
  split at underscores.
\<close>

definition labelled :: "string \<Rightarrow> ConnectorMeta" where
  "labelled ty = \<lparr>meta_label = fallback_label ty, meta_desc = ''Security integration'',
                  meta_docs = ''#'', meta_category = ''Other''\<rparr>"

lemma meta_unknown:
  "ty \<notin> set (map fst CONNECTOR_META) \<Longrightarrow> ty \<notin> set object_members \<Longrightarrow>
   connectorMeta (JStr ty) = Meta (labelled ty)"
proof -
  assume "ty \<notin> set (map fst CONNECTOR_META)" and o: "ty \<notin> set object_members"
  then have "map_of CONNECTOR_META ty = None" by (simp add: map_of_eq_None_iff)
  then show ?thesis using o by (simp add: connectorMeta_def labelled_def)
qed

section \<open>Properties\<close>

text \<open>A connector of a type the table does not name, and that is no inherited member of objects, is
  shown under a name derived from its type: as long as the type, without underscores, no word of it
  starting with a lower-case letter; under the category Other, and without a link to documentation.\<close>

theorem unknown_connector_label:
  assumes "ty \<notin> set (map fst CONNECTOR_META)" "ty \<notin> set object_members"
  shows "\<exists>label. shown_label (connectorMeta (JStr ty)) = JStr label \<and> length label = length ty \<and>
           CHR ''_'' \<notin> set label \<and>
           (\<forall>pre c rest. ty = pre @ c # rest \<longrightarrow> pre = [] \<or> last pre = CHR ''_'' \<longrightarrow>
              label ! length pre \<notin> set lowers) \<and>
           shown_category (connectorMeta (JStr ty)) = JStr ''Other'' \<and>
           docs_link (connectorMeta (JStr ty)) = None"
proof -
  have "fallback_label ty ! length pre \<notin> set lowers"
    if ty: "ty = pre @ c # rest" and w: "pre = [] \<or> last pre = CHR ''_''" for pre c rest
  proof -
    let ?r = "replace_all (CHR ''_'') (CHR '' '')"
    have "?r ty = ?r pre @ (if c = CHR ''_'' then CHR '' '' else c) # ?r rest"
      by (simp add: ty replace_all_def)
    moreover have "?r pre = [] \<or> last (?r pre) = CHR '' ''"
      using w by (cases pre rule: rev_cases) (auto simp: replace_all_def)
    ultimately have "fallback_label ty ! length (?r pre) \<notin> set lowers" by (rule word_starts_upper)
    then show ?thesis by simp
  qed
  then show ?thesis
    by (intro exI [of _ "fallback_label ty"])
      (simp add: meta_unknown [OF assms] labelled_def shown_label_def shown_category_def docs_link_def
        length_fallback_label underscore_gone)
qed

theorem unknown_connector_label_witness:
  "\<exists>label. shown_label (connectorMeta (JStr ''palo_alto'')) = JStr label \<and> length label = 9"
  using unknown_connector_label [of "''palo_alto''"]
  by (auto simp: CONNECTOR_META_def object_members_def)

text \<open>With the percentage computed to within a thousandth, the health shown is between 0 and 100 and
  within 0.501 of the exact share of verified connectors; it is 0 when there is no connector.\<close>

theorem health_within_bounds:
  assumes "cs \<noteq> [] \<Longrightarrow>
    \<bar>q - 100 * of_nat (online_count cs) / of_nat (length cs)\<bar> \<le> 1 / 1000"
  shows "0 \<le> health_pct q cs \<and> health_pct q cs \<le> 100 \<and>
    (if cs = [] then health_pct q cs = 0
     else \<bar>of_int (health_pct q cs) - 100 * of_nat (online_count cs) / of_nat (length cs)\<bar>
            \<le> (501 / 1000 :: rat))"
proof (cases "cs = []")
  case True
  then show ?thesis by (simp add: health_pct_def)
next
  case False
  let ?e = "100 * of_nat (online_count cs) / of_nat (length cs) :: rat"
  have n: "0 < length cs" using False by simp
  have le: "online_count cs \<le> length cs" by (simp add: online_count_def)
  have e: "0 \<le> ?e" "?e \<le> 100" using n le by (simp_all add: divide_le_eq)
  have q: "?e - 1 / 1000 \<le> q" "q \<le> ?e + 1 / 1000" using assms [OF False] by linarith+
  have f: "of_int \<lfloor>q + 1 / 2\<rfloor> \<le> q + 1 / 2" "q + 1 / 2 < of_int \<lfloor>q + 1 / 2\<rfloor> + 1"
    using floor_correct [of "q + 1 / 2"] by auto
  have lo: "0 \<le> q + 1 / 2" and hi: "q + 1 / 2 < 101" using e q by linarith+
  have "0 \<le> \<lfloor>q + 1 / 2\<rfloor>" using lo by (simp add: zero_le_floor)
  moreover have "\<lfloor>q + 1 / 2\<rfloor> \<le> 100" using hi by (simp add: floor_le_iff)
  moreover have "\<bar>of_int \<lfloor>q + 1 / 2\<rfloor> - ?e\<bar> \<le> 501 / 1000"
    unfolding abs_le_iff using f q by linarith
  ultimately show ?thesis using False n by (simp add: health_pct_def)
qed

theorem health_within_bounds_witness:
  "health_pct (200 / 3) [[(''verified'', JBool True)], [(''verified'', JBool True)], []] \<le> 100"
  using health_within_bounds [of "[[(''verified'', JBool True)], [(''verified'', JBool True)], []]" "200 / 3"]
  by (simp add: online_count_def)

text \<open>
  The edit form over a list of typing events: each field holds the last text typed into it.
\<close>

definition last_typed :: "(string \<times> string) list \<Rightarrow> string \<Rightarrow> string option" where
  "last_typed ts k = map_of (rev ts) k"

definition type_all :: "(string \<times> string) list \<Rightarrow> connectors_state \<Rightarrow> connectors_state" where
  "type_all ts s = foldl (\<lambda>s (k, v). fst (connectors_step (TypeForm k v) s)) s ts"

lemma type_all_simps [simp]:
  "type_all [] s = s"
  "type_all (ts @ [(k, v)]) s = fst (connectors_step (TypeForm k v) (type_all ts s))"
  by (simp_all add: type_all_def)

lemma type_all_field:
  "fld (editForm (type_all ts s)) k =
     (case last_typed ts k of Some v \<Rightarrow> JStr v | None \<Rightarrow> fld (editForm s) k)"
  by (induction ts rule: rev_induct) (auto simp: last_typed_def split: option.splits)

text \<open>Opening a connector's form, typing into it and saving sends one update of that connector, in
  which a field holds the last text typed into it; a field that was not typed into holds the
  connector's URL or user name, and the password is left out, so that saving never blanks it.\<close>

theorem edit_form_saved:
  assumes "editing s \<noteq> fld c ''id''"
  shows "\<exists>form. snd (connectors_step (SaveChanges c) (type_all ts (fst (connectors_step (Configure c) s)))) =
           [Call (EngineCall (UpdateConnector (row_id c) (JObj form)))] \<and>
         (\<forall>k. fld form k =
           (case last_typed ts k of
              Some v \<Rightarrow> JStr v
            | None \<Rightarrow> if k = ''url'' \<or> k = ''username'' then jor (fld c k) (JStr []) else JUndef))"
  using assms by (auto simp: type_all_field split: option.splits)

theorem edit_form_saved_witness:
  "\<exists>form. fld form ''password'' = JUndef \<and> fld form ''url'' = JStr ''http://b'' \<and>
     snd (connectors_step (SaveChanges [(''id'', JNum 4)])
            (type_all [(''url'', ''http://a''), (''url'', ''http://b'')]
               (fst (connectors_step (Configure [(''id'', JNum 4)]) init_connectors)))) =
       [Call (EngineCall (UpdateConnector ''4'' (JObj form)))]"
proof -
  have "editing init_connectors \<noteq> fld [(''id'', JNum 4)] ''id''" by (simp add: init_connectors_def)
  from edit_form_saved [OF this, of "[(''url'', ''http://a''), (''url'', ''http://b'')]"]
  obtain form where f: "snd (connectors_step (SaveChanges [(''id'', JNum 4)])
            (type_all [(''url'', ''http://a''), (''url'', ''http://b'')]
               (fst (connectors_step (Configure [(''id'', JNum 4)]) init_connectors)))) =
       [Call (EngineCall (UpdateConnector (row_id [(''id'', JNum 4)]) (JObj form)))]"
    and k: "\<And>k. fld form k =
           (case last_typed [(''url'', ''http://a''), (''url'', ''http://b'')] k of
              Some v \<Rightarrow> JStr v
            | None \<Rightarrow> if k = ''url'' \<or> k = ''username''
                then jor (fld [(''id'', JNum 4)] k) (JStr []) else JUndef)"
    by blast
  have "row_id [(''id'', JNum 4)] = ''4''" by (simp add: row_id_def int_dec_def nat_dec_small)
  with f k show ?thesis by (intro exI [of _ form]) (simp add: last_typed_def)
qed

end
