(* ===== verification/Filters.thy ===== *)
theory Filters
  imports ApiClient Async
begin

text \<open>
  What the list pages (cases, agents, events, alerts) share: the free-text filter over some columns,
  the quick filter by one key with a counter per key, and the query box whose text is applied after
  400 ms without typing. Each is a contract; the pages discharge it for their own filters.
\<close>

section \<open>Text search and quick filters\<close>

text \<open>
  \<open>[r.a, r.b].some((f) => f?.toLowerCase().includes(search.toLowerCase()))\<close>: the API types the
  searched columns as strings or null.
\<close>

definition text_found :: "string \<Rightarrow> string list \<Rightarrow> row \<Rightarrow> bool" where
  "text_found q columns r =
     list_ex (\<lambda>k. case fld r k of JStr v \<Rightarrow> str_includes (to_lower v) (to_lower q) | _ \<Rightarrow> False) columns"

text \<open>\<open>set(current === k ? '' : k)\<close>\<close>

definition toggle :: "string \<Rightarrow> string \<Rightarrow> string" where
  "toggle k current = (if current = k then [] else k)"

lemma toggle_twice: "k \<noteq> [] \<Longrightarrow> toggle k (toggle k []) = []"
  by (simp add: toggle_def)

lemma to_lower_append: "to_lower (a @ b) = to_lower a @ to_lower b"
  by (simp add: to_lower_def)

text \<open>A search for a part of a column's text finds the row.\<close>

lemma text_found_part:
  assumes "k \<in> set columns" "fld r k = JStr v" "str_includes v q"
  shows "text_found q columns r"
proof -
  obtain a b where "v = a @ q @ b" using assms(3) by (auto simp: str_includes_iff)
  then have "str_includes (to_lower v) (to_lower q)"
    by (simp add: to_lower_append str_includes_self)
  then show ?thesis unfolding text_found_def list_ex_iff by (intro bexI [OF _ assms(1)]) (simp add: assms(2))
qed

text \<open>A list with a filter that has a neutral setting and one setting per key.\<close>

locale quick_filter =
  fixes matches :: "'f \<Rightarrow> 'r \<Rightarrow> bool"
    and neutral :: 'f
    and by_key :: "'k \<Rightarrow> 'f"
    and has_key :: "'k \<Rightarrow> 'r \<Rightarrow> bool"
    and valid :: "'k \<Rightarrow> bool"
  assumes neutral_law: "matches neutral r"
    and by_key_law: "valid k \<Longrightarrow> matches (by_key k) r = has_key k r"
    and one_key: "has_key k r \<Longrightarrow> has_key k' r \<Longrightarrow> k = k'"
begin

lemma neutral_lists_all: "filter (matches neutral) rs = rs"
  by (simp add: neutral_law)

lemma listed_in_order: "subseq (filter (matches f) rs) rs"
  by simp

lemma counter_exact: "valid k \<Longrightarrow> length (filter (matches (by_key k)) rs) = length (filter (has_key k) rs)"
  by (simp add: by_key_law cong: filter_cong)

text \<open>The counters of distinct keys add up to the rows that have one of these keys.\<close>

lemma counters_add_up:
  "distinct ks \<Longrightarrow>
   sum_list (map (\<lambda>k. length (filter (has_key k) rs)) ks) =
   length (filter (\<lambda>r. \<exists>k \<in> set ks. has_key k r) rs)"
proof (induction ks)
  case Nil
  then show ?case by simp
next
  case (Cons k ks)
  have "length (filter (\<lambda>r. has_key k r \<or> (\<exists>k' \<in> set ks. has_key k' r)) rs) =
      length (filter (has_key k) rs) + length (filter (\<lambda>r. \<exists>k' \<in> set ks. has_key k' r) rs)"
    by (rule length_filter_disj) (use Cons.prems one_key in auto)
  then show ?case using Cons by simp
qed

end

section \<open>The debounced query box\<close>

text \<open>
  Typing restarts a timer that closes over the text; when it fires, the query becomes the trimmed
  text. The contract: only typing changes the text, only the timer changes the query.
\<close>

locale debounced =
  fixes start :: "'s \<Rightarrow> bool"
    and allowed :: "'e \<Rightarrow> 's \<Rightarrow> bool"
    and step :: "'e \<Rightarrow> 's \<Rightarrow> 's"
    and box :: "'s \<Rightarrow> string"
    and query :: "'s \<Rightarrow> string"
    and timer :: "'s \<Rightarrow> string option"
    and typed :: "'e \<Rightarrow> string option"
    and fires :: "'e \<Rightarrow> bool"
  assumes start_law: "start s \<Longrightarrow> timer s = Some (box s)"
    and type_law: "typed e = Some v \<Longrightarrow>
          box (step e s) = v \<and> query (step e s) = query s \<and> timer (step e s) = Some v"
    and fire_law: "fires e \<Longrightarrow> typed e = None \<Longrightarrow> box (step e s) = box s \<and>
          (case timer s of Some t \<Rightarrow> query (step e s) = trim t \<and> timer (step e s) = None
           | None \<Rightarrow> query (step e s) = query s \<and> timer (step e s) = None)"
    and rest_law: "typed e = None \<Longrightarrow> \<not> fires e \<Longrightarrow>
          box (step e s) = box s \<and> query (step e s) = query s \<and> timer (step e s) = timer s"
begin

definition in_sync :: "'s \<Rightarrow> bool" where
  "in_sync s \<longleftrightarrow> (case timer s of Some t \<Rightarrow> t = box s | None \<Rightarrow> query s = trim (box s))"

lemma in_sync_step:
  assumes "in_sync s"
  shows "in_sync (step e s)"
proof -
  consider (typed) v where "typed e = Some v" | (fire) "typed e = None" "fires e"
    | (rest) "typed e = None" "\<not> fires e" by fastforce
  then show ?thesis
  proof cases
    case typed
    then show ?thesis using type_law by (simp add: in_sync_def)
  next
    case fire
    then show ?thesis using fire_law [OF fire(2,1), of s] assms
      by (auto simp: in_sync_def split: option.splits)
  next
    case rest
    then show ?thesis using rest_law [OF rest, of s] assms by (simp add: in_sync_def split: option.splits)
  qed
qed

lemma in_sync_start: "start s \<Longrightarrow> in_sync s"
  by (simp add: in_sync_def start_law)

lemma always_in_sync: "reach start allowed step s \<Longrightarrow> in_sync s"
  by (erule reach_invariant) (simp_all add: in_sync_step in_sync_start)

text \<open>Once the timer has fired, the query is the trimmed text of the box.\<close>

lemma settled_query:
  "reach start allowed step s \<Longrightarrow> timer s = None \<Longrightarrow> query s = trim (box s)"
  using always_in_sync by (fastforce simp: in_sync_def)

lemma fired_query:
  "reach start allowed step s \<Longrightarrow> fires e \<Longrightarrow> typed e = None \<Longrightarrow> query (step e s) = trim (box s)"
  using always_in_sync [of s] fire_law [of e s]
  by (auto simp: in_sync_def split: option.splits)

end

end
