(* ===== verification/Cases.thy ===== *)
theory Cases
  imports Filters
begin

text \<open>
  The case list, \<open>frontend/src/pages/Cases.tsx\<close>: search and status filter, status tiles, the panel
  that creates a case, and the status buttons of the rows. The cases and templates the queries hold
  and the pending flag of the create mutation are arguments of the view.
\<close>

section \<open>State and handlers\<close>

record NewCaseForm =
  form_title :: string
  form_description :: string
  form_priority :: string
  form_template :: string

definition blank_form :: NewCaseForm where
  "blank_form = \<lparr>form_title = [], form_description = [], form_priority = ''medium'', form_template = []\<rparr>"

record cases_state =
  cases_search :: string
  statusFilt :: string
  creating :: bool
  new_case :: NewCaseForm

definition init_cases :: cases_state where
  "init_cases = \<lparr>cases_search = [], statusFilt = [], creating = False, new_case = blank_form\<rparr>"

datatype cases_event =
    SearchCases string
  | StatusTile string
  | ClearFilter
  | NewCase
  | CancelCase
  | TypeTitle string
  | PickPriority string
  | TypeDescription string
  | PickTemplate string
  | SubmitCase
  | CaseCreated
  | OpenCase row
  | StartCase row
  | ResolveCase row
  | CaseUpdated

definition case_body :: "NewCaseForm \<Rightarrow> jsval" where
  "case_body f = JObj
     [(''title'', JStr (form_title f)), (''description'', JStr (form_description f)),
      (''priority'', JStr (form_priority f)),
      (''template'', jor (JStr (form_template f)) JNull)]"

definition status_body :: "string \<Rightarrow> jsval" where
  "status_body st = JObj [(''status'', JStr st)]"

fun cases_step :: "cases_event \<Rightarrow> cases_state \<Rightarrow> cases_state \<times> api_call effect list" where
  "cases_step (SearchCases v) s = (s\<lparr>cases_search := v\<rparr>, [])"
| "cases_step (StatusTile k) s = (s\<lparr>statusFilt := toggle k (statusFilt s)\<rparr>, [])"
| "cases_step ClearFilter s = (s\<lparr>statusFilt := []\<rparr>, [])"
| "cases_step NewCase s = (s\<lparr>creating := True\<rparr>, [])"
| "cases_step CancelCase s = (s\<lparr>creating := False\<rparr>, [])"
| "cases_step (TypeTitle v) s = (s\<lparr>new_case := (new_case s)\<lparr>form_title := v\<rparr>\<rparr>, [])"
| "cases_step (PickPriority v) s = (s\<lparr>new_case := (new_case s)\<lparr>form_priority := v\<rparr>\<rparr>, [])"
| "cases_step (TypeDescription v) s = (s\<lparr>new_case := (new_case s)\<lparr>form_description := v\<rparr>\<rparr>, [])"
| "cases_step (PickTemplate v) s = (s\<lparr>new_case := (new_case s)\<lparr>form_template := v\<rparr>\<rparr>, [])"
| "cases_step SubmitCase s = (s, [Call (CaseCall (CreateCase (case_body (new_case s))))])"
| "cases_step CaseCreated s =
     (s\<lparr>creating := False, new_case := blank_form\<rparr>,
      [Invalidate [JStr ''cases''], ToastOk ''Case created''])"
| "cases_step (OpenCase c) s = (s, [Navigate (''/cases/'' @ row_id c)])"
| "cases_step (StartCase c) s =
     (s, [Call (CaseCall (UpdateCase (row_id c) (status_body ''in_progress'')))])"
| "cases_step (ResolveCase c) s =
     (s, [Call (CaseCall (UpdateCase (row_id c) (status_body ''resolved'')))])"
| "cases_step CaseUpdated s = (s, [Invalidate [JStr ''cases''], ToastOk ''Case updated''])"

section \<open>Filters, tiles and rows\<close>

definition STATUS_CONFIG :: "(string \<times> string) list" where
  "STATUS_CONFIG = [(''open'', ''Open''), (''in_progress'', ''In progress''),
     (''resolved'', ''Resolved''), (''closed'', ''Closed'')]"

definition case_matches :: "string \<times> string \<Rightarrow> row \<Rightarrow> bool" where
  "case_matches f c =
     (case f of (search, status) \<Rightarrow>
       (search = [] \<or> text_found search [''title'', ''description'', ''assignee_name''] c) \<and>
       (status = [] \<or> fld c ''status'' = JStr status))"

definition filtered_cases :: "row list \<Rightarrow> cases_state \<Rightarrow> row list" where
  "filtered_cases cs s = filter (case_matches (cases_search s, statusFilt s)) cs"

definition case_count :: "row list \<Rightarrow> string \<Rightarrow> nat" where
  "case_count cs k = length (filter (\<lambda>c. fld c ''status'' = JStr k) cs)"

definition status_label :: "row \<Rightarrow> string" where
  "status_label c =
     (case map_of STATUS_CONFIG (js_string (fld c ''status'')) of Some l \<Rightarrow> l | None \<Rightarrow> ''Open'')"

definition tiles_view :: "row list \<Rightarrow> cases_event ui list" where
  "tiles_view cs =
     map (\<lambda>(k, l). Clickable (StatusTile k) [Txt l, Txt (nat_dec (case_count cs k))]) STATUS_CONFIG"

definition selectedTemplate :: "row list \<Rightarrow> cases_state \<Rightarrow> row option" where
  "selectedTemplate templates s =
     List.find (\<lambda>t. fld t ''key'' = JStr (form_template (new_case s))) templates"

definition create_panel :: "bool \<Rightarrow> row list \<Rightarrow> cases_state \<Rightarrow> cases_event ui list" where
  "create_panel isPending templates s =
     (let f = new_case s in
      [Txt ''New case'',
       Txt ''Title'', Field ''Suspected lateral movement via RDP'' (form_title f) False TypeTitle,
       Txt ''Priority'', Select (form_priority f)
         (map (\<lambda>p. (p, p)) [''critical'', ''high'', ''medium'', ''low'']) PickPriority,
       Txt ''Description'', Field (''Brief summary of the incident'' @ ellipsis) (form_description f) False TypeDescription,
       Txt ''Template (optional)'',
       Select (form_template f)
         (([], ''No template '' @ mdash @ '' start blank'') #
          map (\<lambda>t. (js_string (fld t ''key''),
                    js_string (fld t ''label'') @ '' '' @ mdash @ '' '' @ js_string (fld t ''description''))) templates)
         PickTemplate] @
      (case selectedTemplate templates s of None \<Rightarrow> []
       | Some t \<Rightarrow> [Txt (''Will create '' @ nat_dec (length (as_list (fld t ''tasks''))) @ '' tasks''),
           Box (map Val (as_list (fld t ''tasks'')))]) @
      [Btn ''Create case'' (form_title f = [] \<or> isPending) SubmitCase, Btn ''Cancel'' False CancelCase])"

text \<open>A button of a row stops the click from reaching the row, so each click is one event.\<close>

definition case_row :: "row \<Rightarrow> cases_event ui" where
  "case_row c = Clickable (OpenCase c)
     ([Val (jor (fld c ''priority'') (JStr ''medium'')), Val (fld c ''title'')] @
      shown (truthy (fld c ''description'')) [Val (fld c ''description'')] @
      [Txt (status_label c), Val (jor (fld c ''assignee_name'') (JStr ''Unassigned'')),
       Val (if nullish (fld c ''alert_count'') then JStr mdash else fld c ''alert_count''),
       Val (jor (fld c ''created_at'') (JStr mdash))] @
      shown (fld c ''status'' = JStr ''open'') [Btn ''Start'' False (StartCase c)] @
      shown (fld c ''status'' = JStr ''in_progress'') [Btn ''Resolve'' False (ResolveCase c)] @
      [Btn ''View'' False (OpenCase c)])"

definition cases_view ::
  "bool \<Rightarrow> bool \<Rightarrow> row list \<Rightarrow> row list \<Rightarrow> cases_state \<Rightarrow> cases_event ui list" where
  "cases_view isLoading isPending templates cs s =
     (let rows = filtered_cases cs s in
      [Txt ''Cases'', Txt ''Incident management and investigation tracking'',
       Btn ''New case'' False NewCase] @
      tiles_view cs @
      shown (creating s) (create_panel isPending templates s) @
      [Field (''Search cases'' @ ellipsis) (cases_search s) False SearchCases] @
      shown (statusFilt s \<noteq> []) [Btn ''Clear filter'' False ClearFilter] @
      [Txt (nat_dec (length rows) @ '' cases'')] @
      map Txt [''Priority'', ''Case'', ''Status'', ''Assignee'', ''Alerts'', ''Created''] @
      shown isLoading [Txt (''Loading cases'' @ ellipsis)] @
      shown (\<not> isLoading \<and> rows = []) [Txt ''No cases found''] @
      map case_row rows)"

interpretation case_filter: quick_filter case_matches "([], [])" "Pair []"
  "\<lambda>k c. fld c ''status'' = JStr k" "\<lambda>k. k \<noteq> []"
  by unfold_locales (auto simp: case_matches_def)

section \<open>Clicks\<close>

lemma clicks_case_row: "e \<in> set (clicks (case_row c)) \<longleftrightarrow>
    e = OpenCase c \<or> e = StartCase c \<and> fld c ''status'' = JStr ''open'' \<or>
    e = ResolveCase c \<and> fld c ''status'' = JStr ''in_progress''"
  by (auto simp: case_row_def)

lemma clicks_tiles: "e \<in> set (page_clicks (tiles_view cs)) \<longleftrightarrow>
    (\<exists>k \<in> set (map fst STATUS_CONFIG). e = StatusTile k)"
  by (force simp: tiles_view_def page_clicks_map)

lemma clicks_create_panel: "set (page_clicks (create_panel isPending templates s)) =
    (if form_title (new_case s) = [] \<or> isPending then {} else {SubmitCase}) \<union> {CancelCase}"
  by (auto simp: create_panel_def Let_def page_clicks_def split: option.splits)

lemma clicks_cases_view: "set (page_clicks (cases_view isLoading isPending templates cs s)) =
    {NewCase} \<union> set (page_clicks (tiles_view cs)) \<union>
    (if creating s then set (page_clicks (create_panel isPending templates s)) else {}) \<union>
    (if statusFilt s \<noteq> [] then {ClearFilter} else {}) \<union>
    (\<Union>c \<in> set (filtered_cases cs s). set (clicks (case_row c)))"
  by (simp add: cases_view_def Let_def page_clicks_map) auto

section \<open>Properties\<close>

text \<open>C32. Each status tile counts exactly the cases it lists: from the unfiltered page, clicking a tile
  lists, in their order, as many cases as the tile shows, and clicking it again lists them all. The
  four counters add up to the cases that are open, in progress, resolved or closed.\<close>

theorem case_tiles_exact:
  assumes "cases_search s = []" "statusFilt s = []" "k \<in> set (map fst STATUS_CONFIG)"
  defines "s1 \<equiv> fst (cases_step (StatusTile k) s)"
  shows "length (filtered_cases cs s1) = case_count cs k \<and>
         subseq (filtered_cases cs s1) cs \<and>
         filtered_cases cs (fst (cases_step (StatusTile k) s1)) = cs \<and>
         sum_list (map (case_count cs) (map fst STATUS_CONFIG)) =
           length (filter (\<lambda>c. \<exists>k \<in> set (map fst STATUS_CONFIG). fld c ''status'' = JStr k) cs)"
proof -
  have k: "k \<noteq> []" using assms(3) by (auto simp: STATUS_CONFIG_def)
  have "filtered_cases cs s1 = filter (case_matches ([], k)) cs"
    by (simp add: filtered_cases_def s1_def toggle_def assms(1,2) k [symmetric])
  moreover have "filtered_cases cs (fst (cases_step (StatusTile k) s1)) = cs"
    using toggle_twice [OF k] case_filter.neutral_lists_all
    by (simp add: filtered_cases_def s1_def assms(1,2))
  moreover have "distinct (map fst STATUS_CONFIG)" by (simp add: STATUS_CONFIG_def)
  ultimately show ?thesis
    using case_filter.counter_exact [OF k] case_filter.listed_in_order
      case_filter.counters_add_up [of "map fst STATUS_CONFIG" cs]
    by (simp add: case_count_def [abs_def])
qed

theorem case_tiles_exact_witness:
  "length (filtered_cases [[(''status'', JStr ''open'')], [(''status'', JStr ''closed'')]]
     (fst (cases_step (StatusTile ''closed'') init_cases))) = 1"
proof -
  have "cases_search init_cases = []" "statusFilt init_cases = []"
    "''closed'' \<in> set (map fst STATUS_CONFIG)"
    by (simp_all add: init_cases_def STATUS_CONFIG_def)
  from case_tiles_exact [OF this, of "[[(''status'', JStr ''open'')], [(''status'', JStr ''closed'')]]"]
  show ?thesis by (simp add: case_count_def)
qed

text \<open>A click on the list changes a case's status only along open, in progress, resolved: it sends
  an update only for a listed case, to in progress from open and to resolved from in progress.\<close>

theorem case_status_advances:
  assumes "e \<in> set (page_clicks (cases_view isLoading isPending templates cs s))"
    and "CaseCall (UpdateCase i d) \<in> set (calls_of (snd (cases_step e s)))"
  shows "\<exists>c \<in> set (filtered_cases cs s). i = row_id c \<and>
     (fld c ''status'' = JStr ''open'' \<and> d = status_body ''in_progress'' \<or>
      fld c ''status'' = JStr ''in_progress'' \<and> d = status_body ''resolved'')"
  using assms
  by (auto simp: clicks_cases_view clicks_tiles clicks_create_panel clicks_case_row split: if_splits)

theorem case_status_advances_witness:
  "\<exists>c \<in> set (filtered_cases [[(''id'', JStr ''a''), (''status'', JStr ''open'')]] init_cases). row_id c = ''a''"
  using case_status_advances [of "StartCase [(''id'', JStr ''a''), (''status'', JStr ''open'')]" False False "[]"
      "[[(''id'', JStr ''a''), (''status'', JStr ''open'')]]" init_cases "''a''" "status_body ''in_progress''"]
  by (auto simp: clicks_cases_view clicks_case_row filtered_cases_def init_cases_def case_matches_def
      row_id_def)

text \<open>A case is created only from the open panel, with a title, and while no creation is running; the
  request carries the four fields of the panel, the template as null when none was chosen.\<close>

theorem case_creation_guarded:
  assumes "e \<in> set (page_clicks (cases_view isLoading isPending templates cs s))"
    and "CaseCall (CreateCase d) \<in> set (calls_of (snd (cases_step e s)))"
  shows "creating s \<and> \<not> isPending \<and> form_title (new_case s) \<noteq> [] \<and>
     (\<exists>r. d = JObj r \<and> fld r ''title'' = JStr (form_title (new_case s)) \<and>
        fld r ''description'' = JStr (form_description (new_case s)) \<and>
        fld r ''priority'' = JStr (form_priority (new_case s)) \<and>
        fld r ''template'' = (if form_template (new_case s) = [] then JNull
                            else JStr (form_template (new_case s))))"
  using assms
  by (auto simp: clicks_cases_view clicks_tiles clicks_create_panel clicks_case_row case_body_def
      jor_def split: if_splits)

theorem case_creation_guarded_witness:
  "\<exists>r. case_body (blank_form\<lparr>form_title := ''x''\<rparr>) = JObj r \<and> fld r ''template'' = JNull"
  using case_creation_guarded [of SubmitCase False False "[]" "[]"
      "init_cases\<lparr>creating := True, new_case := blank_form\<lparr>form_title := ''x''\<rparr>\<rparr>"
      "case_body (blank_form\<lparr>form_title := ''x''\<rparr>)"]
  by (auto simp: clicks_cases_view clicks_create_panel blank_form_def)

text \<open>Cases that are pending, a status the case page offers, are in no tile of the list, and their
  badge reads Open.\<close>

theorem pending_case_untiled:
  assumes "fld c ''status'' = JStr ''pending''"
  shows "status_label c = ''Open'' \<and>
    (\<forall>k \<in> set (map fst STATUS_CONFIG). c \<notin> set (filtered_cases (c # cs) (init_cases\<lparr>statusFilt := k\<rparr>))) \<and>
    sum_list (map (case_count (c # cs)) (map fst STATUS_CONFIG)) =
      sum_list (map (case_count cs) (map fst STATUS_CONFIG))"
  using assms
  by (auto simp: status_label_def STATUS_CONFIG_def filtered_cases_def case_matches_def init_cases_def
      case_count_def)

theorem pending_case_untiled_witness:
  "status_label [(''status'', JStr ''pending'')] = ''Open''"
  using pending_case_untiled [of "[(''status'', JStr ''pending'')]" "[]"] by simp

end
