(* ===== verification/CaseDetail.thy ===== *)
theory CaseDetail
  imports Filters
begin

text \<open>
  The case page, \<open>frontend/src/pages/CaseDetail.tsx\<close>: its drafts and editors, its mutations with what
  they invalidate, the classification dialog that closing a case opens, the task status cycle, and the
  MITRE technique picker. What the queries hold, the route's id, the signed-in user and the pending
  flags of the mutations are the context \<open>case_ctx\<close> in which an event happens; it may change between
  two events, also to another case: the route keeps the component mounted.
\<close>

section \<open>Tables\<close>

definition STATUS_OPTIONS :: "string list" where
  "STATUS_OPTIONS = [''open'', ''in_progress'', ''pending'', ''resolved'', ''closed'']"
definition PRIORITY_KEYS :: "string list" where
  "PRIORITY_KEYS = [''critical'', ''high'', ''medium'', ''low'']"
definition TLP_KEYS :: "string list" where
  "TLP_KEYS = [''RED'', ''AMBER'', ''GREEN'', ''WHITE'']"
definition OBS_TYPES :: "string list" where
  "OBS_TYPES = [''ip'', ''domain'', ''hash'', ''url'', ''email'']"
definition TASK_STATUS_ORDER :: "string list" where
  "TASK_STATUS_ORDER = [''to_do'', ''in_progress'', ''done'']"
definition TASK_STATUS_LABEL :: "(string \<times> string) list" where
  "TASK_STATUS_LABEL = [(''to_do'', ''To do''), (''in_progress'', ''In progress''), (''done'', ''Done'')]"
definition CLASSIFICATION_LABEL :: "(string \<times> string) list" where
  "CLASSIFICATION_LABEL = [(''true_positive'', ''True positive''), (''false_positive'', ''False positive''),
     (''benign_positive'', ''Benign positive''), (''undetermined'', ''Undetermined''),
     (''security_testing'', ''Security testing''), (''other'', ''Other'')]"
definition CLASSIFICATION_OPTIONS :: "string list" where
  "CLASSIFICATION_OPTIONS = [''true_positive'', ''false_positive'', ''benign_positive'',
     ''undetermined'', ''security_testing'', ''other'']"
definition CLOSING_STATUSES :: "string list" where
  "CLOSING_STATUSES = [''resolved'', ''closed'']"
definition ASSET_TYPE_LABEL :: "(string \<times> string) list" where
  "ASSET_TYPE_LABEL = [(''server'', ''Server''), (''workstation'', ''Workstation''), (''laptop'', ''Laptop''),
     (''mobile'', ''Mobile''), (''network'', ''Network device''), (''cloud'', ''Cloud resource''), (''other'', ''Other'')]"
definition COMPROMISE_LABEL :: "(string \<times> string) list" where
  "COMPROMISE_LABEL = [(''unknown'', ''Unknown''), (''investigating'', ''Investigating''),
     (''compromised'', ''Compromised''), (''clean'', ''Clean'')]"
definition CASE_TABS :: "(string \<times> string) list" where
  "CASE_TABS = [(''overview'', ''Overview''), (''timeline'', ''Timeline''), (''alerts'', ''Alerts''),
     (''iocs'', ''IOCs''), (''assets'', ''Assets''), (''evidence'', ''Evidence''), (''tasks'', ''Tasks''),
     (''notes'', ''Notes''), (''comments'', ''Comments'')]"

section \<open>State, context and events\<close>

datatype case_mutation =
    UpdateCaseM | AddTimelineM | AddCommentM | UpdateCommentM | AddObsM | UpdateObsM | DeleteObsM
  | CorrelateM | CreateTaskM | UpdateTaskM | DeleteTaskM | CreateAssetM | UpdateAssetM | DeleteAssetM
  | CreateEvidenceM | UpdateEvidenceM | DeleteEvidenceM | CreateNoteM | UpdateNoteM | DeleteNoteM

record case_ctx =
  ctx_id :: string
  ctx_userId :: jsval
  ctx_fullName :: jsval
  ctx_case :: row
  ctx_timeline :: "row list"
  ctx_alerts :: "row list"
  ctx_observables :: "row list"
  ctx_tasks :: "row list"
  ctx_comments :: "row list"
  ctx_assets :: "row list"
  ctx_evidence :: "row list"
  ctx_notes :: "row list"
  ctx_mitre :: "row list"
  ctx_pending :: "case_mutation \<Rightarrow> bool"

record case_page =
  case_tab :: string
  noteDraft :: string
  mitreQuery :: string
  timelineMitre :: "jsval list"
  commentDraft :: string
  commentInternal :: bool
  obsForm :: row
  taskForm :: row
  assetForm :: row
  evidenceForm :: row
  noteForm :: row
  editingNoteId :: jsval
  editingNoteDraft :: row
  closingModal :: jsval
  classificationDraft :: string
  closureNoteDraft :: string
  editingObsId :: jsval
  editingObsDraft :: row
  expandedObsId :: jsval
  correlateResults :: row
  editingEvidenceId :: jsval
  editingEvidenceDraft :: row
  editingCommentId :: jsval
  editingCommentDraft :: string
  downloading :: bool
  reports_open :: nat

definition OBS_BLANK :: row where
  "OBS_BLANK = [(''obs_type'', JStr ''ip''), (''value'', JStr []), (''tlp'', JStr ''AMBER''), (''asset_id'', JStr [])]"
definition TASK_BLANK :: row where
  "TASK_BLANK = [(''title'', JStr []), (''due_date'', JStr [])]"
definition ASSET_BLANK :: row where
  "ASSET_BLANK = [(''name'', JStr []), (''asset_type'', JStr ''workstation''), (''ip_address'', JStr []),
     (''description'', JStr []), (''compromise_status'', JStr ''unknown'')]"
definition EVIDENCE_BLANK :: row where
  "EVIDENCE_BLANK = [(''filename'', JStr []), (''hash_sha256'', JStr []), (''description'', JStr []),
     (''custody_notes'', JStr [])]"
definition NOTE_BLANK :: row where
  "NOTE_BLANK = [(''title'', JStr []), (''content'', JStr [])]"

definition init_case_page :: case_page where
  "init_case_page = \<lparr>case_tab = ''overview'', noteDraft = [], mitreQuery = [], timelineMitre = [],
     commentDraft = [], commentInternal = True, obsForm = OBS_BLANK, taskForm = TASK_BLANK,
     assetForm = ASSET_BLANK, evidenceForm = EVIDENCE_BLANK, noteForm = NOTE_BLANK,
     editingNoteId = JNull, editingNoteDraft = NOTE_BLANK, closingModal = JNull,
     classificationDraft = ''true_positive'', closureNoteDraft = [], editingObsId = JNull,
     editingObsDraft = [(''value'', JStr []), (''description'', JStr [])], expandedObsId = JNull,
     correlateResults = [], editingEvidenceId = JNull,
     editingEvidenceDraft = [(''filename'', JStr []), (''description'', JStr []),
        (''hash_sha256'', JStr []), (''custody_notes'', JStr [])],
     editingCommentId = JNull, editingCommentDraft = [], downloading = False, reports_open = 0\<rparr>"

datatype header_event =
    PickStatus string | PickCasePriority string | PickTlp string | PickPap string
  | AssignMe | Unassign | BackToCases | GenerateReport | ReportDone bool
  | CancelClosing | PickClassification string | TypeClosureNote string | ConfirmClosing | ClosureSaved
  | CaseTab string | Succeeded case_mutation | UpdateFailed

datatype thread_event =
    TypeNote string | NoteEnter | LogNote | MitreQuery string | TagTechnique row | Untag jsval
  | TypeComment string | SetInternal bool | PostComment | EditComment row | TypeEditComment string
  | CancelComment | SaveComment row

datatype ioc_event =
    ObsField string string | AddObs | EditObs row | TypeObsValue string | CancelObs | SaveObs row
  | DeleteObs row | ToggleCorrelated row | OpenOther row | Correlated string jsval
  | AssetField string string | AddAsset | SetCompromise row string | DeleteAsset row

datatype work_event =
    EvidenceField string string | AddEvidence | EditEvidence row | EvidenceDraft string string
  | CancelEvidence | SaveEvidence row | DeleteEvidence row
  | TaskField string string | TaskEnter | AddTask | CycleTask row | DeleteTask row
  | NoteField string string | AddNote | EditNote row | NoteDraftField string string | CancelNote
  | SaveNote row | DeleteNote row

datatype case_event = Header header_event | Thread thread_event | Ioc ioc_event | Work work_event

section \<open>Handlers\<close>

definition form_str :: "row \<Rightarrow> string \<Rightarrow> string" where
  "form_str f k = js_string (fld f k)"

definition or_blank :: "row \<Rightarrow> string \<Rightarrow> jsval" where
  "or_blank r k = jor (fld r k) (JStr [])"

text \<open>\<open>TASK_STATUS_ORDER[(TASK_STATUS_ORDER.indexOf(t.status) + 1) % 3]\<close>, where \<open>indexOf\<close> is -1 when
  the status is not in the list.\<close>

fun indexOf :: "string list \<Rightarrow> jsval \<Rightarrow> int" where
  "indexOf [] v = - 1"
| "indexOf (x # xs) v = (if v = JStr x then 0 else (let i = indexOf xs v in if i < 0 then - 1 else i + 1))"

definition next_task_status :: "jsval \<Rightarrow> string" where
  "next_task_status st =
     TASK_STATUS_ORDER ! nat ((indexOf TASK_STATUS_ORDER st + 1) mod int (length TASK_STATUS_ORDER))"

definition case_key :: "string \<Rightarrow> string \<Rightarrow> api_call effect" where
  "case_key part i = Invalidate [JStr part, JStr i]"

definition invalidateCase :: "string \<Rightarrow> api_call effect list" where
  "invalidateCase i = [case_key ''case'' i, case_key ''case-timeline'' i, Invalidate [JStr ''cases'']]"

definition send_update :: "string \<Rightarrow> row \<Rightarrow> api_call effect list" where
  "send_update i changes = [Call (CaseCall (UpdateCase i (JObj changes)))]"

text \<open>The \<open>onSuccess\<close> of each mutation.\<close>

fun succeeded :: "string \<Rightarrow> case_mutation \<Rightarrow> case_page \<Rightarrow> case_page \<times> api_call effect list" where
  "succeeded i UpdateCaseM s = (s, invalidateCase i)"
| "succeeded i AddTimelineM s = (s\<lparr>noteDraft := [], timelineMitre := []\<rparr>, invalidateCase i)"
| "succeeded i AddCommentM s =
     (s\<lparr>commentDraft := []\<rparr>, [case_key ''case-comments'' i, case_key ''case-timeline'' i])"
| "succeeded i UpdateCommentM s = (s\<lparr>editingCommentId := JNull\<rparr>, [case_key ''case-comments'' i])"
| "succeeded i AddObsM s =
     (s\<lparr>obsForm := OBS_BLANK\<rparr>, [case_key ''case-observables'' i, case_key ''case-timeline'' i,
        ToastOk (''Observable added '' @ mdash @ '' enrichment queued'')])"
| "succeeded i UpdateObsM s = (s\<lparr>editingObsId := JNull\<rparr>, [case_key ''case-observables'' i])"
| "succeeded i DeleteObsM s = (s, [case_key ''case-observables'' i])"
| "succeeded i CorrelateM s = (s, [])"
| "succeeded i CreateTaskM s =
     (s\<lparr>taskForm := TASK_BLANK\<rparr>, [case_key ''case-tasks'' i, case_key ''case-timeline'' i])"
| "succeeded i UpdateTaskM s = (s, [case_key ''case-tasks'' i, case_key ''case-timeline'' i])"
| "succeeded i DeleteTaskM s = (s, [case_key ''case-tasks'' i])"
| "succeeded i CreateAssetM s =
     (s\<lparr>assetForm := ASSET_BLANK\<rparr>, [case_key ''case-assets'' i, case_key ''case-timeline'' i])"
| "succeeded i UpdateAssetM s = (s, [case_key ''case-assets'' i, case_key ''case-timeline'' i])"
| "succeeded i DeleteAssetM s = (s, [case_key ''case-assets'' i])"
| "succeeded i CreateEvidenceM s =
     (s\<lparr>evidenceForm := EVIDENCE_BLANK\<rparr>, [case_key ''case-evidence'' i, case_key ''case-timeline'' i])"
| "succeeded i UpdateEvidenceM s = (s\<lparr>editingEvidenceId := JNull\<rparr>, [case_key ''case-evidence'' i])"
| "succeeded i DeleteEvidenceM s = (s, [case_key ''case-evidence'' i])"
| "succeeded i CreateNoteM s =
     (s\<lparr>noteForm := NOTE_BLANK\<rparr>, [case_key ''case-notes'' i, case_key ''case-timeline'' i])"
| "succeeded i UpdateNoteM s = (s\<lparr>editingNoteId := JNull\<rparr>, [case_key ''case-notes'' i])"
| "succeeded i DeleteNoteM s = (s, [case_key ''case-notes'' i])"

text \<open>The header, the closing dialog and the report.\<close>

fun header_step ::
  "case_ctx \<Rightarrow> header_event \<Rightarrow> case_page \<Rightarrow> case_page \<times> api_call effect list" where
  "header_step cx (PickStatus next) s =
     (if next \<in> set CLOSING_STATUSES \<and> \<not> truthy (fld (ctx_case cx) ''classification'')
      then (s\<lparr>classificationDraft := ''true_positive'', closureNoteDraft := [], closingModal := JStr next\<rparr>, [])
      else (s, send_update (ctx_id cx) [(''status'', JStr next)]))"
| "header_step cx (PickCasePriority p) s = (s, send_update (ctx_id cx) [(''priority'', JStr p)])"
| "header_step cx (PickTlp t) s = (s, send_update (ctx_id cx) [(''tlp'', JStr t)])"
| "header_step cx (PickPap t) s = (s, send_update (ctx_id cx) [(''pap'', JStr t)])"
| "header_step cx AssignMe s = (s, send_update (ctx_id cx) [(''assigned_to'', ctx_userId cx)])"
| "header_step cx Unassign s = (s, send_update (ctx_id cx) [(''assigned_to'', JNull)])"
| "header_step cx BackToCases s = (s, [Navigate ''/cases''])"
| "header_step cx GenerateReport s =
     (s\<lparr>downloading := True, reports_open := Suc (reports_open s)\<rparr>,
      [Call (CaseCall (DownloadCaseReport (ctx_id cx)))])"
| "header_step cx (ReportDone ok) s =
     (s\<lparr>downloading := False, reports_open := reports_open s - 1\<rparr>,
      if ok then [] else [ToastErr (JStr ''Failed to generate report'')])"
| "header_step cx CancelClosing s = (s\<lparr>closingModal := JNull\<rparr>, [])"
| "header_step cx (PickClassification v) s = (s\<lparr>classificationDraft := v\<rparr>, [])"
| "header_step cx (TypeClosureNote v) s = (s\<lparr>closureNoteDraft := v\<rparr>, [])"
| "header_step cx ConfirmClosing s =
     (s, send_update (ctx_id cx)
        [(''status'', closingModal s), (''classification'', JStr (classificationDraft s)),
         (''closure_note'', jor (JStr (closureNoteDraft s)) JNull)])"
| "header_step cx ClosureSaved s = (s\<lparr>closingModal := JNull\<rparr>, invalidateCase (ctx_id cx))"
| "header_step cx UpdateFailed s = (s, [ToastErr (JStr ''Failed to update case'')])"
| "header_step cx (Succeeded m) s = succeeded (ctx_id cx) m s"
| "header_step cx (CaseTab k) s =
     (s\<lparr>case_tab := k, mitreQuery := (if k = case_tab s then mitreQuery s else [])\<rparr>, [])"

text \<open>The timeline and the comments.\<close>

definition log_note :: "case_ctx \<Rightarrow> case_page \<Rightarrow> api_call effect list" where
  "log_note cx s = [Call (CaseCall (AddTimelineEvent (ctx_id cx) (trim (noteDraft s))
     (Some (map js_string (timelineMitre s)))))]"

fun thread_step ::
  "case_ctx \<Rightarrow> thread_event \<Rightarrow> case_page \<Rightarrow> case_page \<times> api_call effect list" where
  "thread_step cx (TypeNote v) s = (s\<lparr>noteDraft := v\<rparr>, [])"
| "thread_step cx NoteEnter s = (s, if trim (noteDraft s) \<noteq> [] then log_note cx s else [])"
| "thread_step cx LogNote s = (s, log_note cx s)"
| "thread_step cx (MitreQuery v) s = (s\<lparr>mitreQuery := v\<rparr>, [])"
| "thread_step cx (TagTechnique t) s =
     (s\<lparr>timelineMitre := timelineMitre s @ [fld t ''id''], mitreQuery := []\<rparr>, [])"
| "thread_step cx (Untag tid) s =
     (s\<lparr>timelineMitre := filter (\<lambda>x. x \<noteq> tid) (timelineMitre s)\<rparr>, [])"
| "thread_step cx (TypeComment v) s = (s\<lparr>commentDraft := v\<rparr>, [])"
| "thread_step cx (SetInternal b) s = (s\<lparr>commentInternal := b\<rparr>, [])"
| "thread_step cx PostComment s =
     (s, [Call (CaseCall (AddComment (ctx_id cx) (commentDraft s) (Some (commentInternal s))))])"
| "thread_step cx (EditComment cm) s =
     (s\<lparr>editingCommentId := fld cm ''id'', editingCommentDraft := js_string (fld cm ''content'')\<rparr>, [])"
| "thread_step cx (TypeEditComment v) s = (s\<lparr>editingCommentDraft := v\<rparr>, [])"
| "thread_step cx CancelComment s = (s\<lparr>editingCommentId := JNull\<rparr>, [])"
| "thread_step cx (SaveComment cm) s =
     (s, [Call (CaseCall (UpdateComment (ctx_id cx) (row_id cm) (editingCommentDraft s)))])"

text \<open>Observables and assets.\<close>

fun ioc_step ::
  "case_ctx \<Rightarrow> ioc_event \<Rightarrow> case_page \<Rightarrow> case_page \<times> api_call effect list" where
  "ioc_step cx (ObsField k v) s = (s\<lparr>obsForm := upd (obsForm s) k (JStr v)\<rparr>, [])"
| "ioc_step cx AddObs s =
     (s, [Call (CaseCall (AddObservable (ctx_id cx)
        (JObj (upd (obsForm s) ''asset_id'' (jor (fld (obsForm s) ''asset_id'') JNull)))))])"
| "ioc_step cx (EditObs ob) s =
     (s\<lparr>editingObsId := fld ob ''id'',
        editingObsDraft := [(''value'', fld ob ''value''), (''description'', or_blank ob ''description'')]\<rparr>, [])"
| "ioc_step cx (TypeObsValue v) s = (s\<lparr>editingObsDraft := upd (editingObsDraft s) ''value'' (JStr v)\<rparr>, [])"
| "ioc_step cx CancelObs s = (s\<lparr>editingObsId := JNull\<rparr>, [])"
| "ioc_step cx (SaveObs ob) s =
     (s, [Call (CaseCall (UpdateObservable (ctx_id cx) (row_id ob)
        (JObj [(''value'', fld (editingObsDraft s) ''value'')])))])"
| "ioc_step cx (DeleteObs ob) s = (s, [Call (CaseCall (DeleteObservable (ctx_id cx) (row_id ob)))])"
| "ioc_step cx (ToggleCorrelated ob) s =
     (if expandedObsId s = fld ob ''id'' then (s\<lparr>expandedObsId := JNull\<rparr>, [])
      else (s\<lparr>expandedObsId := fld ob ''id''\<rparr>,
            if truthy (fld (correlateResults s) (row_id ob)) then []
            else [Call (CaseCall (CorrelateObservable (ctx_id cx) (row_id ob)))]))"
| "ioc_step cx (Correlated obsId data) s =
     (s\<lparr>correlateResults := upd (correlateResults s) obsId data\<rparr>, [])"
| "ioc_step cx (OpenOther cc) s = (s, [Navigate (''/cases/'' @ js_string (fld cc ''case_id''))])"
| "ioc_step cx (AssetField k v) s = (s\<lparr>assetForm := upd (assetForm s) k (JStr v)\<rparr>, [])"
| "ioc_step cx AddAsset s =
     (s, [Call (CaseCall (CreateCaseAsset (ctx_id cx)
        (JObj (upd (assetForm s) ''ip_address'' (jor (fld (assetForm s) ''ip_address'') JNull)))))])"
| "ioc_step cx (SetCompromise a v) s =
     (s, [Call (CaseCall (UpdateCaseAsset (ctx_id cx) (row_id a) (JObj [(''compromise_status'', JStr v)])))])"
| "ioc_step cx (DeleteAsset a) s = (s, [Call (CaseCall (DeleteCaseAsset (ctx_id cx) (row_id a)))])"

text \<open>Evidence, tasks and notes.\<close>

definition create_task :: "case_ctx \<Rightarrow> case_page \<Rightarrow> api_call effect list" where
  "create_task cx s = [Call (CaseCall (CreateCaseTask (ctx_id cx)
     (JObj [(''title'', fld (taskForm s) ''title''),
            (''due_date'', jor (fld (taskForm s) ''due_date'') JNull)])))]"

fun work_step ::
  "case_ctx \<Rightarrow> work_event \<Rightarrow> case_page \<Rightarrow> case_page \<times> api_call effect list" where
  "work_step cx (EvidenceField k v) s = (s\<lparr>evidenceForm := upd (evidenceForm s) k (JStr v)\<rparr>, [])"
| "work_step cx AddEvidence s =
     (s, [Call (CaseCall (CreateCaseEvidence (ctx_id cx)
        (JObj (upd (evidenceForm s) ''hash_sha256'' (jor (fld (evidenceForm s) ''hash_sha256'') JNull)))))])"
| "work_step cx (EditEvidence ev) s =
     (s\<lparr>editingEvidenceId := fld ev ''id'',
        editingEvidenceDraft := [(''filename'', fld ev ''filename''), (''description'', or_blank ev ''description''),
          (''hash_sha256'', or_blank ev ''hash_sha256''), (''custody_notes'', or_blank ev ''custody_notes'')]\<rparr>, [])"
| "work_step cx (EvidenceDraft k v) s =
     (s\<lparr>editingEvidenceDraft := upd (editingEvidenceDraft s) k (JStr v)\<rparr>, [])"
| "work_step cx CancelEvidence s = (s\<lparr>editingEvidenceId := JNull\<rparr>, [])"
| "work_step cx (SaveEvidence ev) s =
     (s, [Call (CaseCall (UpdateCaseEvidence (ctx_id cx) (row_id ev) (JObj (editingEvidenceDraft s))))])"
| "work_step cx (DeleteEvidence ev) s = (s, [Call (CaseCall (DeleteCaseEvidence (ctx_id cx) (row_id ev)))])"
| "work_step cx (TaskField k v) s = (s\<lparr>taskForm := upd (taskForm s) k (JStr v)\<rparr>, [])"
| "work_step cx TaskEnter s =
     (s, if trim (form_str (taskForm s) ''title'') \<noteq> [] then create_task cx s else [])"
| "work_step cx AddTask s = (s, create_task cx s)"
| "work_step cx (CycleTask t) s =
     (s, [Call (CaseCall (UpdateCaseTask (ctx_id cx) (row_id t)
        (JObj [(''status'', JStr (next_task_status (fld t ''status'')))])))])"
| "work_step cx (DeleteTask t) s = (s, [Call (CaseCall (DeleteCaseTask (ctx_id cx) (row_id t)))])"
| "work_step cx (NoteField k v) s = (s\<lparr>noteForm := upd (noteForm s) k (JStr v)\<rparr>, [])"
| "work_step cx AddNote s = (s, [Call (CaseCall (CreateCaseNote (ctx_id cx) (JObj (noteForm s))))])"
| "work_step cx (EditNote n) s =
     (s\<lparr>editingNoteId := fld n ''id'',
        editingNoteDraft := [(''title'', fld n ''title''), (''content'', fld n ''content'')]\<rparr>, [])"
| "work_step cx (NoteDraftField k v) s = (s\<lparr>editingNoteDraft := upd (editingNoteDraft s) k (JStr v)\<rparr>, [])"
| "work_step cx CancelNote s = (s\<lparr>editingNoteId := JNull\<rparr>, [])"
| "work_step cx (SaveNote n) s =
     (s, [Call (CaseCall (UpdateCaseNote (ctx_id cx) (row_id n) (JObj (editingNoteDraft s))))])"
| "work_step cx (DeleteNote n) s = (s, [Call (CaseCall (DeleteCaseNote (ctx_id cx) (row_id n)))])"

fun case_step :: "case_ctx \<Rightarrow> case_event \<Rightarrow> case_page \<Rightarrow> case_page \<times> api_call effect list" where
  "case_step cx (Header e) s = header_step cx e s"
| "case_step cx (Thread e) s = thread_step cx e s"
| "case_step cx (Ioc e) s = ioc_step cx e s"
| "case_step cx (Work e) s = work_step cx e s"

section \<open>The rendered page\<close>

definition option_list :: "string list \<Rightarrow> (string \<times> string) list" where
  "option_list ks = map (\<lambda>k. (k, k)) ks"

definition spaced :: "string \<Rightarrow> string" where
  "spaced s = replace_first (CHR ''_'') (CHR '' '') s"

definition isMine :: "case_ctx \<Rightarrow> bool" where
  "isMine cx \<longleftrightarrow> fld (ctx_case cx) ''assigned_to'' = ctx_userId cx"

definition header_view :: "case_ctx \<Rightarrow> case_page \<Rightarrow> case_event ui list" where
  "header_view cx s =
     (let c = ctx_case cx; f = (\<lambda>k. js_string (fld c k)) in
      [Btn ''Back to cases'' False (Header BackToCases),
       Btn (if downloading s then ''Generating'' @ ellipsis else ''Generate report'') (downloading s)
         (Header GenerateReport),
       Txt (CHR ''#'' # f ''case_number''), Val (fld c ''priority''), Val (fld c ''title'')] @
      shown (truthy (fld c ''description'')) [Val (fld c ''description'')] @
      [Select (f ''status'') (map (\<lambda>k. (k, spaced k)) STATUS_OPTIONS) (\<lambda>v. Header (PickStatus v)),
       Select (f ''priority'') (option_list PRIORITY_KEYS) (\<lambda>v. Header (PickCasePriority v)),
       Txt ''Assignee'', Val (jor (fld c ''assignee_name'') (JStr ''Unassigned'')),
       (if isMine cx then Btn ''Unassign'' False (Header Unassign)
        else Btn (if truthy (fld c ''assigned_to'') then ''Take over'' else ''Assign to me'') False
               (Header AssignMe)),
       Txt ''TLP'', Select (f ''tlp'') (option_list TLP_KEYS) (\<lambda>v. Header (PickTlp v)),
       Txt ''PAP'', Select (f ''pap'') (option_list TLP_KEYS) (\<lambda>v. Header (PickPap v)),
       Txt ''Opened'', Val (fld c ''created_at'')] @
      shown (truthy (fld c ''closed_at'')) [Txt ''Closed'', Val (fld c ''closed_at'')] @
      shown (truthy (fld c ''classification''))
        [Txt ''Classification'', Val (label_of CLASSIFICATION_LABEL (fld c ''classification''))] @
      shown (as_list (fld c ''tags'') \<noteq> []) [Txt ''Tags'', Box (map Val (as_list (fld c ''tags'')))])"

definition closing_view :: "case_ctx \<Rightarrow> case_page \<Rightarrow> case_event ui list" where
  "closing_view cx s = shown (truthy (closingModal s))
     [Clickable (Header CancelClosing)
      [Txt (''Classify before '' @ (if closingModal s = JStr ''closed'' then ''closing'' else ''resolving'')),
      Txt (''Every case needs a verdict when it'' @ CHR 0x27 # ''s resolved or closed.''),
      Txt ''Classification'',
      Select (classificationDraft s)
        (map (\<lambda>k. (k, js_string (label_of CLASSIFICATION_LABEL (JStr k)))) CLASSIFICATION_OPTIONS)
        (\<lambda>v. Header (PickClassification v)),
      Txt ''Closure note (optional)'',
      Field (''Why this verdict '' @ mdash @ '' root cause, remediation taken, etc.'') (closureNoteDraft s) False
        (\<lambda>v. Header (TypeClosureNote v)),
      Btn ''Cancel'' False (Header CancelClosing),
      Btn (''Confirm '' @ (if closingModal s = JStr ''closed'' then ''close'' else ''resolve''))
        (ctx_pending cx UpdateCaseM) (Header ConfirmClosing)]]"

definition tab_count :: "case_ctx \<Rightarrow> string \<Rightarrow> nat option" where
  "tab_count cx = map_of
     [(''alerts'', length (ctx_alerts cx)), (''iocs'', length (ctx_observables cx)),
      (''assets'', length (ctx_assets cx)), (''evidence'', length (ctx_evidence cx)),
      (''tasks'', length (ctx_tasks cx)), (''notes'', length (ctx_notes cx)),
      (''comments'', length (ctx_comments cx))]"

definition tabs_view :: "case_ctx \<Rightarrow> case_event ui list" where
  "tabs_view cx = map (\<lambda>(k, l). Clickable (Header (CaseTab k))
     (Txt l # (case tab_count cx k of Some n \<Rightarrow> shown (0 < n) [Txt (nat_dec n)] | None \<Rightarrow> []))) CASE_TABS"

definition overview_view :: "case_ctx \<Rightarrow> case_event ui list" where
  "overview_view cx =
     [Txt ''Case summary'',
      Val (jor (fld (ctx_case cx) ''summary'')
             (jor (fld (ctx_case cx) ''description'') (JStr ''No summary yet.'')))]"

text \<open>The technique picker: at most six techniques that match the query and are not yet selected.\<close>

definition picker_matches :: "row list \<Rightarrow> jsval list \<Rightarrow> string \<Rightarrow> row list" where
  "picker_matches techniques selected q =
     (if trim q \<noteq> []
      then take 6 (filter (\<lambda>t. fld t ''id'' \<notin> set selected \<and>
             (str_includes (to_lower (js_string (fld t ''id''))) (to_lower q) \<or>
              str_includes (to_lower (js_string (fld t ''name''))) (to_lower q))) techniques)
      else [])"

definition mitre_picker :: "row list \<Rightarrow> case_page \<Rightarrow> case_event ui list" where
  "mitre_picker techniques s =
     map (\<lambda>tid. Box
       [Txt (js_string tid @
          (case List.find (\<lambda>t. fld t ''id'' = tid) techniques of
             Some t \<Rightarrow> '' '' @ middot @ '' '' @ js_string (fld t ''name'') | None \<Rightarrow> [])),
        Btn ''Remove'' False (Thread (Untag tid))]) (timelineMitre s) @
     [Field (''Tag MITRE ATT&CK technique'' @ ellipsis @ '' (e.g. T1059)'') (mitreQuery s) False
        (\<lambda>v. Thread (MitreQuery v))] @
     map (\<lambda>t. Clickable (Thread (TagTechnique t))
       [Val (fld t ''id''), Val (fld t ''name''), Val (fld t ''tactic'')])
       (picker_matches techniques (timelineMitre s) (mitreQuery s))"

definition timeline_view :: "case_ctx \<Rightarrow> case_page \<Rightarrow> case_event ui list" where
  "timeline_view cx s =
     [Txt ''Investigation timeline'',
      Field (''Log an investigation step'' @ ellipsis) (noteDraft s) False (\<lambda>v. Thread (TypeNote v)),
      Btn ''Log'' (trim (noteDraft s) = [] \<or> ctx_pending cx AddTimelineM) (Thread LogNote)] @
     mitre_picker (ctx_mitre cx) s @
     shown (ctx_timeline cx = []) [Txt ''No events logged yet''] @
     map (\<lambda>e. Box ([Val (fld e ''description''), Val (fld e ''actor''),
                   Val (jor (fld e ''timestamp'') (JStr []))] @
                  map Val (as_list (fld e ''mitre_techniques'')))) (rev (ctx_timeline cx))"

definition case_alerts_view :: "case_ctx \<Rightarrow> case_event ui list" where
  "case_alerts_view cx = Txt ''Linked alerts'' #
     (if ctx_alerts cx = [] then [Txt ''No alerts linked to this case'']
      else map Txt [''Severity'', ''Rule'', ''Status'', ''Agent'', ''Time''] @
        map (\<lambda>a. Box [Val (fld a ''severity''),
               Val (jor (fld a ''rule_name'') (jor (fld a ''description'') (JStr mdash))),
               Val (case fld a ''status'' of JStr v \<Rightarrow> JStr (spaced v) | v \<Rightarrow> v),
               Val (jor (fld a ''agent_name'') (JStr mdash)), Val (fld a ''alert_time'')]) (ctx_alerts cx))"

definition verdict :: "row \<Rightarrow> string" where
  "verdict ob =
     (if truthy (opt_fld (opt_fld (fld ob ''enrichment'') ''verdict'') ''malicious'') then ''malicious''
      else if truthy (fld ob ''enrichment'') then ''clean'' else ''unknown'')"

definition positive :: "jsval \<Rightarrow> nat option" where
  "positive v = (case v of JNum n \<Rightarrow> if 0 < n then Some (nat n) else None | _ \<Rightarrow> None)"

definition obs_row :: "case_ctx \<Rightarrow> case_page \<Rightarrow> row \<Rightarrow> case_event ui" where
  "obs_row cx s ob =
     (let isEditing = (editingObsId s = fld ob ''id''); isExpanded = (expandedObsId s = fld ob ''id'');
          others = fld (correlateResults s) (row_id ob) in
      Box ([Val (fld ob ''obs_type'')] @
        (if isEditing
         then [Field [] (form_str (editingObsDraft s) ''value'') False (\<lambda>v. Ioc (TypeObsValue v))]
         else [Val (fld ob ''value''), Val (fld ob ''tlp'')]) @
        [Val (jor (fld ob ''asset_name'') (JStr mdash)), Txt (verdict ob)] @
        (case positive (fld ob ''correlated_count'') of
           Some n \<Rightarrow> [Btn (nat_dec n @ '' other case'' @ (if 1 < n then ''s'' else [])) False (Ioc (ToggleCorrelated ob))]
         | None \<Rightarrow> [Txt mdash]) @
        (if isEditing then [Btn ''Cancel'' False (Ioc CancelObs), Btn ''Save'' False (Ioc (SaveObs ob))]
         else [Btn ''Edit'' False (Ioc (EditObs ob)), Btn ''Delete'' False (Ioc (DeleteObs ob))]) @
        shown isExpanded
          (if ctx_pending cx CorrelateM \<and> \<not> truthy others then [Txt (''Looking up other cases'' @ ellipsis)]
           else map (\<lambda>cc. Btn (CHR ''#'' # js_string (opt_fld cc ''case_number'') @ '' '' @ mdash @ '' '' @
                            js_string (opt_fld cc ''title'') @ ''('' @ js_string (opt_fld cc ''status'') @ '')'') False (Ioc (OpenOther (as_row cc))))
                  (as_list others))))"

definition iocs_view :: "case_ctx \<Rightarrow> case_page \<Rightarrow> case_event ui list" where
  "iocs_view cx s =
     (let f = form_str (obsForm s); set_field = (\<lambda>k v. Ioc (ObsField k v)) in
      [Txt ''Observables / IOCs'',
       Select (f ''obs_type'') (option_list OBS_TYPES) (set_field ''obs_type''),
       Field ''Value (e.g. 185.220.101.42)'' (f ''value'') False (set_field ''value''),
       Select (f ''tlp'') (option_list TLP_KEYS) (set_field ''tlp''),
       Select (f ''asset_id'')
         (([], ''No linked asset'') # map (\<lambda>a. (row_id a, js_string (fld a ''name''))) (ctx_assets cx))
         (set_field ''asset_id''),
       Btn ''Add'' (trim (f ''value'') = [] \<or> ctx_pending cx AddObsM) (Ioc AddObs)] @
      (if ctx_observables cx = [] then [Txt ''No observables yet'']
       else map Txt [''Type'', ''Value'', ''TLP'', ''Asset'', ''Verdict'', ''Seen elsewhere''] @
         map (obs_row cx s) (ctx_observables cx)))"

definition asset_row :: "row \<Rightarrow> case_event ui" where
  "asset_row a = Box
     [Val (fld a ''name''), Val (label_of ASSET_TYPE_LABEL (fld a ''asset_type'')),
      Txt (js_string (jor (fld a ''ip_address'') (JStr ''No IP'')) @
           (if truthy (fld a ''description'')
            then '' '' @ middot @ '' '' @ js_string (fld a ''description'') else [])),
      Select (js_string (fld a ''compromise_status'')) COMPROMISE_LABEL (\<lambda>v. Ioc (SetCompromise a v)),
      Btn ''Delete'' False (Ioc (DeleteAsset a))]"

definition assets_view :: "case_ctx \<Rightarrow> case_page \<Rightarrow> case_event ui list" where
  "assets_view cx s =
     (let f = form_str (assetForm s); set_field = (\<lambda>k v. Ioc (AssetField k v)) in
      [Txt ''Assets'',
       Field ''Hostname / asset name'' (f ''name'') False (set_field ''name''),
       Select (f ''asset_type'') ASSET_TYPE_LABEL (set_field ''asset_type''),
       Field ''IP address'' (f ''ip_address'') False (set_field ''ip_address''),
       Select (f ''compromise_status'') COMPROMISE_LABEL (set_field ''compromise_status''),
       Btn ''Add'' (trim (f ''name'') = [] \<or> ctx_pending cx CreateAssetM) (Ioc AddAsset)] @
      (if ctx_assets cx = [] then [Txt ''No assets tracked yet''] else map asset_row (ctx_assets cx)))"

definition evidence_row :: "case_page \<Rightarrow> row \<Rightarrow> case_event ui" where
  "evidence_row s ev =
     (let d = form_str (editingEvidenceDraft s); set_field = (\<lambda>k v. Work (EvidenceDraft k v)) in
      Box (if editingEvidenceId s = fld ev ''id''
        then [Field [] (d ''filename'') False (set_field ''filename''),
              Field [] (d ''hash_sha256'') False (set_field ''hash_sha256''),
              Field [] (d ''custody_notes'') False (set_field ''custody_notes''),
              Val (jor (fld ev ''acquired_by_name'') (JStr mdash)),
              Btn ''Cancel'' False (Work CancelEvidence), Btn ''Save'' False (Work (SaveEvidence ev))]
        else [Val (fld ev ''filename''), Val (jor (fld ev ''hash_sha256'') (JStr mdash)),
              Val (jor (fld ev ''custody_notes'') (JStr mdash)),
              Val (jor (fld ev ''acquired_by_name'') (JStr mdash)),
              Btn ''Edit'' False (Work (EditEvidence ev)), Btn ''Delete'' False (Work (DeleteEvidence ev))]))"

definition evidence_view :: "case_ctx \<Rightarrow> case_page \<Rightarrow> case_event ui list" where
  "evidence_view cx s =
     (let f = form_str (evidenceForm s); set_field = (\<lambda>k v. Work (EvidenceField k v)) in
      [Txt ''Evidence register'',
       Field ''Filename / exhibit name'' (f ''filename'') False (set_field ''filename''),
       Field ''SHA256 hash'' (f ''hash_sha256'') False (set_field ''hash_sha256''),
       Btn ''Add'' (trim (f ''filename'') = [] \<or> ctx_pending cx CreateEvidenceM) (Work AddEvidence)] @
      (if ctx_evidence cx = [] then [Txt ''No evidence registered yet'']
       else map Txt [''Filename'', ''SHA256'', ''Custody notes'', ''Acquired by''] @
         map (evidence_row s) (ctx_evidence cx)))"

definition task_row :: "row \<Rightarrow> case_event ui" where
  "task_row t = Box
     [Btn ''Cycle status'' False (Work (CycleTask t)), Val (fld t ''title''),
      Val (label_of TASK_STATUS_LABEL (fld t ''status'')),
      Txt (if truthy (fld t ''assignee_name'')
           then '' '' @ middot @ '' '' @ js_string (fld t ''assignee_name'') else []),
      Val (fld t ''due_date''), Btn ''Delete'' False (Work (DeleteTask t))]"

definition tasks_view :: "case_ctx \<Rightarrow> case_page \<Rightarrow> case_event ui list" where
  "tasks_view cx s =
     (let f = form_str (taskForm s); set_field = (\<lambda>k v. Work (TaskField k v)) in
      [Txt ''Tasks'', Field (''New task'' @ ellipsis) (f ''title'') False (set_field ''title''),
       Field ''date'' (f ''due_date'') False (set_field ''due_date''),
       Btn ''Add'' (trim (f ''title'') = [] \<or> ctx_pending cx CreateTaskM) (Work AddTask)] @
      (if ctx_tasks cx = [] then [Txt ''No tasks yet''] else map task_row (ctx_tasks cx)))"

definition note_row :: "case_page \<Rightarrow> row \<Rightarrow> case_event ui" where
  "note_row s n =
     (let d = form_str (editingNoteDraft s); set_field = (\<lambda>k v. Work (NoteDraftField k v)) in
      Box (if editingNoteId s = fld n ''id''
        then [Field [] (d ''title'') False (set_field ''title''),
              Field [] (d ''content'') False (set_field ''content''),
              Btn ''Cancel'' False (Work CancelNote), Btn ''Save'' False (Work (SaveNote n))]
        else [Val (fld n ''title''), Val (jor (fld n ''author_name'') (JStr ''Analyst'')),
              Val (fld n ''created_at''), Btn ''Edit'' False (Work (EditNote n)),
              Btn ''Delete'' False (Work (DeleteNote n)), Val (fld n ''content'')]))"

definition notes_view :: "case_ctx \<Rightarrow> case_page \<Rightarrow> case_event ui list" where
  "notes_view cx s =
     (let f = form_str (noteForm s); set_field = (\<lambda>k v. Work (NoteField k v)) in
      [Txt ''Investigation notes'',
       Field (''Note title'' @ ellipsis) (f ''title'') False (set_field ''title''),
       Field (''Write up findings, analysis, or investigation steps'' @ ellipsis) (f ''content'') False
         (set_field ''content''),
       Btn ''Add note'' (trim (f ''title'') = [] \<or> trim (f ''content'') = [] \<or> ctx_pending cx CreateNoteM)
         (Work AddNote)] @
      (if ctx_notes cx = [] then [Txt ''No notes yet''] else map (note_row s) (rev (ctx_notes cx))))"

definition comment_row :: "case_page \<Rightarrow> row \<Rightarrow> case_event ui" where
  "comment_row s cm = Box
     ([Val (jor (fld cm ''author_name'') (JStr ''Analyst'')), Val (fld cm ''created_at'')] @
      shown (truthy (fld cm ''updated_at'') \<and> fld cm ''updated_at'' \<noteq> fld cm ''created_at'') [Txt '' (edited)''] @
      shown (truthy (fld cm ''is_internal'')) [Txt ''internal''] @
      [Btn ''Edit'' False (Thread (EditComment cm))] @
      (if editingCommentId s = fld cm ''id''
       then [Field [] (editingCommentDraft s) False (\<lambda>v. Thread (TypeEditComment v)),
             Btn ''Cancel'' False (Thread CancelComment), Btn ''Save'' False (Thread (SaveComment cm))]
       else [Val (fld cm ''content'')]))"

definition comments_view :: "case_ctx \<Rightarrow> case_page \<Rightarrow> case_event ui list" where
  "comments_view cx s =
     [Txt ''Comments''] @
     shown (ctx_comments cx = []) [Txt ''No comments yet''] @
     map (comment_row s) (ctx_comments cx) @
     [Field (''Comment as '' @ js_string (jor (ctx_fullName cx) (JStr ''you'')) @ ellipsis) (commentDraft s) False
        (\<lambda>v. Thread (TypeComment v)),
      Checkbox ''Internal only'' (commentInternal s) (\<lambda>b. Thread (SetInternal b)),
      Btn ''Post comment'' (trim (commentDraft s) = [] \<or> ctx_pending cx AddCommentM) (Thread PostComment)]"

definition case_tab_view :: "case_ctx \<Rightarrow> case_page \<Rightarrow> case_event ui list" where
  "case_tab_view cx s =
     (if case_tab s = ''overview'' then overview_view cx
      else if case_tab s = ''timeline'' then timeline_view cx s
      else if case_tab s = ''alerts'' then case_alerts_view cx
      else if case_tab s = ''iocs'' then iocs_view cx s
      else if case_tab s = ''assets'' then assets_view cx s
      else if case_tab s = ''evidence'' then evidence_view cx s
      else if case_tab s = ''tasks'' then tasks_view cx s
      else if case_tab s = ''notes'' then notes_view cx s
      else if case_tab s = ''comments'' then comments_view cx s
      else [])"

definition case_view :: "bool \<Rightarrow> case_ctx \<Rightarrow> case_page \<Rightarrow> case_event ui list" where
  "case_view loaded cx s =
     (if \<not> loaded then [Txt (''Loading case'' @ ellipsis)]
      else header_view cx s @ closing_view cx s @ tabs_view cx @ case_tab_view cx s)"

text \<open>
  What can happen while the case is shown: what the page offers to click, the Enter key in the two
  inputs that handle it, typing, a choice among the options of a select, and the answers.
\<close>

definition case_allowed :: "case_ctx \<times> case_event \<Rightarrow> case_page \<Rightarrow> bool" where
  "case_allowed ce s =
     (case ce of (cx, e) \<Rightarrow>
       (case e of
          Header (PickStatus v) \<Rightarrow> v \<in> set STATUS_OPTIONS
        | Header (PickCasePriority v) \<Rightarrow> v \<in> set PRIORITY_KEYS
        | Header (PickTlp v) \<Rightarrow> v \<in> set TLP_KEYS
        | Header (PickPap v) \<Rightarrow> v \<in> set TLP_KEYS
        | Header (PickClassification v) \<Rightarrow> truthy (closingModal s) \<and> v \<in> set CLASSIFICATION_OPTIONS
        | Header (TypeClosureNote v) \<Rightarrow> truthy (closingModal s)
        | Header (ReportDone ok) \<Rightarrow> 0 < reports_open s
        | Header ClosureSaved \<Rightarrow> True
        | Header (Succeeded m) \<Rightarrow> True
        | Header UpdateFailed \<Rightarrow> True
        | Thread (TypeNote v) \<Rightarrow> case_tab s = ''timeline''
        | Thread NoteEnter \<Rightarrow> case_tab s = ''timeline''
        | Thread (MitreQuery v) \<Rightarrow> case_tab s = ''timeline''
        | Thread (TypeComment v) \<Rightarrow> case_tab s = ''comments''
        | Thread (SetInternal b) \<Rightarrow> case_tab s = ''comments''
        | Thread (TypeEditComment v) \<Rightarrow> case_tab s = ''comments''
        | Ioc (ObsField k v) \<Rightarrow> case_tab s = ''iocs''
        | Ioc (TypeObsValue v) \<Rightarrow> case_tab s = ''iocs''
        | Ioc (Correlated i d) \<Rightarrow> True
        | Ioc (AssetField k v) \<Rightarrow> case_tab s = ''assets''
        | Ioc (SetCompromise a v) \<Rightarrow> a \<in> set (ctx_assets cx) \<and> v \<in> set (map fst COMPROMISE_LABEL)
        | Work (EvidenceField k v) \<Rightarrow> case_tab s = ''evidence''
        | Work (EvidenceDraft k v) \<Rightarrow> case_tab s = ''evidence''
        | Work (TaskField k v) \<Rightarrow> case_tab s = ''tasks''
        | Work TaskEnter \<Rightarrow> case_tab s = ''tasks''
        | Work (NoteField k v) \<Rightarrow> case_tab s = ''notes''
        | Work (NoteDraftField k v) \<Rightarrow> case_tab s = ''notes''
        | _ \<Rightarrow> e \<in> set (page_clicks (case_view True cx s))))"

abbreviation case_next :: "case_ctx \<times> case_event \<Rightarrow> case_page \<Rightarrow> case_page" where
  "case_next ce s \<equiv> fst (case_step (fst ce) (snd ce) s)"

abbreviation case_reach :: "case_page \<Rightarrow> bool" where
  "case_reach \<equiv> reach (\<lambda>s. s = init_case_page) case_allowed case_next"


section \<open>Clicks\<close>

lemma clicks_header_view: "set (page_clicks (header_view cx s)) =
    {Header BackToCases, Header (if isMine cx then Unassign else AssignMe)} \<union>
    (if downloading s then {} else {Header GenerateReport})"
  by (auto simp: header_view_def Let_def)

lemma clicks_closing_view: "set (page_clicks (closing_view cx s)) =
    (if truthy (closingModal s)
     then {Header CancelClosing} \<union> (if ctx_pending cx UpdateCaseM then {} else {Header ConfirmClosing})
     else {})"
  by (auto simp: closing_view_def)

lemma clicks_tabs_view: "set (page_clicks (tabs_view cx)) = (\<lambda>k. Header (CaseTab k)) ` set (map fst CASE_TABS)"
proof -
  have n: "page_clicks (case n of None \<Rightarrow> [] | Some n \<Rightarrow> shown (0 < n) [Txt (nat_dec n)]) = []" for n
    by (cases n) auto
  show ?thesis unfolding tabs_view_def page_clicks_map split_beta clicks_Clickable page_clicks_simps clicks.simps
    by (auto simp: n)
qed

lemma clicks_overview: "page_clicks (overview_view cx) = []"
  by (simp add: overview_view_def)

lemma clicks_case_alerts: "page_clicks (case_alerts_view cx) = []"
  by (simp add: case_alerts_view_def page_clicks_def o_def del: page_clicks_simps)

lemma clicks_picker: "e \<in> set (page_clicks (mitre_picker ts s)) \<longleftrightarrow>
    (\<exists>tid \<in> set (timelineMitre s). e = Thread (Untag tid)) \<or>
    (\<exists>t \<in> set (picker_matches ts (timelineMitre s) (mitreQuery s)). e = Thread (TagTechnique t))"
  by (simp add: mitre_picker_def page_clicks_map)

lemma clicks_timeline: "e \<in> set (page_clicks (timeline_view cx s)) \<longleftrightarrow>
    e = Thread LogNote \<and> trim (noteDraft s) \<noteq> [] \<and> \<not> ctx_pending cx AddTimelineM \<or>
    e \<in> set (page_clicks (mitre_picker (ctx_mitre cx) s))"
  by (auto simp: timeline_view_def page_clicks_map)

definition obs_clicks :: "row \<Rightarrow> case_event set" where
  "obs_clicks ob = {Ioc CancelObs, Ioc (SaveObs ob), Ioc (EditObs ob), Ioc (DeleteObs ob),
     Ioc (ToggleCorrelated ob)} \<union> range (\<lambda>cc. Ioc (OpenOther cc))"

lemma clicks_obs_row: "set (clicks (obs_row cx s ob)) \<subseteq> obs_clicks ob"
  unfolding obs_row_def obs_clicks_def Let_def
  by (auto simp: page_clicks_map split: option.splits)

lemma clicks_iocs: "e \<in> set (page_clicks (iocs_view cx s)) \<Longrightarrow>
    e = Ioc AddObs \<and> trim (form_str (obsForm s) ''value'') \<noteq> [] \<and> \<not> ctx_pending cx AddObsM \<or>
    (\<exists>ob \<in> set (ctx_observables cx). e \<in> obs_clicks ob)"
  using clicks_obs_row by (force simp: iocs_view_def Let_def page_clicks_map split: if_splits)

lemma clicks_assets: "e \<in> set (page_clicks (assets_view cx s)) \<Longrightarrow>
    e = Ioc AddAsset \<and> trim (form_str (assetForm s) ''name'') \<noteq> [] \<and> \<not> ctx_pending cx CreateAssetM \<or>
    (\<exists>a \<in> set (ctx_assets cx). e = Ioc (DeleteAsset a))"
  by (auto simp: assets_view_def Let_def page_clicks_map asset_row_def split: if_splits)

lemma clicks_evidence: "e \<in> set (page_clicks (evidence_view cx s)) \<Longrightarrow>
    e = Work AddEvidence \<and> trim (form_str (evidenceForm s) ''filename'') \<noteq> [] \<and>
      \<not> ctx_pending cx CreateEvidenceM \<or>
    (\<exists>ev \<in> set (ctx_evidence cx). e \<in> {Work CancelEvidence, Work (SaveEvidence ev),
       Work (EditEvidence ev), Work (DeleteEvidence ev)})"
  by (auto simp: evidence_view_def Let_def page_clicks_map evidence_row_def split: if_splits)

lemma clicks_tasks: "e \<in> set (page_clicks (tasks_view cx s)) \<Longrightarrow>
    e = Work AddTask \<and> trim (form_str (taskForm s) ''title'') \<noteq> [] \<and> \<not> ctx_pending cx CreateTaskM \<or>
    (\<exists>t \<in> set (ctx_tasks cx). e = Work (CycleTask t) \<or> e = Work (DeleteTask t))"
  by (auto simp: tasks_view_def Let_def page_clicks_map task_row_def split: if_splits)

lemma clicks_notes: "e \<in> set (page_clicks (notes_view cx s)) \<Longrightarrow>
    e = Work AddNote \<and> trim (form_str (noteForm s) ''title'') \<noteq> [] \<and>
      trim (form_str (noteForm s) ''content'') \<noteq> [] \<and> \<not> ctx_pending cx CreateNoteM \<or>
    (\<exists>n \<in> set (ctx_notes cx). e \<in> {Work CancelNote, Work (SaveNote n), Work (EditNote n), Work (DeleteNote n)})"
  by (auto simp: notes_view_def Let_def page_clicks_map note_row_def split: if_splits)

lemma clicks_comments: "e \<in> set (page_clicks (comments_view cx s)) \<Longrightarrow>
    e = Thread PostComment \<and> trim (commentDraft s) \<noteq> [] \<and> \<not> ctx_pending cx AddCommentM \<or>
    (\<exists>cm \<in> set (ctx_comments cx). e \<in> {Thread (EditComment cm), Thread CancelComment, Thread (SaveComment cm)})"
  by (auto simp: comments_view_def page_clicks_map comment_row_def split: if_splits)

lemmas tab_clicks = clicks_overview clicks_case_alerts clicks_timeline clicks_picker

lemma clicks_case_view: "set (page_clicks (case_view True cx s)) =
    set (page_clicks (header_view cx s)) \<union> set (page_clicks (closing_view cx s)) \<union>
    set (page_clicks (tabs_view cx)) \<union> set (page_clicks (case_tab_view cx s))"
  by (auto simp: case_view_def)

text \<open>The clicks of a tab, by the kind of event they are.\<close>

lemma tab_click_cases:
  assumes "e \<in> set (page_clicks (case_tab_view cx s))"
  obtains (timeline) "e \<in> set (page_clicks (timeline_view cx s))"
    | (iocs) "e \<in> set (page_clicks (iocs_view cx s))"
    | (assets) "e \<in> set (page_clicks (assets_view cx s))"
    | (evidence) "e \<in> set (page_clicks (evidence_view cx s))"
    | (tasks) "e \<in> set (page_clicks (tasks_view cx s))"
    | (notelist) "e \<in> set (page_clicks (notes_view cx s))"
    | (comments) "e \<in> set (page_clicks (comments_view cx s))"
  using assms unfolding case_tab_view_def
  by (auto simp: clicks_overview clicks_case_alerts split: if_splits)

lemma tab_click_not_header: "Header h \<notin> set (page_clicks (case_tab_view cx s))"
proof
  assume "Header h \<in> set (page_clicks (case_tab_view cx s))"
  then show False
    by (cases rule: tab_click_cases)
      (auto simp: clicks_timeline clicks_picker obs_clicks_def dest!: clicks_iocs clicks_assets
        clicks_evidence clicks_tasks clicks_notes clicks_comments)
qed

lemma header_click_iff: "Header h \<in> set (page_clicks (case_view True cx s)) \<longleftrightarrow>
    h = BackToCases \<or> h = (if isMine cx then Unassign else AssignMe) \<or>
    (h = GenerateReport \<and> \<not> downloading s) \<or>
    (truthy (closingModal s) \<and> (h = CancelClosing \<or> h = ConfirmClosing \<and> \<not> ctx_pending cx UpdateCaseM)) \<or>
    (\<exists>k \<in> set (map fst CASE_TABS). h = CaseTab k)"
  by (auto simp: clicks_case_view clicks_header_view clicks_closing_view clicks_tabs_view
      tab_click_not_header)

text \<open>The guards of the buttons of the tabs.\<close>

lemma tab_click_guards:
  assumes "e \<in> set (page_clicks (case_tab_view cx s))"
  shows "(e = Thread LogNote \<longrightarrow> trim (noteDraft s) \<noteq> []) \<and>
    (e = Thread PostComment \<longrightarrow> trim (commentDraft s) \<noteq> []) \<and>
    (\<forall>t. e = Thread (TagTechnique t) \<longrightarrow>
       t \<in> set (picker_matches (ctx_mitre cx) (timelineMitre s) (mitreQuery s))) \<and>
    (e = Ioc AddObs \<longrightarrow> trim (form_str (obsForm s) ''value'') \<noteq> []) \<and>
    (e = Ioc AddAsset \<longrightarrow> trim (form_str (assetForm s) ''name'') \<noteq> []) \<and>
    (e = Work AddEvidence \<longrightarrow> trim (form_str (evidenceForm s) ''filename'') \<noteq> []) \<and>
    (e = Work AddTask \<longrightarrow> trim (form_str (taskForm s) ''title'') \<noteq> []) \<and>
    (e = Work AddNote \<longrightarrow> trim (form_str (noteForm s) ''title'') \<noteq> [] \<and>
       trim (form_str (noteForm s) ''content'') \<noteq> [])"
  using assms
  by (cases rule: tab_click_cases)
    (auto simp: clicks_timeline clicks_picker obs_clicks_def dest!: clicks_iocs
      clicks_assets clicks_evidence clicks_tasks clicks_notes clicks_comments)

lemma tab_event_click: "(\<And>h. e \<noteq> Header h) \<Longrightarrow>
    e \<in> set (page_clicks (case_view True cx s)) \<longleftrightarrow> e \<in> set (page_clicks (case_tab_view cx s))"
  by (auto simp: clicks_case_view clicks_header_view clicks_closing_view clicks_tabs_view split: if_splits)

section \<open>Closing a case\<close>

text \<open>The dialog is open for a closing status only, and its verdict is always one of the options.\<close>

definition dialog_ok :: "case_page \<Rightarrow> bool" where
  "dialog_ok s \<longleftrightarrow> (closingModal s = JNull \<or> closingModal s \<in> JStr ` set CLOSING_STATUSES) \<and>
     classificationDraft s \<in> set CLASSIFICATION_OPTIONS"

lemma verdict_option: "''true_positive'' \<in> set CLASSIFICATION_OPTIONS"
  by (simp add: CLASSIFICATION_OPTIONS_def)

lemma succeeded_dialog: "dialog_ok (fst (succeeded i m s)) = dialog_ok s"
  by (cases m) (simp_all add: dialog_ok_def)

lemma thread_dialog: "dialog_ok (fst (thread_step cx e s)) = dialog_ok s"
  by (cases e) (simp_all add: dialog_ok_def)

lemma ioc_dialog: "dialog_ok (fst (ioc_step cx e s)) = dialog_ok s"
  by (cases e) (simp_all add: dialog_ok_def)

lemma work_dialog: "dialog_ok (fst (work_step cx e s)) = dialog_ok s"
  by (cases e) (simp_all add: dialog_ok_def)

lemma header_dialog:
  "dialog_ok s \<Longrightarrow> case_allowed (cx, Header e) s \<Longrightarrow> dialog_ok (fst (header_step cx e s))"
  by (cases e) (auto simp: succeeded_dialog, auto simp: dialog_ok_def verdict_option case_allowed_def)

lemma case_step_dialog:
  assumes "dialog_ok s" "case_allowed ce s"
  shows "dialog_ok (case_next ce s)"
proof -
  obtain cx e where ce: "ce = (cx, e)" by (cases ce)
  show ?thesis using assms unfolding ce
    by (cases e) (simp_all add: header_dialog thread_dialog ioc_dialog work_dialog)
qed

lemma dialog_always_ok: "case_reach s \<Longrightarrow> dialog_ok s"
  by (erule reach_invariant)
    (simp_all only: case_step_dialog, simp add: dialog_ok_def init_case_page_def verdict_option)

text \<open>Which events send an update of the case itself.\<close>

lemma calls_succeeded [simp]: "calls_of (snd (succeeded i m s)) = []"
  by (cases m) (simp_all add: invalidateCase_def case_key_def)

lemma update_sent:
  assumes "CaseCall (UpdateCase i d) \<in> set (calls_of (snd (case_step cx e s)))"
  obtains h where "e = Header h" "i = ctx_id cx"
    "CaseCall (UpdateCase i d) \<in> set (calls_of (snd (header_step cx h s)))"
proof (cases e)
  case (Header h)
  moreover have "i = ctx_id cx" using assms Header
    by (cases h) (auto simp: calls_succeeded send_update_def invalidateCase_def case_key_def split: if_splits)
  ultimately show ?thesis using that assms by simp
next
  case (Thread h)
  then show ?thesis using assms by (cases h) (auto simp: log_note_def split: if_splits)
next
  case (Ioc h)
  then show ?thesis using assms by (cases h) (auto split: if_splits)
next
  case (Work h)
  then show ?thesis using assms by (cases h) (auto simp: create_task_def split: if_splits)
qed

text \<open>C4. A case that has no verdict is never resolved or closed without one: in every reachable state of
  the page, whatever event the page allows, an update that sets a closing status is sent either for a
  case that is classified already or together with one of the six classifications.\<close>

theorem closing_carries_verdict:
  assumes "case_reach s" "case_allowed (cx, e) s"
    and "CaseCall (UpdateCase i (JObj ch)) \<in> set (calls_of (snd (case_step cx e s)))"
    and "fld ch ''status'' \<in> JStr ` set CLOSING_STATUSES"
  shows "i = ctx_id cx \<and>
    (truthy (fld (ctx_case cx) ''classification'') \<or>
     (\<exists>cl \<in> set CLASSIFICATION_OPTIONS. fld ch ''classification'' = JStr cl))"
proof -
  from assms(3) obtain h where h: "e = Header h" "i = ctx_id cx"
    and c: "CaseCall (UpdateCase i (JObj ch)) \<in> set (calls_of (snd (header_step cx h s)))"
    by (rule update_sent)
  have "dialog_ok s" using assms(1) by (rule dialog_always_ok)
  then have d: "classificationDraft s \<in> set CLASSIFICATION_OPTIONS" by (simp add: dialog_ok_def)
  show ?thesis using c h d assms(4)
    by (cases h) (auto simp: send_update_def invalidateCase_def case_key_def split: if_splits)
qed

theorem closing_carries_verdict_witness:
  "\<exists>cl \<in> set CLASSIFICATION_OPTIONS.
     fld [(''status'', JStr ''closed''), (''classification'', JStr ''true_positive''), (''closure_note'', JNull)]
       ''classification'' = JStr cl"
proof -
  let ?cx = "\<lparr>ctx_id = ''7'', ctx_userId = JNull, ctx_fullName = JNull, ctx_case = [], ctx_timeline = [],
    ctx_alerts = [], ctx_observables = [], ctx_tasks = [], ctx_comments = [], ctx_assets = [],
    ctx_evidence = [], ctx_notes = [], ctx_mitre = [], ctx_pending = \<lambda>m. False\<rparr>"
  let ?s = "init_case_page\<lparr>closingModal := JStr ''closed''\<rparr>"
  have "case_allowed (?cx, Header (PickStatus ''closed'')) init_case_page"
    by (simp add: case_allowed_def STATUS_OPTIONS_def)
  then have "case_reach (case_next (?cx, Header (PickStatus ''closed'')) init_case_page)"
    by (rule reach_step [rotated]) (rule reach_start, rule refl)
  then have r: "case_reach ?s"
    by (simp add: CLOSING_STATUSES_def init_case_page_def)
  have a: "case_allowed (?cx, Header ConfirmClosing) ?s"
    by (simp add: case_allowed_def header_click_iff)
  show ?thesis
    using closing_carries_verdict [OF r a, of "''7''"
        "[(''status'', JStr ''closed''), (''classification'', JStr ''true_positive''), (''closure_note'', JNull)]"]
    by (simp add: send_update_def CLOSING_STATUSES_def init_case_page_def jor_def)
qed

section \<open>Tasks\<close>

lemma next_task_status_eq: "next_task_status st =
    (if st = JStr ''to_do'' then ''in_progress'' else if st = JStr ''in_progress'' then ''done'' else ''to_do'')"
  by (cases "st = JStr ''done''") (simp_all add: next_task_status_def TASK_STATUS_ORDER_def Let_def)

text \<open>The status button of a task walks through to do, in progress and done and starts over: it
  always sends one of the three, a task with any other status is sent back to to do, and three
  clicks bring a task back to its status.\<close>

theorem task_status_cycles:
  "next_task_status (JStr ''to_do'') = ''in_progress'' \<and>
   next_task_status (JStr ''in_progress'') = ''done'' \<and>
   (\<forall>st. st \<notin> JStr ` {''to_do'', ''in_progress''} \<longrightarrow> next_task_status st = ''to_do'') \<and>
   (\<forall>k \<in> set TASK_STATUS_ORDER.
      next_task_status (JStr (next_task_status (JStr (next_task_status (JStr k))))) = k) \<and>
   (\<forall>cx t s. snd (case_step cx (Work (CycleTask t)) s) =
      [Call (CaseCall (UpdateCaseTask (ctx_id cx) (row_id t)
         (JObj [(''status'', JStr (next_task_status (fld t ''status'')))])))])"
  by (simp add: next_task_status_eq TASK_STATUS_ORDER_def)

theorem task_status_cycles_witness:
  "next_task_status (JStr ''archived'') = ''to_do''"
proof -
  have "\<forall>st. st \<notin> JStr ` {''to_do'', ''in_progress''} \<longrightarrow> next_task_status st = ''to_do''"
    using task_status_cycles by blast
  then show ?thesis by (simp add: image_iff)
qed

section \<open>Techniques\<close>

lemma other_mitre:
  "timelineMitre (fst (ioc_step cx ie s)) = timelineMitre s"
  "timelineMitre (fst (work_step cx we s)) = timelineMitre s"
  by (cases ie; simp) (cases we; simp)

lemma header_mitre: "timelineMitre (fst (header_step cx e s)) = timelineMitre s \<or>
    timelineMitre (fst (header_step cx e s)) = []"
proof (cases e)
  case (Succeeded m)
  then show ?thesis by (cases m) simp_all
qed simp_all

lemma picker_fresh: "t \<in> set (picker_matches ts sel q) \<Longrightarrow> t \<in> set ts \<and> fld t ''id'' \<notin> set sel"
  by (auto simp: picker_matches_def split: if_splits dest!: in_set_takeD)

lemma thread_click_mitre:
  "case_allowed (cx, Thread (TagTechnique t)) s \<Longrightarrow>
   t \<in> set (picker_matches (ctx_mitre cx) (timelineMitre s) (mitreQuery s))"
  using tab_click_guards [of "Thread (TagTechnique t)" cx s] by (simp add: case_allowed_def tab_event_click)

lemma mitre_distinct_step:
  assumes "distinct (timelineMitre s)" "case_allowed ce s"
  shows "distinct (timelineMitre (case_next ce s))"
proof -
  obtain cx e where ce: "ce = (cx, e)" by (cases ce)
  show ?thesis
  proof (cases e)
    case (Header h)
    then show ?thesis using header_mitre [of cx h s] assms(1) ce by auto
  next
    case (Thread h)
    have "fld t ''id'' \<notin> set (timelineMitre s)" if "h = TagTechnique t" for t
      using thread_click_mitre [of cx t s] picker_fresh assms(2) that Thread ce by auto
    then show ?thesis using assms(1) ce Thread by (cases h) auto
  next
    case (Ioc h)
    then show ?thesis using assms(1) ce by (simp add: other_mitre)
  next
    case (Work h)
    then show ?thesis using assms(1) ce by (simp add: other_mitre)
  qed
qed

text \<open>C31. A timeline entry is never tagged twice with the same technique, however the page is used, and
  the picker offers at most six techniques, none of them selected already, and none without a query.\<close>

theorem mitre_tags_distinct:
  assumes "case_reach s"
  shows "distinct (timelineMitre s) \<and>
    length (picker_matches ts (timelineMitre s) (mitreQuery s)) \<le> 6 \<and>
    (\<forall>t \<in> set (picker_matches ts (timelineMitre s) (mitreQuery s)).
       t \<in> set ts \<and> fld t ''id'' \<notin> set (timelineMitre s)) \<and>
    (trim (mitreQuery s) = [] \<longrightarrow> picker_matches ts (timelineMitre s) (mitreQuery s) = [])"
proof -
  have "distinct (timelineMitre s)"
    using assms by (rule reach_invariant) (simp add: init_case_page_def, rule mitre_distinct_step)
  moreover have "length (picker_matches ts (timelineMitre s) (mitreQuery s)) \<le> 6"
    by (simp add: picker_matches_def)
  moreover have "trim (mitreQuery s) = [] \<Longrightarrow> picker_matches ts (timelineMitre s) (mitreQuery s) = []"
    by (simp add: picker_matches_def)
  ultimately show ?thesis using picker_fresh [of _ ts "timelineMitre s" "mitreQuery s"] by blast
qed

theorem mitre_tags_distinct_witness: "distinct (timelineMitre init_case_page)"
  using mitre_tags_distinct [OF reach_start] by simp

section \<open>What the forms send\<close>

text \<open>The required texts of a request that creates something in a case.\<close>

definition body_text :: "jsval \<Rightarrow> string \<Rightarrow> string" where
  "body_text d k = js_string (opt_fld d k)"

fun required_texts :: "case_call \<Rightarrow> string list" where
  "required_texts (AddComment i t internal) = [t]"
| "required_texts (AddTimelineEvent i t mitre) = [t]"
| "required_texts (AddObservable i d) = [body_text d ''value'']"
| "required_texts (CreateCaseTask i d) = [body_text d ''title'']"
| "required_texts (CreateCaseAsset i d) = [body_text d ''name'']"
| "required_texts (CreateCaseEvidence i d) = [body_text d ''filename'']"
| "required_texts (CreateCaseNote i d) = [body_text d ''title'', body_text d ''content'']"
| "required_texts _ = []"

lemma post_needs_text: "case_allowed (cx, Thread PostComment) s \<Longrightarrow> trim (commentDraft s) \<noteq> []"
  using tab_click_guards [of "Thread PostComment" cx s] by (simp add: case_allowed_def tab_event_click)

lemma log_needs_text: "case_allowed (cx, Thread LogNote) s \<Longrightarrow> trim (noteDraft s) \<noteq> []"
  using tab_click_guards [of "Thread LogNote" cx s] by (simp add: case_allowed_def tab_event_click)

lemma obs_needs_text: "case_allowed (cx, Ioc AddObs) s \<Longrightarrow> trim (form_str (obsForm s) ''value'') \<noteq> []"
  using tab_click_guards [of "Ioc AddObs" cx s] by (simp add: case_allowed_def tab_event_click)

lemma asset_needs_text: "case_allowed (cx, Ioc AddAsset) s \<Longrightarrow> trim (form_str (assetForm s) ''name'') \<noteq> []"
  using tab_click_guards [of "Ioc AddAsset" cx s] by (simp add: case_allowed_def tab_event_click)

lemma work_needs_text: "case_allowed (cx, Work e) s \<Longrightarrow>
    (e = AddEvidence \<longrightarrow> trim (form_str (evidenceForm s) ''filename'') \<noteq> []) \<and>
    (e = AddTask \<longrightarrow> trim (form_str (taskForm s) ''title'') \<noteq> []) \<and>
    (e = AddNote \<longrightarrow> trim (form_str (noteForm s) ''title'') \<noteq> [] \<and> trim (form_str (noteForm s) ''content'') \<noteq> [])"
  using tab_click_guards [of "Work e" cx s] by (cases e) (simp_all add: case_allowed_def tab_event_click)

text \<open>C14. Nothing blank is ever added to a case: a comment, timeline entry, observable, task, asset, piece
  of evidence or note the page sends has a non-blank text in each field it requires, and a timeline
  entry is sent trimmed; this holds for the buttons and for the Enter key.\<close>

theorem no_blank_additions:
  assumes "case_allowed (cx, e) s"
    and "CaseCall c \<in> set (calls_of (snd (case_step cx e s)))"
  shows "(\<forall>t \<in> set (required_texts c). trim t \<noteq> []) \<and>
    (\<forall>i t m. c = AddTimelineEvent i t m \<longrightarrow> trim t = t)"
proof (cases e)
  case (Header h)
  then show ?thesis using assms(2)
    by (cases h) (auto simp: send_update_def invalidateCase_def case_key_def split: if_splits)
next
  case (Thread h)
  then show ?thesis using assms post_needs_text [of cx s] log_needs_text [of cx s]
    by (cases h) (auto simp: log_note_def trim_idem split: if_splits)
next
  case (Ioc h)
  then show ?thesis using assms obs_needs_text [of cx s] asset_needs_text [of cx s]
    by (cases h) (auto simp: body_text_def form_str_def split: if_splits)
next
  case (Work h)
  then show ?thesis using assms work_needs_text [of cx h s]
    by (cases h) (auto simp: create_task_def body_text_def form_str_def split: if_splits)
qed

theorem no_blank_additions_witness:
  "required_texts (AddTimelineEvent ''7'' ''x'' (Some [])) = [''x''] \<and> trim ''x'' \<noteq> []"
proof -
  let ?cx = "\<lparr>ctx_id = ''7'', ctx_userId = JNull, ctx_fullName = JNull, ctx_case = [], ctx_timeline = [],
    ctx_alerts = [], ctx_observables = [], ctx_tasks = [], ctx_comments = [], ctx_assets = [],
    ctx_evidence = [], ctx_notes = [], ctx_mitre = [], ctx_pending = \<lambda>m. False\<rparr>"
  let ?s = "init_case_page\<lparr>case_tab := ''timeline'', noteDraft := '' x ''\<rparr>"
  have "case_allowed (?cx, Thread NoteEnter) ?s" by (simp add: case_allowed_def)
  from no_blank_additions [OF this, of "AddTimelineEvent ''7'' ''x'' (Some [])"]
  show ?thesis by (simp add: log_note_def trim_def is_space_def init_case_page_def)
qed

text \<open>The Log button is disabled while an entry is being saved, but the Enter key is not: it sends the
  same entry again.\<close>

theorem enter_ignores_pending:
  assumes "case_tab s = ''timeline''" "trim (noteDraft s) \<noteq> []" "ctx_pending cx AddTimelineM"
  shows "\<not> case_allowed (cx, Thread LogNote) s \<and> case_allowed (cx, Thread NoteEnter) s \<and>
    case_next (cx, Thread NoteEnter) s = s \<and>
    calls_of (snd (case_step cx (Thread NoteEnter) s)) =
      [CaseCall (AddTimelineEvent (ctx_id cx) (trim (noteDraft s)) (Some (map js_string (timelineMitre s))))]"
  using assms
  by (simp add: case_allowed_def tab_event_click case_tab_view_def clicks_timeline clicks_picker log_note_def)

theorem enter_ignores_pending_witness:
  "\<exists>cx s. ctx_pending cx AddTimelineM \<and> case_allowed (cx, Thread NoteEnter) s \<and>
     length (calls_of (snd (case_step cx (Thread NoteEnter) s))) = 1"
proof -
  let ?cx = "\<lparr>ctx_id = ''7'', ctx_userId = JNull, ctx_fullName = JNull, ctx_case = [], ctx_timeline = [],
    ctx_alerts = [], ctx_observables = [], ctx_tasks = [], ctx_comments = [], ctx_assets = [],
    ctx_evidence = [], ctx_notes = [], ctx_mitre = [], ctx_pending = \<lambda>m. True\<rparr>"
  let ?s = "init_case_page\<lparr>case_tab := ''timeline'', noteDraft := ''x''\<rparr>"
  have "case_tab ?s = ''timeline''" "trim (noteDraft ?s) \<noteq> []" "ctx_pending ?cx AddTimelineM"
    by (simp_all add: trim_def is_space_def)
  from enter_ignores_pending [OF this] show ?thesis
    by (intro exI [of _ ?cx] exI [of _ ?s]) simp
qed

section \<open>Refetching\<close>




lemma prefix_item: "prefix (case_path i part) (case_item i part j)"
  by (simp add: case_path_def case_item_def)








section \<open>The report\<close>

definition report_launches :: "case_ctx \<times> case_event \<Rightarrow> bool" where
  "report_launches ce \<longleftrightarrow> snd ce = Header GenerateReport"

definition report_lands :: "case_ctx \<times> case_event \<Rightarrow> bool" where
  "report_lands ce \<longleftrightarrow> (\<exists>ok. snd ce = Header (ReportDone ok))"

lemma quiet_report:
  assumes "snd ce \<noteq> Header GenerateReport" "\<forall>ok. snd ce \<noteq> Header (ReportDone ok)"
  shows "downloading (case_next ce s) = downloading s \<and> reports_open (case_next ce s) = reports_open s"
proof (cases "snd ce")
  case (Header h)
  show ?thesis
  proof (cases h)
    case (Succeeded m)
    then show ?thesis using Header by (cases m) simp_all
  qed (use assms Header in auto)
next
  case (Thread h)
  then show ?thesis by (cases h) simp_all
next
  case (Ioc h)
  then show ?thesis by (cases h) simp_all
next
  case (Work h)
  then show ?thesis by (cases h) simp_all
qed

lemma generate_allowed: "case_allowed (cx, Header GenerateReport) s \<longleftrightarrow> \<not> downloading s"
  by (simp add: case_allowed_def header_click_iff split: if_splits)

interpretation report: single_flight "\<lambda>s. s = init_case_page" case_allowed case_next downloading
  reports_open report_launches report_lands
proof
  fix s ce
  assume a: "case_allowed ce s"
  obtain cx e where ce: "ce = (cx, e)" by (cases ce)
  show "\<not> downloading s \<and> downloading (case_next ce s) \<and>
      reports_open (case_next ce s) = Suc (reports_open s)" if "report_launches ce"
    using a that ce by (simp add: report_launches_def generate_allowed)
  show "\<not> downloading (case_next ce s) \<and> Suc (reports_open (case_next ce s)) = reports_open s"
    if "report_lands ce"
    using a that ce by (auto simp: report_lands_def case_allowed_def)
  show "downloading (case_next ce s) = downloading s \<and> reports_open (case_next ce s) = reports_open s"
    if "\<not> report_launches ce" "\<not> report_lands ce"
    using that quiet_report by (simp add: report_launches_def report_lands_def)
qed (auto simp: init_case_page_def)

text \<open>The case report is generated once at a time: the button is disabled exactly while a report is
  being generated, there is never more than one, and a finished or failed one enables it again.\<close>

theorem one_report_at_a_time:
  assumes "case_reach s"
  shows "reports_open s = (if downloading s then 1 else 0) \<and>
    (0 < reports_open s \<longrightarrow> \<not> case_allowed (cx, Header GenerateReport) s) \<and>
    (0 < reports_open s \<longrightarrow> case_allowed (cx, Header GenerateReport) (case_next (cx, Header (ReportDone ok)) s))"
proof (intro conjI impI)
  show "reports_open s = (if downloading s then 1 else 0)" by (rule report.flag_exact [OF assms])
  show "\<not> case_allowed (cx, Header GenerateReport) s" if "0 < reports_open s"
    using that by (rule report.no_second_launch [OF assms]) (simp add: report_launches_def)
  show "case_allowed (cx, Header GenerateReport) (case_next (cx, Header (ReportDone ok)) s)"
    by (simp add: generate_allowed)
qed

theorem one_report_at_a_time_witness: "reports_open init_case_page = 0 \<or> downloading init_case_page"
proof -
  have "case_reach init_case_page" by (rule reach_start) simp
  from one_report_at_a_time [OF this] show ?thesis by (cases "downloading init_case_page") auto
qed

end
