(* ===== verification/Workflow.thy ===== *)
theory Workflow
  imports ApiClient Async
begin

text \<open>
  The workflow builder, \<open>frontend/src/pages/WorkflowBuilder.tsx\<close>: the canvas' nodes and edges, new
  node ids, dropping a palette entry, editing the selected node's configuration, the trigger a workflow
  is saved with, and loading and saving. What React Flow computes is an argument: \<open>addEdge\<close>, the
  projected drop position, and the node and edge lists its change handlers produce. So is \<open>Number\<close>,
  whose fractions the integers of this model do not cover.
\<close>

section \<open>State\<close>

record builder =
  wf_name :: jsval
  wf_description :: jsval
  selectedNodeId :: jsval
  wf_nodes :: "row list"
  wf_edges :: "row list"
  idCounter :: nat

definition init_builder :: "nat \<Rightarrow> builder" where
  "init_builder n = \<lparr>wf_name = JStr ''New workflow'', wf_description = JStr [], selectedNodeId = JNull,
     wf_nodes = [], wf_edges = [], idCounter = n\<rparr>"

record builder_ctx =
  route_id :: "string option"
  nodeCatalog :: "row list"
  canvas_ready :: bool
  add_edge :: "row \<Rightarrow> row list \<Rightarrow> row list"
  to_number :: "string \<Rightarrow> jsval"

datatype builder_event =
    WorkflowLoaded jsval
  | TypeName string
  | TypeWfDescription string
  | Connect row
  | Drop string string nat jsval
  | NodeClick row
  | PaneClick
  | ConfigField row string
  | NodesChanged "row list"
  | EdgesChanged "row list"
  | SaveWorkflow
  | WorkflowSaved jsval
  | SaveFailed
  | RunNow
  | RunQueued
  | RunFailed
  | BackToSoar

section \<open>Nodes and edges\<close>

text \<open>\<open>n${Date.now()}_${idCounter}\<close>\<close>

definition node_id :: "nat \<Rightarrow> nat \<Rightarrow> string" where
  "node_id now n = CHR ''n'' # nat_dec now @ CHR ''_'' # nat_dec n"

definition edge_id :: "row \<Rightarrow> string" where
  "edge_id conn = CHR ''e'' # js_string (fld conn ''source'') @ CHR ''-'' # js_string (fld conn ''target'') @
     CHR ''-'' # js_string (jor (fld conn ''sourceHandle'') (JStr []))"

definition catalog_entry :: "row list \<Rightarrow> jsval \<Rightarrow> row option" where
  "catalog_entry catalog ty = List.find (\<lambda>n. fld n ''type'' = ty) catalog"

text \<open>\<open>for (const f of entry?.config_schema || []) config[f.key] = f.default ?? ''\<close>\<close>

definition schema_of :: "row option \<Rightarrow> row list" where
  "schema_of entry = (case entry of None \<Rightarrow> [] | Some n \<Rightarrow> map as_row (as_list (fld n ''config_schema'')))"

definition default_config :: "row list \<Rightarrow> row" where
  "default_config schema =
     foldl (\<lambda>cfg f. upd cfg (js_string (fld f ''key'')) (jcoalesce (fld f ''default'') (JStr []))) [] schema"

definition new_node :: "builder_ctx \<Rightarrow> string \<Rightarrow> string \<Rightarrow> string \<Rightarrow> jsval \<Rightarrow> row" where
  "new_node cx i nodeType label pos =
     [(''id'', JStr i), (''type'', JStr nodeType), (''position'', pos),
      (''data'', JObj [(''label'', jor (JStr label) (JStr nodeType)),
                     (''config'', JObj (default_config (schema_of (catalog_entry (nodeCatalog cx) (JStr nodeType)))))])]"

definition node_config :: "row \<Rightarrow> jsval" where
  "node_config n = opt_fld (fld n ''data'') ''config''"

text \<open>\<open>{ ...n, data: { ...n.data, config: { ...n.data.config, [key]: value } } }\<close>\<close>

definition set_config :: "string \<Rightarrow> jsval \<Rightarrow> row \<Rightarrow> row" where
  "set_config key v n =
     upd n ''data'' (JObj (upd (as_row (fld n ''data'')) ''config''
       (JObj (upd (as_row (node_config n)) key v))))"

definition updateSelectedConfig :: "string \<Rightarrow> jsval \<Rightarrow> builder \<Rightarrow> builder" where
  "updateSelectedConfig key v s =
     s\<lparr>wf_nodes := map (\<lambda>n. if fld n ''id'' = selectedNodeId s then set_config key v n else n) (wf_nodes s)\<rparr>"

definition selectedNode :: "builder \<Rightarrow> row option" where
  "selectedNode s = List.find (\<lambda>n. fld n ''id'' = selectedNodeId s) (wf_nodes s)"

section \<open>Trigger, saving and loading\<close>

definition deriveTrigger :: "row list \<Rightarrow> string \<times> jsval" where
  "deriveTrigger nodes =
     (case List.find (\<lambda>n. prefix ''trigger.'' (js_string (fld n ''type''))) nodes of
        None \<Rightarrow> (''manual'', JObj [])
      | Some start \<Rightarrow>
          (let kind = split_on (CHR ''.'') (js_string (fld start ''type'')) ! 1 in
           (if kind = [] then ''manual'' else kind, jor (node_config start) (JObj []))))"

definition payload :: "builder \<Rightarrow> row" where
  "payload s =
     (let (ty, cfg) = deriveTrigger (wf_nodes s) in
      [(''name'', wf_name s), (''description'', wf_description s), (''trigger_type'', JStr ty),
       (''trigger_config'', cfg), (''nodes'', JArr (map JObj (wf_nodes s))), (''edges'', JArr (map JObj (wf_edges s)))])"

definition load_workflow :: "jsval \<Rightarrow> builder \<Rightarrow> builder" where
  "load_workflow w s =
     (if truthy w
      then s\<lparr>wf_name := opt_fld w ''name'', wf_description := jor (opt_fld w ''description'') (JStr []),
             wf_nodes := map as_row (as_list (opt_fld w ''nodes'')),
             wf_edges := map as_row (as_list (opt_fld w ''edges''))\<rparr>
      else s)"

section \<open>Handlers\<close>

fun builder_step :: "builder_ctx \<Rightarrow> builder_event \<Rightarrow> builder \<Rightarrow> builder \<times> api_call effect list" where
  "builder_step cx (WorkflowLoaded w) s = (load_workflow w s, [])"
| "builder_step cx (TypeName v) s = (s\<lparr>wf_name := JStr v\<rparr>, [])"
| "builder_step cx (TypeWfDescription v) s = (s\<lparr>wf_description := JStr v\<rparr>, [])"
| "builder_step cx (Connect conn) s =
     (s\<lparr>wf_edges := add_edge cx (upd conn ''id'' (JStr (edge_id conn))) (wf_edges s)\<rparr>, [])"
| "builder_step cx (Drop nodeType label now pos) s =
     (if nodeType = [] \<or> \<not> canvas_ready cx then (s, [])
      else (s\<lparr>idCounter := Suc (idCounter s),
              wf_nodes := wf_nodes s @ [new_node cx (node_id now (Suc (idCounter s))) nodeType label pos]\<rparr>, []))"
| "builder_step cx (NodeClick n) s = (s\<lparr>selectedNodeId := fld n ''id''\<rparr>, [])"
| "builder_step cx PaneClick s = (s\<lparr>selectedNodeId := JNull\<rparr>, [])"
| "builder_step cx (ConfigField f v) s =
     (updateSelectedConfig (js_string (fld f ''key''))
        (if fld f ''type'' = JStr ''number'' then to_number cx v else JStr v) s, [])"
| "builder_step cx (NodesChanged ns) s = (s\<lparr>wf_nodes := ns\<rparr>, [])"
| "builder_step cx (EdgesChanged es) s = (s\<lparr>wf_edges := es\<rparr>, [])"
| "builder_step cx SaveWorkflow s =
     (s, [Call (IntelCall (case route_id cx of
            None \<Rightarrow> CreateWorkflow (JObj (payload s))
          | Some i \<Rightarrow> UpdateWorkflow i (JObj (payload s))))])"
| "builder_step cx (WorkflowSaved res) s =
     (s, [ToastOk ''Workflow saved'', Invalidate [JStr ''workflows'']] @
         (if route_id cx = None
          then [NavigateReplace (''/soar/'' @ js_string (opt_fld res ''id'') @ ''/edit'')] else []))"
| "builder_step cx SaveFailed s = (s, [ToastErr (JStr ''Failed to save workflow'')])"
| "builder_step cx RunNow s =
     (s, case route_id cx of
           None \<Rightarrow> [Call (IntelCall (RunWorkflow ''undefined'' JUndef))]
         | Some i \<Rightarrow> [Call (IntelCall (RunWorkflow i JUndef))])"
| "builder_step cx RunQueued s = (s, [ToastOk ''Workflow run queued''])"
| "builder_step cx RunFailed s = (s, [ToastErr (JStr ''Failed to queue run'')])"
| "builder_step cx BackToSoar s = (s, [Navigate ''/soar''])"

section \<open>The rendered page\<close>

text \<open>The palette: the catalog grouped by category, the three known categories first.\<close>

fun add_to_group :: "row \<Rightarrow> (string \<times> row list) list \<Rightarrow> (string \<times> row list) list" where
  "add_to_group n [] = [(js_string (fld n ''category''), [n])]"
| "add_to_group n ((k, ns) # g) =
     (if k = js_string (fld n ''category'') then (k, ns @ [n]) # g else (k, ns) # add_to_group n g)"

definition grouped :: "row list \<Rightarrow> (string \<times> row list) list" where
  "grouped catalog =
     foldl (\<lambda>g n. add_to_group n g) [(''trigger'', []), (''logic'', []), (''action'', [])] catalog"

definition palette_view :: "row list \<Rightarrow> builder_event ui list" where
  "palette_view catalog =
     map (\<lambda>(k, ns). Box (Txt k # map (\<lambda>n. Val (fld n ''label'')) ns)) (grouped catalog)"

text \<open>Dragging a palette entry carries its type and label to the drop.\<close>

definition palette_drop :: "row \<Rightarrow> nat \<Rightarrow> jsval \<Rightarrow> builder_event" where
  "palette_drop n now pos = Drop (js_string (fld n ''type'')) (js_string (fld n ''label'')) now pos"

datatype handle = Target | Source "string option"

definition FlowNode :: "row \<Rightarrow> string \<times> handle list" where
  "FlowNode n =
     (let ty = js_string (fld n ''type''); category = hd (split_on (CHR ''.'') ty) in
      (js_string (opt_fld (fld n ''data'') ''label''),
       (if category = ''trigger'' then [] else [Target]) @
       (if ty = ''logic.condition'' then [Source (Some ''true''), Source (Some ''false'')] else [Source None])))"

definition config_field_view :: "row \<Rightarrow> row \<Rightarrow> builder_event ui" where
  "config_field_view node f =
     (let v = js_string (jcoalesce (opt_fld (node_config node) (js_string (fld f ''key''))) (fld f ''default'')) in
      Box [Val (fld f ''label''),
           if fld f ''type'' = JStr ''select''
           then Select v (map (\<lambda>opt. (js_string opt, js_string opt)) (as_list (fld f ''options''))) (ConfigField f)
           else Field [] v False (ConfigField f)])"

definition config_view :: "builder_ctx \<Rightarrow> builder \<Rightarrow> builder_event ui list" where
  "config_view cx s =
     (case selectedNode s of
        None \<Rightarrow> [Txt ''Select a node to edit its configuration.'']
      | Some n \<Rightarrow>
          (let entry = catalog_entry (nodeCatalog cx) (fld n ''type''); schema = schema_of entry in
           [Val (opt_fld (fld n ''data'') ''label''),
            Val (case entry of None \<Rightarrow> JUndef | Some e \<Rightarrow> fld e ''description'')] @
           map (config_field_view n) schema @
           shown (schema = []) [Txt ''This node has no configuration.'']))"

definition builder_view ::
  "bool \<Rightarrow> bool \<Rightarrow> builder_ctx \<Rightarrow> builder \<Rightarrow> builder_event ui list" where
  "builder_view savePending runPending cx s =
     [Btn ''Back'' False BackToSoar,
      Field ''Workflow name'' (js_string (wf_name s)) False TypeName,
      Field ''Description'' (js_string (wf_description s)) False TypeWfDescription] @
     shown (route_id cx \<noteq> None) [Btn ''Run now'' runPending RunNow] @
     [Btn ''Save'' savePending SaveWorkflow] @
     palette_view (nodeCatalog cx) @
     map (\<lambda>n. Clickable (NodeClick n) [Txt (fst (FlowNode n))]) (wf_nodes s) @
     [Clickable PaneClick []] @
     config_view cx s"

text \<open>
  What can happen: the change handlers may move nodes and remove nodes and edges, which keeps the order
  of the remaining ids; a drop happens at the clock's time, which is taken to be no earlier than
  \<open>start\<close>. Any workflow may be loaded.
\<close>

definition ids :: "row list \<Rightarrow> jsval list" where
  "ids rs = map (\<lambda>r. fld r ''id'') rs"

definition builder_allowed :: "nat \<Rightarrow> builder_ctx \<times> builder_event \<Rightarrow> builder \<Rightarrow> bool" where
  "builder_allowed start ce s =
     (case snd ce of
        Drop ty l now pos \<Rightarrow> start \<le> now
      | NodesChanged ns \<Rightarrow> subseq (ids ns) (ids (wf_nodes s))
      | EdgesChanged es \<Rightarrow> subseq (ids es) (ids (wf_edges s))
      | _ \<Rightarrow> True)"

abbreviation builder_next :: "builder_ctx \<times> builder_event \<Rightarrow> builder \<Rightarrow> builder" where
  "builder_next ce s \<equiv> fst (builder_step (fst ce) (snd ce) s)"

section \<open>Node ids\<close>

lemma node_id_inj: "node_id t c = node_id t' c' \<longleftrightarrow> t = t' \<and> c = c'"
proof
  have no: "CHR ''_'' \<notin> set (nat_dec m)" for m
    using set_nat_dec [of m] by (auto simp: digit_chars_def)
  assume "node_id t c = node_id t' c'"
  then have e: "nat_dec t @ CHR ''_'' # nat_dec c = nat_dec t' @ CHR ''_'' # nat_dec c'"
    by (simp add: node_id_def)
  then have "split_on (CHR ''_'') (nat_dec t @ CHR ''_'' # nat_dec c) =
      split_on (CHR ''_'') (nat_dec t' @ CHR ''_'' # nat_dec c')" by simp
  then have "nat_dec t = nat_dec t' \<and> nat_dec c = nat_dec c'"
    by (simp add: split_on_append no split_on_no_sep)
  then show "t = t' \<and> c = c'" using nat_dec_inj by blast
qed simp

text \<open>
  An id of the shape a drop would make is no danger to later drops when it was made before \<open>start\<close>, by
  whatever browser, or by this page with a count it has used up. Ids of any other shape, such as the
  \<open>1\<close> and \<open>2\<close> of the example workflows the backend seeds, never are.
\<close>

definition old_ids :: "nat \<Rightarrow> builder \<Rightarrow> bool" where
  "old_ids start s \<longleftrightarrow>
     (\<forall>t c. JStr (node_id t c) \<in> set (ids (wf_nodes s)) \<longrightarrow> t < start \<or> c \<le> idCounter s)"

lemma old_ids_fresh:
  "old_ids start s \<Longrightarrow> start \<le> now \<Longrightarrow> JStr (node_id now (Suc (idCounter s))) \<notin> set (ids (wf_nodes s))"
  by (fastforce simp: old_ids_def)

lemma ids_set_config [simp]: "fld (set_config k v n) ''id'' = fld n ''id''"
  by (simp add: set_config_def)

lemma ids_update [simp]: "ids (wf_nodes (updateSelectedConfig k v s)) = ids (wf_nodes s)"
  by (simp add: updateSelectedConfig_def ids_def)

lemma ids_new_node: "ids (ns @ [new_node cx i ty l pos]) = ids ns @ [JStr i]"
  by (simp add: ids_def new_node_def)

lemma subseq_keeps: "subseq xs ys \<Longrightarrow> set xs \<subseteq> set ys \<and> (distinct ys \<longrightarrow> distinct xs)"
  by (induction rule: list_emb.induct) auto

lemma ids_step:
  assumes "distinct (ids (wf_nodes s)) \<and> old_ids start s" "builder_allowed start (cx, e) s" "\<And>w. e \<noteq> WorkflowLoaded w"
  shows "distinct (ids (wf_nodes (fst (builder_step cx e s)))) \<and> old_ids start (fst (builder_step cx e s))"
proof (cases e)
  case (WorkflowLoaded w)
  with assms(3) show ?thesis by blast
next
  case (Drop ty l now pos)
  with assms(2) have "start \<le> now" by (simp add: builder_allowed_def)
  with Drop assms(1) show ?thesis using old_ids_fresh [of start s now]
    by (fastforce simp: ids_new_node old_ids_def node_id_inj)
next
  case (NodesChanged ns)
  with assms(2) have "subseq (ids ns) (ids (wf_nodes s))" by (simp add: builder_allowed_def)
  then have "set (ids ns) \<subseteq> set (ids (wf_nodes s))" "distinct (ids (wf_nodes s)) \<Longrightarrow> distinct (ids ns)"
    by (auto dest: subseq_keeps)
  with NodesChanged assms(1) show ?thesis by (auto simp: old_ids_def)
next
  case (ConfigField f v)
  with assms(1) show ?thesis by (simp add: old_ids_def) (simp add: updateSelectedConfig_def)
qed (use assms(1) in \<open>simp_all add: old_ids_def\<close>)

lemma ids_run:
  assumes "distinct (ids (wf_nodes s)) \<and> old_ids start s" "legal (builder_allowed start) builder_next ces s"
    and "\<And>cx w. (cx, WorkflowLoaded w) \<notin> set ces"
  shows "distinct (ids (wf_nodes (run builder_next ces s))) \<and> old_ids start (run builder_next ces s)"
  using assms
proof (induction ces arbitrary: s)
  case Nil
  then show ?case by simp
next
  case (Cons ce ces)
  obtain cx e where ce: "ce = (cx, e)" by (cases ce)
  have "distinct (ids (wf_nodes (builder_next ce s))) \<and> old_ids start (builder_next ce s)"
    using ids_step [OF Cons.prems(1), of cx e] Cons.prems(2,3) by (auto simp: ce)
  with Cons.IH [of "builder_next ce s"] Cons.prems(2,3) show ?case by simp
qed

text \<open>C5. From the moment a workflow has been loaded, or the page has been opened on an empty one, no two
  nodes get the same id before another is loaded, however many nodes are dropped, moved, removed and
  configured, also within one millisecond, and the id of the next node is never in use. This holds when the
  loaded nodes have distinct ids, the ids among them of the shape the page makes were made before the
  loading or by the page itself, and the clock is not set back behind the time of the loading; ids of
  another shape, such as the seeded \<open>1\<close> and \<open>2\<close>, are no matter.\<close>

theorem node_ids_distinct:
  assumes "distinct (ids (wf_nodes s))"
    and "\<And>t c. JStr (node_id t c) \<in> set (ids (wf_nodes s)) \<Longrightarrow> t < start \<or> c \<le> idCounter s"
    and "legal (builder_allowed start) builder_next ces s" "\<And>cx w. (cx, WorkflowLoaded w) \<notin> set ces"
    and "s' = run builder_next ces s"
  shows "distinct (ids (wf_nodes s')) \<and>
    (\<forall>now \<ge> start. JStr (node_id now (Suc (idCounter s'))) \<notin> set (ids (wf_nodes s')))"
proof -
  have "old_ids start s" using assms(2) by (auto simp: old_ids_def)
  with assms(1) have "distinct (ids (wf_nodes s')) \<and> old_ids start s'"
    using ids_run [OF _ assms(3,4)] by (simp add: assms(5))
  then show ?thesis using old_ids_fresh by blast
qed

definition plain_canvas :: builder_ctx where
  "plain_canvas = \<lparr>route_id = None, nodeCatalog = [], canvas_ready = True,
     add_edge = (\<lambda>e es. es @ [e]), to_number = (\<lambda>v. JNum 0)\<rparr>"

definition seeded_workflow :: jsval where
  "seeded_workflow = JObj [(''name'', JStr ''Block malicious IP''),
     (''nodes'', JArr [JObj [(''id'', JStr ''1''), (''type'', JStr ''trigger.manual''),
                             (''data'', JObj [(''label'', JStr ''Manual trigger'')])],
                       JObj [(''id'', JStr ''2''), (''type'', JStr ''action.wazuh_active_response''),
                             (''data'', JObj [(''label'', JStr ''Block IP''),
                                              (''config'', JObj [(''command'', JStr ''firewall-drop'')])])]])]"

theorem node_ids_distinct_witness:
  "distinct (ids (wf_nodes (run builder_next
     [(plain_canvas, Drop ''logic.delay'' ''Delay'' 5 JNull), (plain_canvas, Drop ''action.slack'' ''Slack'' 5 JNull)]
     (load_workflow seeded_workflow (init_builder 0))))) \<and>
   ids (wf_nodes (run builder_next
     [(plain_canvas, Drop ''logic.delay'' ''Delay'' 5 JNull), (plain_canvas, Drop ''action.slack'' ''Slack'' 5 JNull)]
     (load_workflow seeded_workflow (init_builder 0)))) = [JStr ''1'', JStr ''2'', JStr ''n5_1'', JStr ''n5_2'']"
proof
  let ?es = "[(plain_canvas, Drop ''logic.delay'' ''Delay'' 5 JNull), (plain_canvas, Drop ''action.slack'' ''Slack'' 5 JNull)]"
  let ?s = "load_workflow seeded_workflow (init_builder 0)"
  have i: "ids (wf_nodes ?s) = [JStr ''1'', JStr ''2'']"
    by (simp add: load_workflow_def seeded_workflow_def ids_def)
  have "legal (builder_allowed 5) builder_next ?es ?s" by (simp add: builder_allowed_def)
  moreover have "distinct (ids (wf_nodes ?s))" "\<And>cx w. (cx, WorkflowLoaded w) \<notin> set ?es"
    "\<And>t c. JStr (node_id t c) \<in> set (ids (wf_nodes ?s)) \<Longrightarrow> t < 5 \<or> c \<le> idCounter ?s"
    by (simp_all add: i) (simp add: node_id_def)
  ultimately show "distinct (ids (wf_nodes (run builder_next ?es ?s)))"
    using node_ids_distinct [OF _ _ _ _ refl, of ?s 5 ?es] by blast
  show "ids (wf_nodes (run builder_next ?es ?s)) = [JStr ''1'', JStr ''2'', JStr ''n5_1'', JStr ''n5_2'']"
    by (simp add: plain_canvas_def load_workflow_def seeded_workflow_def init_builder_def ids_def new_node_def
        node_id_def nat_dec_small)
qed

section \<open>Configuration\<close>

lemma node_config_set: "node_config (set_config k v n) = JObj (upd (as_row (node_config n)) k v)"
  by (simp add: node_config_def set_config_def)

lemma same_index:
  "distinct (ids ns) \<Longrightarrow> i < length ns \<Longrightarrow> j < length ns \<Longrightarrow>
   fld (ns ! i) ''id'' = fld (ns ! j) ''id'' \<longleftrightarrow> i = j"
  by (simp add: ids_def distinct_conv_nth) blast

text \<open>C12. Typing into a field of the selected node changes that setting of that node and nothing else,
  provided the nodes have distinct ids: not the node's other settings, its label or anything else of
  its data, not its type or position, no other node, no edge, and not the name, the description, the
  selection or the id counter. A field of type number is stored as a number, every other as text.\<close>

theorem config_edit_is_local:
  assumes "distinct (ids (wf_nodes s))" "i < length (wf_nodes s)" "selectedNodeId s = fld (wf_nodes s ! i) ''id''"
    and "s' = fst (builder_step cx (ConfigField f txt) s)"
    and "key = js_string (fld f ''key'')" "ns' = wf_nodes s'"
  shows "s' = s\<lparr>wf_nodes := ns'\<rparr> \<and> length ns' = length (wf_nodes s) \<and>
    opt_fld (node_config (ns' ! i)) key = (if fld f ''type'' = JStr ''number'' then to_number cx txt else JStr txt) \<and>
    (\<forall>k. k \<noteq> key \<longrightarrow> opt_fld (node_config (ns' ! i)) k = fld (as_row (node_config (wf_nodes s ! i))) k) \<and>
    (\<forall>k. k \<noteq> ''config'' \<longrightarrow> opt_fld (fld (ns' ! i) ''data'') k = fld (as_row (fld (wf_nodes s ! i) ''data'')) k) \<and>
    (\<forall>k. k \<noteq> ''data'' \<longrightarrow> fld (ns' ! i) k = fld (wf_nodes s ! i) k) \<and>
    (\<forall>j < length (wf_nodes s). j \<noteq> i \<longrightarrow> ns' ! j = wf_nodes s ! j)"
proof -
  let ?v = "if fld f ''type'' = JStr ''number'' then to_number cx txt else JStr txt"
  have s': "s' = updateSelectedConfig key ?v s" by (simp add: assms(4,5))
  have i: "ns' ! i = set_config key ?v (wf_nodes s ! i)"
    using assms(2,3) by (simp add: assms(6) s' updateSelectedConfig_def)
  have "ns' ! j = wf_nodes s ! j" if "j < length (wf_nodes s)" "j \<noteq> i" for j
    using that same_index [OF assms(1) that(1) assms(2)] assms(3) by (simp add: assms(6) s' updateSelectedConfig_def)
  moreover have "s' = s\<lparr>wf_nodes := ns'\<rparr>" "length ns' = length (wf_nodes s)"
    by (simp_all add: assms(6) s' updateSelectedConfig_def)
  moreover have "opt_fld (fld (ns' ! i) ''data'') k = fld (as_row (fld (wf_nodes s ! i) ''data'')) k" if "k \<noteq> ''config''" for k
    using that by (simp add: i set_config_def)
  moreover have "fld (ns' ! i) k = fld (wf_nodes s ! i) k" if "k \<noteq> ''data''" for k
    using that by (simp add: i set_config_def)
  ultimately show ?thesis by (simp add: i node_config_set)
qed

theorem config_edit_is_local_witness:
  "opt_fld (node_config (wf_nodes (fst (builder_step plain_canvas (ConfigField [(''key'', JStr ''command'')] ''x'')
     ((load_workflow seeded_workflow (init_builder 0))\<lparr>selectedNodeId := JStr ''2''\<rparr>))) ! 1)) ''command'' = JStr ''x'' \<and>
   opt_fld (fld (wf_nodes (fst (builder_step plain_canvas (ConfigField [(''key'', JStr ''command'')] ''x'')
     ((load_workflow seeded_workflow (init_builder 0))\<lparr>selectedNodeId := JStr ''2''\<rparr>))) ! 1) ''data'') ''label'' = JStr ''Block IP''"
proof -
  let ?s = "(load_workflow seeded_workflow (init_builder 0))\<lparr>selectedNodeId := JStr ''2''\<rparr>"
  let ?f = "[(''key'', JStr ''command'')]"
  have ns: "wf_nodes (load_workflow seeded_workflow (init_builder 0)) =
      map as_row (as_list (opt_fld seeded_workflow ''nodes''))"
    by (simp add: load_workflow_def seeded_workflow_def)
  have sn: "as_list (opt_fld seeded_workflow ''nodes'') =
      [JObj [(''id'', JStr ''1''), (''type'', JStr ''trigger.manual''), (''data'', JObj [(''label'', JStr ''Manual trigger'')])],
       JObj [(''id'', JStr ''2''), (''type'', JStr ''action.wazuh_active_response''),
         (''data'', JObj [(''label'', JStr ''Block IP''), (''config'', JObj [(''command'', JStr ''firewall-drop'')])])]]"
    by (simp add: seeded_workflow_def)
  have d: "distinct (ids (wf_nodes ?s))" "1 < length (wf_nodes ?s)" "selectedNodeId ?s = fld (wf_nodes ?s ! 1) ''id''"
    by (simp_all add: ns sn ids_def)
  have l: "fld (as_row (fld (wf_nodes ?s ! 1) ''data'')) ''label'' = JStr ''Block IP''"
    by (simp add: ns sn)
  note r = config_edit_is_local [OF d(1,2,3) refl refl refl, of plain_canvas ?f "''x''"]
  have "opt_fld (fld (wf_nodes (fst (builder_step plain_canvas (ConfigField ?f ''x'') ?s)) ! 1) ''data'') ''label'' = JStr ''Block IP''"
    using r l by auto
  moreover have "opt_fld (node_config (wf_nodes (fst (builder_step plain_canvas (ConfigField ?f ''x'') ?s)) ! 1)) ''command'' = JStr ''x''"
    using conjunct1 [OF conjunct2 [OF conjunct2 [OF r]]] by simp
  ultimately show ?thesis by blast
qed

lemma fld_default_config:
  "fld (default_config schema) k =
     (case List.find (\<lambda>f. js_string (fld f ''key'') = k) (rev schema) of
        None \<Rightarrow> JUndef | Some f \<Rightarrow> jcoalesce (fld f ''default'') (JStr []))"
proof (induction schema rule: rev_induct)
  case (snoc f fs)
  have d: "default_config (fs @ [f]) = upd (default_config fs) (js_string (fld f ''key'')) (jcoalesce (fld f ''default'') (JStr []))"
    by (simp add: default_config_def)
  show ?case
  proof (cases "js_string (fld f ''key'') = k")
    case True
    then show ?thesis by (simp add: d)
  next
    case False
    then show ?thesis using snoc by (simp add: d)
  qed
qed (simp add: default_config_def)

lemma keys_default_config:
  "set (map fst (default_config schema)) = set (map (\<lambda>f. js_string (fld f ''key'')) schema)"
proof (induction schema rule: rev_induct)
  case (snoc f fs)
  have "default_config (fs @ [f]) = upd (default_config fs) (js_string (fld f ''key'')) (jcoalesce (fld f ''default'') (JStr []))"
    by (simp add: default_config_def)
  with snoc show ?case by (simp only: keys_upd) simp
qed (simp add: default_config_def)

text \<open>C38. A node dragged from the palette arrives complete: one node is appended, of the entry's type, with
  its label and at the place of the drop, and its configuration has a setting for each field of the entry's
  schema and no other, with the field's default, or the empty text where the field has none (the last
  field counts where two have one key). The new id is not in use, provided the ids in use of the shape
  the page makes were made earlier or by the page itself. Nothing happens before the canvas is ready.\<close>

theorem dropped_node_complete:
  assumes "catalog_entry (nodeCatalog cx) (fld n ''type'') = Some n" "fld n ''type'' = JStr ty" "ty \<noteq> []"
    and "fld n ''label'' = JStr label" "label \<noteq> []"
    and "s' = fst (builder_step cx (palette_drop n now pos) s)"
    and "\<And>t c. JStr (node_id t c) \<in> set (ids (wf_nodes s)) \<Longrightarrow> t < now \<or> c \<le> idCounter s"
    and "schema = map as_row (as_list (fld n ''config_schema''))"
  shows "(\<not> canvas_ready cx \<longrightarrow> s' = s) \<and>
    (canvas_ready cx \<longrightarrow> (\<exists>node cfg. s' = s\<lparr>wf_nodes := wf_nodes s @ [node], idCounter := Suc (idCounter s)\<rparr> \<and>
       fld node ''id'' = JStr (node_id now (Suc (idCounter s))) \<and> fld node ''id'' \<notin> set (ids (wf_nodes s)) \<and>
       fld node ''type'' = JStr ty \<and> fld node ''position'' = pos \<and>
       opt_fld (fld node ''data'') ''label'' = JStr label \<and> opt_fld (fld node ''data'') ''config'' = JObj cfg \<and>
       set (map fst cfg) = set (map (\<lambda>f. js_string (fld f ''key'')) schema) \<and>
       (\<forall>k. fld cfg k = (case List.find (\<lambda>f. js_string (fld f ''key'') = k) (rev schema) of
          None \<Rightarrow> JUndef
        | Some f \<Rightarrow> if nullish (fld f ''default'') then JStr '''' else fld f ''default''))))"
proof -
  have f: "JStr (node_id now (Suc (idCounter s))) \<notin> set (ids (wf_nodes s))"
    using assms(7) by (intro old_ids_fresh [of now]) (auto simp: old_ids_def)
  have sch: "schema_of (Some n) = schema" by (simp add: schema_of_def assms(8))
  let ?node = "new_node cx (node_id now (Suc (idCounter s))) ty label pos"
  have e: "catalog_entry (nodeCatalog cx) (JStr ty) = Some n" using assms(1,2) by simp
  have ready: "canvas_ready cx \<Longrightarrow> s' = s\<lparr>wf_nodes := wf_nodes s @ [?node], idCounter := Suc (idCounter s)\<rparr>"
    using assms(2-6) by (simp add: palette_drop_def)
  have not_ready: "\<not> canvas_ready cx \<Longrightarrow> s' = s" using assms(6) by (simp add: palette_drop_def)
  have node: "opt_fld (fld ?node ''data'') ''config'' = JObj (default_config schema)"
    "opt_fld (fld ?node ''data'') ''label'' = JStr label" "fld ?node ''id'' = JStr (node_id now (Suc (idCounter s)))"
    "fld ?node ''type'' = JStr ty" "fld ?node ''position'' = pos"
    using assms(5) by (simp_all add: new_node_def e sch jor_def)
  have cfg: "\<forall>k. fld (default_config schema) k = (case List.find (\<lambda>f. js_string (fld f ''key'') = k) (rev schema) of
      None \<Rightarrow> JUndef | Some f \<Rightarrow> if nullish (fld f ''default'') then JStr '''' else fld f ''default'')"
    unfolding fld_default_config jcoalesce_def by (rule allI) (rule refl)
  have fresh: "fld ?node ''id'' \<notin> set (ids (wf_nodes s))" unfolding node(3) by (rule f)
  show ?thesis
    by (intro conjI impI not_ready exI [of _ ?node] exI [of _ "default_config schema"]
        ready node fresh cfg keys_default_config)
qed

definition slack_entry :: row where
  "slack_entry = [(''type'', JStr ''action.slack''), (''label'', JStr ''Slack''),
     (''config_schema'', JArr [JObj [(''key'', JStr ''channel''), (''default'', JStr ''#soc'')], JObj [(''key'', JStr ''text'')]])]"

theorem dropped_node_complete_witness:
  "\<exists>node cfg. wf_nodes (fst (builder_step (plain_canvas\<lparr>nodeCatalog := [slack_entry]\<rparr>)
     (palette_drop slack_entry 5 JNull) (init_builder 0))) = [node] \<and>
     opt_fld (fld node ''data'') ''config'' = JObj cfg \<and> fld cfg ''channel'' = JStr ''#soc'' \<and> fld cfg ''text'' = JStr ''''"
proof -
  let ?cx = "plain_canvas\<lparr>nodeCatalog := [slack_entry]\<rparr>"
  let ?s' = "fst (builder_step ?cx (palette_drop slack_entry 5 JNull) (init_builder 0))"
  have h: "catalog_entry (nodeCatalog ?cx) (fld slack_entry ''type'') = Some slack_entry"
    "fld slack_entry ''type'' = JStr ''action.slack''" "''action.slack'' \<noteq> []"
    "fld slack_entry ''label'' = JStr ''Slack''" "''Slack'' \<noteq> []" "canvas_ready ?cx"
    "wf_nodes (init_builder 0) = []"
    by (simp_all add: catalog_entry_def slack_entry_def plain_canvas_def init_builder_def)
  have fs: "map as_row (as_list (fld slack_entry ''config_schema'')) =
      [[(''key'', JStr ''channel''), (''default'', JStr ''#soc'')], [(''key'', JStr ''text'')]]"
    by (simp add: slack_entry_def)
  from dropped_node_complete [OF h(1-5) refl _ refl, of "init_builder 0" 5 JNull] h(6,7)
  obtain node cfg where n: "?s' = (init_builder 0)\<lparr>wf_nodes := [node], idCounter := Suc (idCounter (init_builder 0))\<rparr>"
      "opt_fld (fld node ''data'') ''config'' = JObj cfg"
      "\<forall>k. fld cfg k = (case List.find (\<lambda>f. js_string (fld f ''key'') = k)
          (rev (map as_row (as_list (fld slack_entry ''config_schema'')))) of
          None \<Rightarrow> JUndef | Some f \<Rightarrow> if nullish (fld f ''default'') then JStr '''' else fld f ''default'')"
    by (auto simp: ids_def)
  have "wf_nodes ?s' = [node]" using n(1) by simp
  moreover have "fld cfg ''channel'' = JStr ''#soc''" "fld cfg ''text'' = JStr ''''"
    using n(3) by (simp_all add: fs)
  ultimately show ?thesis using n(2) by blast
qed

section \<open>Saving and loading\<close>

lemma map_as_row [simp]: "map (as_row \<circ> JObj) rs = rs"
  by (induction rs) simp_all

text \<open>C16. A workflow that was saved opens as it was: loading the payload of the save request into any
  builder restores its name, its description, its nodes and its edges, and saving again sends the
  same payload.\<close>

theorem save_load_roundtrip:
  assumes "wf_description s = JStr d"
  shows "let s' = fst (builder_step cx (WorkflowLoaded (JObj (payload s))) s0) in
    wf_name s' = wf_name s \<and> wf_description s' = wf_description s \<and>
    wf_nodes s' = wf_nodes s \<and> wf_edges s' = wf_edges s \<and> payload s' = payload s"
  using assms
  by (simp add: Let_def load_workflow_def payload_def split_beta jor_def)

theorem save_load_roundtrip_witness:
  "wf_name (fst (builder_step plain_canvas (WorkflowLoaded (JObj (payload (init_builder 3)))) (init_builder 9))) =
   JStr ''New workflow''"
  using save_load_roundtrip [of "init_builder 3" "[]" plain_canvas "init_builder 9"]
  by (simp add: init_builder_def Let_def)

section \<open>The palette\<close>

lemma grouped_snoc: "grouped (c @ [n]) = add_to_group n (grouped c)"
  by (simp add: grouped_def)

lemma keys_add_to_group: "map fst (add_to_group n g) =
    (if js_string (fld n ''category'') \<in> set (map fst g) then map fst g
     else map fst g @ [js_string (fld n ''category'')])"
  by (induction n g rule: add_to_group.induct) auto

lemma find_add_to_group: "distinct (map fst g) \<Longrightarrow> map_of (add_to_group n g) k =
    (if k = js_string (fld n ''category'')
     then Some ((case map_of g k of Some ns \<Rightarrow> ns | None \<Rightarrow> []) @ [n]) else map_of g k)"
  by (induction n g rule: add_to_group.induct) auto

lemma grouped_keys: "distinct (map fst (grouped c)) \<and> take 3 (map fst (grouped c)) = [''trigger'', ''logic'', ''action'']"
proof (induction c rule: rev_induct)
  case Nil
  then show ?case by (simp add: grouped_def)
next
  case (snoc n c)
  have "length (map fst (grouped c)) \<ge> 3" using snoc by (metis length_Cons length_take list.size(3) min.cobounded1 numeral_3_eq_3)
  with snoc show ?case by (auto simp: grouped_snoc keys_add_to_group)
qed

text \<open>The palette shows every node type of the catalog exactly once, in the group of its category and
  in the catalog's order, with the groups for triggers, logic and actions first.\<close>

theorem palette_complete:
  "distinct (map fst (grouped catalog)) \<and>
   take 3 (map fst (grouped catalog)) = [''trigger'', ''logic'', ''action''] \<and>
   (\<forall>k. (case map_of (grouped catalog) k of Some ns \<Rightarrow> ns | None \<Rightarrow> []) =
        filter (\<lambda>n. js_string (fld n ''category'') = k) catalog)"
proof -
  have "(case map_of (grouped catalog) k of Some ns \<Rightarrow> ns | None \<Rightarrow> []) =
      filter (\<lambda>n. js_string (fld n ''category'') = k) catalog" for k
  proof (induction catalog rule: rev_induct)
    case Nil
    then show ?case by (simp add: grouped_def)
  next
    case (snoc n c)
    then show ?case using grouped_keys [of c] by (simp add: grouped_snoc find_add_to_group)
  qed
  then show ?thesis using grouped_keys by blast
qed

section \<open>The editor's own query\<close>

definition builder_query :: "string \<Rightarrow> jsval list" where
  "builder_query i = [JStr ''workflow'', JStr i]"

text \<open>Saving invalidates the list of workflows but not the query the editor itself is filled from,
  whose key is that of the single workflow: an editor opened again while that answer is fresh shows
  the workflow as it was before it was saved.\<close>

theorem saved_workflow_not_refetched:
  assumes "Invalidate k \<in> set (snd (builder_step cx (WorkflowSaved res) s))"
  shows "k = [JStr ''workflows''] \<and> \<not> prefix k (builder_query i)"
  using assms by (auto simp: builder_query_def split: if_splits)

theorem saved_workflow_not_refetched_witness:
  "\<not> prefix [JStr ''workflows''] (builder_query ''w1'')"
  using saved_workflow_not_refetched [of "[JStr ''workflows'']" plain_canvas JUndef "init_builder 0" "''w1''"]
  by simp

end
