(* ===== verification/SoarList.thy ===== *)
theory SoarList
  imports Workflow
begin

text \<open>
  The workflow list, \<open>frontend/src/pages/SettingsSOAR.tsx\<close> (the page behind \<open>/soar\<close>): its counters, the
  description of a trigger, and the actions of a row. The browser's confirmation dialog is an argument.
\<close>

section \<open>Handlers\<close>

record soar_state =
  expanded_wf :: jsval

datatype soar_event =
    NewWorkflow
  | ToggleDetail row
  | RunWf row
  | RunWfQueued
  | RunWfFailed
  | ToggleActive row
  | ActiveToggled
  | ToggleFailed
  | EditWf row
  | DeleteWf row
  | WfDeleted
  | DeleteFailed

fun soar_step :: "(string \<Rightarrow> bool) \<Rightarrow> soar_event \<Rightarrow> soar_state \<Rightarrow> soar_state \<times> api_call effect list" where
  "soar_step confirm NewWorkflow s = (s, [Navigate ''/soar/new''])"
| "soar_step confirm (ToggleDetail w) s =
     (s\<lparr>expanded_wf := (if expanded_wf s = fld w ''id'' then JNull else fld w ''id'')\<rparr>, [])"
| "soar_step confirm (RunWf w) s = (s, [Call (IntelCall (RunWorkflow (row_id w) JUndef))])"
| "soar_step confirm RunWfQueued s = (s, [ToastOk ''Workflow run queued'', Invalidate [JStr ''workflows'']])"
| "soar_step confirm RunWfFailed s = (s, [ToastErr (JStr ''Failed to queue workflow run'')])"
| "soar_step confirm (ToggleActive w) s =
     (s, [Call (IntelCall (UpdateWorkflow (row_id w)
        (JObj [(''is_active'', JBool (\<not> truthy (fld w ''is_active'')))])))])"
| "soar_step confirm ActiveToggled s = (s, [Invalidate [JStr ''workflows'']])"
| "soar_step confirm ToggleFailed s = (s, [ToastErr (JStr ''Failed to update workflow'')])"
| "soar_step confirm (EditWf w) s = (s, [Navigate (''/soar/'' @ row_id w @ ''/edit'')])"
| "soar_step confirm (DeleteWf w) s =
     (s, if confirm (''Delete workflow \"'' @ js_string (fld w ''name'') @ ''\"?'')
         then [Call (IntelCall (DeleteWorkflow (row_id w)))] else [])"
| "soar_step confirm WfDeleted s = (s, [ToastOk ''Workflow deleted'', Invalidate [JStr ''workflows'']])"
| "soar_step confirm DeleteFailed s = (s, [ToastErr (JStr ''Failed to delete workflow'')])"

section \<open>The rendered page\<close>

definition describeTrigger :: "row \<Rightarrow> string" where
  "describeTrigger w =
     (if fld w ''trigger_type'' = JStr ''alert''
      then ''Alert: severity>='' @
           js_string (jcoalesce (opt_fld (fld w ''trigger_config'') ''severity'') (JStr ''critical''))
      else if fld w ''trigger_type'' = JStr ''schedule'' then ''Schedule''
      else if fld w ''trigger_type'' = JStr ''webhook'' then ''Webhook''
      else ''Manual'')"

text \<open>\<open>w.run_count || 0\<close>, a number or nothing.\<close>

fun num_or_zero :: "jsval \<Rightarrow> int" where
  "num_or_zero (JNum n) = n"
| "num_or_zero _ = 0"

definition enabled_count :: "row list \<Rightarrow> nat" where
  "enabled_count wfs = length (filter (\<lambda>w. truthy (fld w ''is_active'')) wfs)"

definition total_runs :: "row list \<Rightarrow> int" where
  "total_runs wfs = foldl (\<lambda>acc w. acc + num_or_zero (fld w ''run_count'')) 0 wfs"

definition soar_stats_view :: "row list \<Rightarrow> soar_event ui list" where
  "soar_stats_view wfs =
     [Txt ''Total workflows'', Txt (nat_dec (length wfs)), Txt ''Enabled'', Txt (nat_dec (enabled_count wfs)),
      Txt ''Total executions'', Txt (int_dec (total_runs wfs))]"

definition wf_node_list :: "row \<Rightarrow> row list" where
  "wf_node_list w = map as_row (as_list (fld w ''nodes''))"

definition workflow_detail :: "bool \<Rightarrow> bool \<Rightarrow> row \<Rightarrow> soar_event ui list" where
  "workflow_detail runPending togglePending w =
     (let ns = wf_node_list w in
      [Txt (''Nodes ('' @ nat_dec (length ns) @ '')'')] @
      map (\<lambda>(i, n). Box [Txt (nat_dec (i + 1)),
             Val (jor (opt_fld (fld n ''data'') ''label'') (fld n ''type''))]) (zip [0..<length ns] ns) @
      shown (ns = []) [Txt (''Empty '' @ mdash @ '' open the builder to add nodes.'')] @
      [Txt (if truthy (fld w ''last_run_at'') then ''Last run '' @ js_string (fld w ''last_run_at'') else ''Never run''),
       Txt (''Trigger: '' @ describeTrigger w),
       Btn ''Run now'' runPending (RunWf w),
       Btn (if truthy (fld w ''is_active'') then ''Disable'' else ''Enable'') togglePending (ToggleActive w),
       Btn ''Edit'' False (EditWf w),
       Btn ''Delete'' False (DeleteWf w)])"

definition workflow_row :: "bool \<Rightarrow> bool \<Rightarrow> soar_state \<Rightarrow> row \<Rightarrow> soar_event ui" where
  "workflow_row runPending togglePending s w = Box
     ([Clickable (ToggleDetail w) [Val (fld w ''name''), Val (jor (fld w ''description'') (JStr ''No description'')),
         Txt (int_dec (num_or_zero (fld w ''run_count'')) @ '' runs'')]] @
      shown (expanded_wf s = fld w ''id'') (workflow_detail runPending togglePending w))"

definition soar_view ::
  "bool \<Rightarrow> bool \<Rightarrow> bool \<Rightarrow> row list \<Rightarrow> soar_state \<Rightarrow> soar_event ui list" where
  "soar_view isLoading runPending togglePending wfs s =
     [Txt ''SOAR'', Txt ''Security orchestration, automation, and response workflows'',
      Btn ''New workflow'' False NewWorkflow] @
     soar_stats_view wfs @
     (if isLoading then [Txt (''Loading workflows'' @ ellipsis)]
      else if wfs = [] then [Txt (''No workflows yet '' @ mdash @ '' create one to get started.'')]
      else map (workflow_row runPending togglePending s) wfs) @
     [Txt ''Need more integrations?'',
      Txt ''The built-in builder covers alerts, cases, Slack, email, HTTP, and Wazuh active response. For 800+ third-party integrations, pair it with Shuffle SOAR.'',
      Link ''Open Shuffle'' ''http://localhost:3001'']"

section \<open>Clicks\<close>

lemma clicks_detail: "e \<in> set (page_clicks (workflow_detail rp tp w)) \<longleftrightarrow>
    e = RunWf w \<and> \<not> rp \<or> e = ToggleActive w \<and> \<not> tp \<or> e = EditWf w \<or> e = DeleteWf w"
  by (auto simp: workflow_detail_def Let_def page_clicks_map)

lemma clicks_soar: "e \<in> set (page_clicks (soar_view l rp tp wfs s)) \<longleftrightarrow>
    e = NewWorkflow \<or> (\<not> l \<and> (\<exists>w \<in> set wfs. e = ToggleDetail w \<or>
      expanded_wf s = fld w ''id'' \<and> e \<in> set (page_clicks (workflow_detail rp tp w))))"
  by (auto simp: soar_view_def soar_stats_view_def page_clicks_map workflow_row_def)

section \<open>Properties\<close>

text \<open>The list acts only on the workflow whose row is open, and as announced: it runs it only from the
  enabled button, sends the opposite of its active flag, and deletes it only after the dialog naming
  it was confirmed.\<close>

theorem soar_actions_guarded:
  assumes "e \<in> set (page_clicks (soar_view isLoading runPending togglePending wfs s))"
    and "IntelCall c \<in> set (calls_of (snd (soar_step confirm e s)))"
  shows "\<exists>w \<in> set wfs. expanded_wf s = fld w ''id'' \<and>
    (c = RunWorkflow (row_id w) JUndef \<and> \<not> runPending \<or>
     c = UpdateWorkflow (row_id w) (JObj [(''is_active'', JBool (\<not> truthy (fld w ''is_active'')))]) \<and> \<not> togglePending \<or>
     c = DeleteWorkflow (row_id w) \<and> confirm (''Delete workflow \"'' @ js_string (fld w ''name'') @ ''\"?''))"
  using assms by (auto simp: clicks_soar clicks_detail split: if_splits)

theorem soar_actions_guarded_witness:
  "\<exists>w \<in> set [[(''id'', JStr ''a'')]]. row_id w = ''a''"
  using soar_actions_guarded [of "DeleteWf [(''id'', JStr ''a'')]" False False False "[[(''id'', JStr ''a'')]]"
      "\<lparr>expanded_wf = JStr ''a''\<rparr>" "DeleteWorkflow ''a''" "\<lambda>q. True"]
  by (simp add: clicks_soar clicks_detail row_id_def)

text \<open>The list describes the trigger the builder saves: a workflow whose first trigger node is an alert
  trigger is listed with that node's severity, critical when it sets none, and a workflow whose first
  trigger is the manual one, or that has no trigger node, as manual.\<close>

theorem saved_trigger_described:
  assumes "List.find (\<lambda>n. prefix ''trigger.'' (js_string (fld n ''type''))) (wf_nodes s) = start"
  shows "(start = None \<longrightarrow> describeTrigger (payload s) = ''Manual'') \<and>
    (\<forall>n. start = Some n \<and> fld n ''type'' = JStr ''trigger.manual'' \<longrightarrow> describeTrigger (payload s) = ''Manual'') \<and>
    (\<forall>n cfg. start = Some n \<and> fld n ''type'' = JStr ''trigger.alert'' \<and> node_config n = JObj cfg \<longrightarrow>
       describeTrigger (payload s) =
         ''Alert: severity>='' @ js_string (jcoalesce (fld cfg ''severity'') (JStr ''critical'')))"
  using assms by (auto simp: payload_def deriveTrigger_def describeTrigger_def jor_def split_beta Let_def)

theorem saved_trigger_described_witness:
  "describeTrigger (payload (init_builder 0)) = ''Manual''"
  using saved_trigger_described [of "init_builder 0" None] by (simp add: init_builder_def)

end

