(* ===== verification/DashboardWidget.thy ===== *)
theory DashboardWidget
  imports Complex_Main Ui
begin

text \<open>
  One dashboard widget, \<open>frontend/src/components/DashboardWidget.tsx\<close>: which body a widget gets, the
  arithmetic of the gauge and of the heat map, and the cells of the table. The charts the library
  draws are shown as the names and values they are given; quotients are exact rationals here.
\<close>

section \<open>Gauge\<close>

text \<open>
  \<open>Number(widget.data) || 0\<close>: the API answers a number or nothing; \<open>Number\<close> of a numeric text is not
  covered.
\<close>

definition widget_config :: "row \<Rightarrow> string \<Rightarrow> jsval" where
  "widget_config w k = opt_fld (fld w ''config'') k"

definition int_or :: "jsval \<Rightarrow> int \<Rightarrow> int" where
  "int_or v d = (case v of JNum n \<Rightarrow> n | JBool b \<Rightarrow> (if b then 1 else 0) | _ \<Rightarrow> d)"

definition gauge_value :: "row \<Rightarrow> int" where
  "gauge_value w = int_or (fld w ''data'') 0"

definition gauge_min :: "row \<Rightarrow> int" where
  "gauge_min w = int_or (jcoalesce (widget_config w ''min'') (JNum 0)) 0"

definition gauge_max :: "row \<Rightarrow> int" where
  "gauge_max w = int_or (jcoalesce (widget_config w ''max'') (JNum 100)) 0"

text \<open>
  \<open>Math.min(1, Math.max(0, (value - min) / (max - min)))\<close>. On an empty scale the quotient is infinite,
  which is clamped, or \<open>NaN\<close>, which stays: \<open>None\<close>.
\<close>

definition gauge_pct :: "int \<Rightarrow> int \<Rightarrow> int \<Rightarrow> rat option" where
  "gauge_pct v lo hi =
     (if hi = lo then (if v > lo then Some 1 else if v < lo then Some 0 else None)
      else Some (min 1 (max 0 (of_int (v - lo) / of_int (hi - lo)))))"

definition gauge_color :: "int \<Rightarrow> row list \<Rightarrow> jsval" where
  "gauge_color v thresholds =
     (case List.find (\<lambda>t. case fld t ''upto'' of JNum u \<Rightarrow> v \<le> u | _ \<Rightarrow> False) thresholds of
        Some t \<Rightarrow> jor (fld t ''color'') (JStr ''#60a5fa'')
      | None \<Rightarrow> JStr ''#60a5fa'')"

definition GaugeWidget :: "row \<Rightarrow> 'e ui list" where
  "GaugeWidget w =
     [Val (gauge_color (gauge_value w) (map as_row (as_list (widget_config w ''thresholds'')))),
      Txt (int_dec (gauge_value w) @ js_string (jor (widget_config w ''unit'') (JStr [])))] @
     shown (truthy (widget_config w ''detail'')) [Val (widget_config w ''detail'')]"

section \<open>Heat map\<close>

definition cell_key :: "jsval \<Rightarrow> jsval \<Rightarrow> string" where
  "cell_key y x = js_string y @ CHR ''|'' # js_string x"

definition cell_value :: "row \<Rightarrow> int" where
  "cell_value d = int_or (fld d ''value'') 0"

definition byCell :: "row list \<Rightarrow> string \<Rightarrow> int option" where
  "byCell ds = foldl (\<lambda>m d. m(cell_key (fld d ''y'') (fld d ''x'') \<mapsto> cell_value d)) Map.empty ds"

definition maxVal :: "row list \<Rightarrow> int" where
  "maxVal ds = foldl (\<lambda>m d. if cell_value d > m then cell_value d else m) 0 ds"

definition cell_at :: "row list \<Rightarrow> jsval \<Rightarrow> jsval \<Rightarrow> int" where
  "cell_at ds y x = (case byCell ds (cell_key y x) of Some v \<Rightarrow> v | None \<Rightarrow> 0)"

definition intensity :: "row list \<Rightarrow> jsval \<Rightarrow> jsval \<Rightarrow> rat" where
  "intensity ds y x = (if maxVal ds \<noteq> 0 then of_int (cell_at ds y x) / of_int (maxVal ds) else 0)"

definition widget_data :: "row \<Rightarrow> row list" where
  "widget_data w = map as_row (as_list (fld w ''data''))"

definition HeatmapWidget :: "row \<Rightarrow> 'e ui list" where
  "HeatmapWidget w =
     (let xs = as_list (widget_config w ''xLabels''); ys = as_list (widget_config w ''yLabels'') in
      map Val xs @
      map (\<lambda>y. Box (Val y # map (\<lambda>x. Txt (js_string y @ '' '' @ js_string x @ '':00 '' @ mdash @ '' '' @
                 int_dec (cell_at (widget_data w) y x) @ '' events'')) xs)) ys)"

section \<open>Charts and tables\<close>

definition named_values :: "row \<Rightarrow> 'e ui list" where
  "named_values w = map (\<lambda>d. Box [Val (fld d ''name''), Val (fld d ''value'')]) (widget_data w)"

definition BarWidget :: "row \<Rightarrow> 'e ui list" where
  "BarWidget w = named_values w"

definition PieWidget :: "row \<Rightarrow> 'e ui list" where
  "PieWidget w = named_values w"

definition LineWidget :: "row \<Rightarrow> 'e ui list" where
  "LineWidget w = Val (jor (widget_config w ''valueLabel'') (JStr ''events'')) # named_values w"

definition HistogramWidget :: "row \<Rightarrow> 'e ui list" where
  "HistogramWidget w = Val (jor (widget_config w ''valueLabel'') (JStr ''count'')) # named_values w"

definition table_columns :: "row \<Rightarrow> string list" where
  "table_columns w =
     (if truthy (fld w ''columns'') then map js_string (as_list (fld w ''columns''))
      else case widget_data w of [] \<Rightarrow> [] | r # _ \<Rightarrow> map fst r)"

definition table_cell :: "row \<Rightarrow> string \<Rightarrow> string" where
  "table_cell r c = (if nullish (fld r c) then mdash else js_string (fld r c))"

definition TableWidget :: "row \<Rightarrow> 'e ui list" where
  "TableWidget w = map Txt (table_columns w) @
     map (\<lambda>r. Box (map (\<lambda>c. Txt (table_cell r c)) (table_columns w))) (widget_data w)"

definition EmptyWidget :: "'e ui list" where
  "EmptyWidget = [Txt ''No data in this window'']"

definition no_data :: "row \<Rightarrow> bool" where
  "no_data w \<longleftrightarrow> \<not> truthy (fld w ''data'') \<or> fld w ''data'' = JArr []"

definition WidgetBody :: "row \<Rightarrow> 'e ui list" where
  "WidgetBody w =
     (let ty = fld w ''type'' in
      if ty = JStr ''stat'' then [Val (jcoalesce (fld w ''data'') (JNum 0))]
      else if ty = JStr ''gauge'' then GaugeWidget w
      else if no_data w then EmptyWidget
      else if ty = JStr ''bar'' then BarWidget w
      else if ty = JStr ''pie'' then PieWidget w
      else if ty = JStr ''line'' then LineWidget w
      else if ty = JStr ''histogram'' then HistogramWidget w
      else if ty = JStr ''heatmap'' then HeatmapWidget w
      else if ty = JStr ''table'' then TableWidget w
      else [])"

definition DashboardWidget :: "row \<Rightarrow> 'e option \<Rightarrow> 'e ui" where
  "DashboardWidget w onRemove =
     Box ([Val (fld w ''title'')] @
          (case onRemove of Some e \<Rightarrow> [Btn ''Remove widget'' False e] | None \<Rightarrow> []) @
          WidgetBody w)"

section \<open>Clicks\<close>

lemma clicks_named: "page_clicks (named_values w) = []"
  by (simp add: named_values_def page_clicks_def o_def)

lemma clicks_body: "page_clicks (WidgetBody w) = []"
proof -
  have boxes: "page_clicks (map (\<lambda>r. Box (map (\<lambda>c. Txt (f r c)) cs)) rs) = []" for f :: "'x \<Rightarrow> 'y \<Rightarrow> string" and cs rs
    by (induction rs) (simp_all add: page_clicks_def o_def)
  have rows: "page_clicks (map (\<lambda>y. Box (Val y # map (\<lambda>x. Txt (f y x)) xs)) ys) = []" for f :: "jsval \<Rightarrow> 'y \<Rightarrow> string" and xs ys
    by (induction ys) (simp_all add: page_clicks_def o_def)
  show ?thesis
    by (simp add: WidgetBody_def Let_def GaugeWidget_def EmptyWidget_def BarWidget_def PieWidget_def
        LineWidget_def HistogramWidget_def HeatmapWidget_def TableWidget_def clicks_named boxes rows)
qed

lemma clicks_widget [simp]: "clicks (DashboardWidget w r) = (case r of Some e \<Rightarrow> [e] | None \<Rightarrow> [])"
  by (cases r) (simp_all add: DashboardWidget_def clicks_body)

section \<open>Properties\<close>

text \<open>The filled part of a gauge is a share between nothing and the whole arc: on a scale that goes up
  it is empty exactly up to the minimum, full exactly from the maximum, and grows with the value; it
  is undefined only when the scale is a single point and the value is that point.\<close>

theorem gauge_fill:
  shows "(gauge_pct v lo hi = None \<longleftrightarrow> hi = lo \<and> v = lo) \<and>
    (\<forall>p. gauge_pct v lo hi = Some p \<longrightarrow> 0 \<le> p \<and> p \<le> 1) \<and>
    (lo < hi \<longrightarrow> (gauge_pct v lo hi = Some 0 \<longleftrightarrow> v \<le> lo) \<and> (gauge_pct v lo hi = Some 1 \<longleftrightarrow> hi \<le> v)) \<and>
    (lo < hi \<and> v \<le> v' \<longrightarrow> the (gauge_pct v lo hi) \<le> the (gauge_pct v' lo hi))"
proof -
  have zero: "min 1 (max 0 (of_int (v - lo) / of_int (hi - lo))) = (0::rat) \<longleftrightarrow> v \<le> lo" if "lo < hi"
  proof -
    have "(of_int (v - lo) / of_int (hi - lo) \<le> (0::rat)) \<longleftrightarrow> v \<le> lo"
      using that by (simp add: divide_le_0_iff)
    then show ?thesis by (auto simp: min_def max_def)
  qed
  have one: "min 1 (max 0 (of_int (v - lo) / of_int (hi - lo))) = (1::rat) \<longleftrightarrow> hi \<le> v" if "lo < hi"
  proof -
    have "(1 \<le> of_int (v - lo) / (of_int (hi - lo) :: rat)) \<longleftrightarrow> hi \<le> v"
      using that by (simp add: le_divide_eq)
    then show ?thesis by (auto simp: min_def max_def)
  qed
  have mono: "min 1 (max 0 (of_int (v - lo) / of_int (hi - lo))) \<le>
      (min 1 (max 0 (of_int (v' - lo) / of_int (hi - lo))) :: rat)" if "lo < hi" "v \<le> v'"
    using that by (intro min.mono max.mono order_refl divide_right_mono) simp_all
  show ?thesis using zero one mono by (simp add: gauge_pct_def)
qed

theorem gauge_fill_witness: "gauge_pct 120 0 100 = Some 1"
  using gauge_fill [of 120 0 100 120] by simp

lemma maxVal_ge: "m0 \<le> foldl (\<lambda>m d. if cell_value d > m then cell_value d else m) m0 ds \<and>
    (\<forall>d \<in> set ds. cell_value d \<le> foldl (\<lambda>m d. if cell_value d > m then cell_value d else m) m0 ds)"
proof (induction ds arbitrary: m0)
  case Nil
  then show ?case by simp
next
  case (Cons d ds)
  from Cons.IH [of "if cell_value d > m0 then cell_value d else m0"] show ?case
    by (auto split: if_splits)
qed

lemma byCell_in: "byCell ds k = Some v \<Longrightarrow> \<exists>d \<in> set ds. cell_key (fld d ''y'') (fld d ''x'') = k \<and> v = cell_value d"
  unfolding byCell_def by (induction ds rule: rev_induct) (auto split: if_splits)

text \<open>With counts that are not negative, every cell of a heat map has an intensity between 0 and 1, and
  a cell no data point names is blank.\<close>

theorem heatmap_intensity:
  assumes "\<And>d. d \<in> set ds \<Longrightarrow> 0 \<le> cell_value d"
  shows "0 \<le> intensity ds y x \<and> intensity ds y x \<le> 1 \<and>
    ((\<forall>d \<in> set ds. cell_key (fld d ''y'') (fld d ''x'') \<noteq> cell_key y x) \<longrightarrow> intensity ds y x = 0)"
proof -
  have m: "0 \<le> maxVal ds" "\<And>d. d \<in> set ds \<Longrightarrow> cell_value d \<le> maxVal ds"
    using maxVal_ge [of 0 ds] by (simp_all add: maxVal_def)
  have c: "0 \<le> cell_at ds y x" "cell_at ds y x \<le> maxVal ds"
    using assms m by (auto simp: cell_at_def split: option.splits dest!: byCell_in)
  have "cell_at ds y x = 0" if "\<forall>d \<in> set ds. cell_key (fld d ''y'') (fld d ''x'') \<noteq> cell_key y x"
    using that by (auto simp: cell_at_def split: option.splits dest!: byCell_in)
  then show ?thesis using c m by (auto simp: intensity_def divide_le_eq)
qed

theorem heatmap_intensity_witness:
  "intensity [[(''y'', JStr ''Mon''), (''x'', JNum 3), (''value'', JNum 5)]] (JStr ''Mon'') (JNum 3) \<le> 1"
  using heatmap_intensity [of "[[(''y'', JStr ''Mon''), (''x'', JNum 3), (''value'', JNum 5)]]" "JStr ''Mon''" "JNum 3"]
  by (simp add: cell_value_def int_or_def)

end
