(* ===== verification/Json.thy ===== *)
theory Json
  imports Prelude
begin

text \<open>
  \<open>JSON.stringify\<close> without indentation: the text the code makes of API values, for the keys of widgets
  and for the cells of tables. Members that are \<open>undefined\<close> are left out of objects and read \<open>null\<close> in
  arrays. On texts it loses nothing.
\<close>

definition hex2 :: "nat \<Rightarrow> string" where
  "hex2 n = [''0123456789abcdef'' ! (n div 16 mod 16), ''0123456789abcdef'' ! (n mod 16)]"

definition json_char :: "char \<Rightarrow> string" where
  "json_char c =
     (if c = CHR 0x22 then [CHR 0x5C, CHR 0x22]
      else if c = CHR 0x5C then [CHR 0x5C, CHR 0x5C]
      else if c = CHR 0x0A then [CHR 0x5C, CHR ''n'']
      else if c = CHR 0x0D then [CHR 0x5C, CHR ''r'']
      else if c = CHR 0x09 then [CHR 0x5C, CHR ''t'']
      else if c = CHR 0x08 then [CHR 0x5C, CHR ''b'']
      else if c = CHR 0x0C then [CHR 0x5C, CHR ''f'']
      else if (of_char c :: nat) < 32 then [CHR 0x5C, CHR ''u'', CHR ''0'', CHR ''0''] @ hex2 (of_char c)
      else [c])"

definition json_str :: "string \<Rightarrow> string" where
  "json_str s = CHR 0x22 # concat (map json_char s) @ [CHR 0x22]"

fun json :: "jsval \<Rightarrow> string" where
  "json JUndef = ''null''"
| "json JNull = ''null''"
| "json (JBool b) = (if b then ''true'' else ''false'')"
| "json (JNum n) = int_dec n"
| "json (JStr s) = json_str s"
| "json (JArr vs) = ''['' @ join '','' (map json vs) @ '']''"
| "json (JObj r) = ''{'' @ join '','' (map (\<lambda>(k, v). json_str k @ '':'' @ json v) (filter (\<lambda>(k, v). v \<noteq> JUndef) r)) @ ''}''"

lemma int_dec_nonempty [simp]: "int_dec i \<noteq> []"
  by (simp add: int_dec_def)

lemma json_nonempty [simp]: "json v \<noteq> []"
  by (cases v) (simp_all add: json_str_def)

lemma join_eq_Nil: "join sep ws = [] \<longleftrightarrow> (\<forall>w \<in> set ws. w = []) \<and> (sep = [] \<or> length ws \<le> 1)"
  by (induction sep ws rule: join.induct) auto

section \<open>Indented output\<close>

text \<open>\<open>JSON.stringify(v, null, 2)\<close> of a value at depth \<open>n\<close>.\<close>

definition json_line :: "nat \<Rightarrow> string" where
  "json_line n = CHR 0x0A # replicate (2 * n) (CHR '' '')"

definition json_block :: "nat \<Rightarrow> string \<Rightarrow> string \<Rightarrow> string list \<Rightarrow> string" where
  "json_block n op cl parts =
     (if parts = [] then op @ cl
      else op @ json_line (Suc n) @ join ('','' @ json_line (Suc n)) parts @ json_line n @ cl)"

fun json_pretty :: "nat \<Rightarrow> jsval \<Rightarrow> string" where
  "json_pretty n (JArr vs) = json_block n ''['' '']'' (map (json_pretty (Suc n)) vs)"
| "json_pretty n (JObj r) = json_block n ''{'' ''}''
     (map (\<lambda>(k, v). json_str k @ '': '' @ json_pretty (Suc n) v) (filter (\<lambda>(k, v). v \<noteq> JUndef) r))"
| "json_pretty n v = json v"

text \<open>
  The white space between the tokens of a JSON text carries no meaning: \<open>squeeze\<close> takes it out, and
  leaves the texts between quotation marks alone.
\<close>

fun squeeze :: "string \<Rightarrow> string" and squeeze_text :: "string \<Rightarrow> string" where
  "squeeze [] = []"
| "squeeze (c # cs) =
     (if c = CHR 0x22 then c # squeeze_text cs
      else if c = CHR '' '' \<or> c = CHR 0x0A then squeeze cs else c # squeeze cs)"
| "squeeze_text [] = []"
| "squeeze_text (c # cs) =
     (if c = CHR 0x22 then c # squeeze cs
      else if c = CHR 0x5C then (case cs of [] \<Rightarrow> [c] | d # ds \<Rightarrow> c # d # squeeze_text ds)
      else c # squeeze_text cs)"

definition plain_token :: "string \<Rightarrow> bool" where
  "plain_token w \<longleftrightarrow> CHR 0x22 \<notin> set w \<and> CHR '' '' \<notin> set w \<and> CHR 0x0A \<notin> set w"

lemma squeeze_plain: "plain_token w \<Longrightarrow> squeeze (w @ rest) = w @ squeeze rest"
  by (induction w) (auto simp: plain_token_def)

lemma squeeze_line [simp]: "squeeze (json_line n @ rest) = squeeze rest"
proof -
  have "squeeze (replicate m (CHR '' '') @ rest) = squeeze rest" for m
    by (induction m) simp_all
  then show ?thesis by (simp add: json_line_def)
qed

lemma hex_digit: "i < 16 \<Longrightarrow> ''0123456789abcdef'' ! i \<in> set ''0123456789abcdef''"
  by (rule nth_mem) simp

lemma squeeze_text_digit:
  assumes "x \<in> set ''0123456789abcdef''"
  shows "squeeze_text (x # cs) = x # squeeze_text cs"
proof -
  have "CHR 0x22 \<notin> set ''0123456789abcdef''" "CHR 0x5C \<notin> set ''0123456789abcdef''" by simp_all
  with assms have "x \<noteq> CHR 0x22" "x \<noteq> CHR 0x5C" by metis+
  then show ?thesis by (simp only: squeeze_text.simps if_False)
qed

lemmas squeeze_text_hex = squeeze_text_digit [OF hex_digit]

lemma squeeze_text_escape: "squeeze_text (CHR 0x5C # d # ds) = CHR 0x5C # d # squeeze_text ds"
  by simp

lemma squeeze_text_other: "c \<noteq> CHR 0x22 \<Longrightarrow> c \<noteq> CHR 0x5C \<Longrightarrow> squeeze_text (c # cs) = c # squeeze_text cs"
  by (simp only: squeeze_text.simps if_False)

lemma squeeze_text_code:
  "squeeze_text ([CHR 0x5C, CHR ''u'', CHR ''0'', CHR ''0''] @ hex2 n @ rest) =
   [CHR 0x5C, CHR ''u'', CHR ''0'', CHR ''0''] @ hex2 n @ squeeze_text rest"
proof -
  have z: "squeeze_text (CHR ''0'' # cs) = CHR ''0'' # squeeze_text cs" for cs by simp
  show ?thesis
    by (simp only: hex2_def append_Cons append_Nil squeeze_text_escape z squeeze_text_hex mod_less_divisor zero_less_numeral)
qed

lemma squeeze_text_char: "squeeze_text (json_char c @ rest) = json_char c @ squeeze_text rest"
proof (cases "(of_char c :: nat) < 32 \<and> c \<notin> {CHR 0x0A, CHR 0x0D, CHR 0x09, CHR 0x08, CHR 0x0C}")
  case True
  have codes: "(of_char (CHR 0x22) :: nat) = 34" "(of_char (CHR 0x5C) :: nat) = 92" by simp_all
  have "c \<noteq> CHR 0x22" using True codes(1) by (intro notI) simp
  moreover have "c \<noteq> CHR 0x5C" using True codes(2) by (intro notI) simp
  ultimately have "json_char c = [CHR 0x5C, CHR ''u'', CHR ''0'', CHR ''0''] @ hex2 (of_char c)"
    using True by (simp add: json_char_def)
  then show ?thesis using squeeze_text_code [of "of_char c" rest] by (simp only: append_assoc)
next
  case False
  then show ?thesis
    by (auto simp: json_char_def squeeze_text_escape squeeze_text_other simp del: squeeze_text.simps)
qed

lemma squeeze_str: "squeeze (json_str s @ rest) = json_str s @ squeeze rest"
proof -
  have "squeeze_text (concat (map json_char s) @ CHR 0x22 # rest) = concat (map json_char s) @ CHR 0x22 # squeeze rest"
    by (induction s) (simp_all add: squeeze_text_char)
  then show ?thesis by (simp add: json_str_def)
qed

lemma squeeze_join:
  assumes "\<And>w r. w \<in> set ws \<Longrightarrow> squeeze (f w @ r) = g w @ squeeze r"
  shows "squeeze (join ('','' @ json_line n) (map f ws) @ rest) = join '','' (map g ws) @ squeeze rest"
  using assms
proof (induction ws)
  case Nil
  then show ?case by simp
next
  case (Cons w ws)
  then show ?case by (cases ws) simp_all
qed

lemma squeeze_block:
  assumes "\<And>w r. w \<in> set ws \<Longrightarrow> squeeze (f w @ r) = g w @ squeeze r" "plain_token op" "plain_token cl"
  shows "squeeze (json_block n op cl (map f ws) @ rest) = op @ join '','' (map g ws) @ cl @ squeeze rest"
  using squeeze_join [of ws f g, OF assms(1)] assms(2,3)
  by (simp add: json_block_def squeeze_plain)

lemma plain_int_dec: "plain_token (int_dec i)"
proof -
  have "plain_token (nat_dec n)" for n
    using set_nat_dec [of n] by (auto simp: plain_token_def digit_chars_def)
  then show ?thesis by (simp add: int_dec_def plain_token_def)
qed

lemma squeeze_pretty: "squeeze (json_pretty n v @ rest) = json v @ squeeze rest"
proof (induction v arbitrary: n rest)
  case (JNum i)
  then show ?case by (simp add: squeeze_plain plain_int_dec)
next
  case (JStr s)
  then show ?case by (simp add: squeeze_str)
next
  case (JArr vs)
  then show ?case by (simp add: squeeze_block [where g = json] plain_token_def)
next
  case (JObj r)
  let ?g = "\<lambda>(k, v). json_str k @ '':'' @ json v"
  have "squeeze ((\<lambda>(k, v). json_str k @ '': '' @ json_pretty (Suc n) v) kv @ s) = ?g kv @ squeeze s"
    if "kv \<in> set (filter (\<lambda>(k, v). v \<noteq> JUndef) r)" for kv s
  proof -
    obtain k v where kv: "kv = (k, v)" by (cases kv)
    with that have "squeeze (json_pretty (Suc n) v @ s) = json v @ squeeze s"
      using JObj.IH [of kv v "Suc n" s] by auto
    then show ?thesis by (simp add: kv squeeze_str)
  qed
  then have "squeeze (json_block n ''{'' ''}'' (map (\<lambda>(k, v). json_str k @ '': '' @ json_pretty (Suc n) v)
      (filter (\<lambda>(k, v). v \<noteq> JUndef) r)) @ rest) =
      ''{'' @ join '','' (map ?g (filter (\<lambda>(k, v). v \<noteq> JUndef) r)) @ ''}'' @ squeeze rest"
    by (rule squeeze_block) (simp_all add: plain_token_def)
  then show ?case by simp
qed simp_all

end
