(* ===== verification/CustomDashboard.thy ===== *)
theory CustomDashboard
  imports ApiClient Async DashboardWidget Json
begin

text \<open>
  The dashboard page, \<open>frontend/src/pages/CustomDashboard.tsx\<close>: the built-in views, the saved dashboards,
  the local widget list with its \<open>dirty\<close> flag, and the two effects that load and reset it. React runs
  the effects whose dependencies changed after each render, in their order, and renders again when
  they changed the state; \<open>settle_effects\<close> is that loop. The query cache is part of the state: a query
  shows the cached answer of its key at once and a fresh one when it arrives. The callbacks of a
  mutation are those of the latest render.
\<close>

section \<open>Widget keys\<close>

definition widgetKey :: "row \<Rightarrow> string" where
  "widgetKey w = js_string (fld w ''generator'') @ json (jor (fld w ''params'') (JObj []))"

section \<open>State and effects\<close>

definition INSIGHTS_VIEW :: string where "INSIGHTS_VIEW = ''__insights__''"
definition VULNS_VIEW :: string where "VULNS_VIEW = ''__vulns__''"

record dash_state =
  hours :: int
  prompt :: string
  dash_view :: string
  menuOpen :: bool
  creating_dash :: bool
  newName :: string
  dashboardWidgets :: "row list"
  dirty :: bool
  cache :: "(string \<times> int) \<Rightarrow> jsval"
  ran_load :: "((string \<times> int) \<times> jsval) option \<times> bool"
  ran_reset :: string

definition isBuiltin :: "dash_state \<Rightarrow> bool" where
  "isBuiltin s \<longleftrightarrow> dash_view s = INSIGHTS_VIEW \<or> dash_view s = VULNS_VIEW"

text \<open>The answer the dashboard query holds; the query is off in the insights view only.\<close>

definition saved :: "dash_state \<Rightarrow> jsval" where
  "saved s = cache s (dash_view s, hours s)"

text \<open>The identity of that answer, the dependency the first effect compares.\<close>

definition saved_ref :: "dash_state \<Rightarrow> ((string \<times> int) \<times> jsval) option" where
  "saved_ref s = (if saved s = JUndef then None else Some ((dash_view s, hours s), saved s))"

definition widgets_of :: "jsval \<Rightarrow> row list" where
  "widgets_of d = map as_row (as_list (opt_fld d ''widgets''))"

definition load_effect :: "dash_state \<Rightarrow> dash_state" where
  "load_effect s =
     (if truthy (opt_fld (saved s) ''widgets'') \<and> \<not> dirty s
      then s\<lparr>dashboardWidgets := widgets_of (saved s)\<rparr> else s)"

definition reset_effect :: "dash_state \<Rightarrow> dash_state" where
  "reset_effect s = s\<lparr>dashboardWidgets := [], dirty := False\<rparr>"

text \<open>One round: both effects see the state of the same render.\<close>

definition run_effects :: "dash_state \<Rightarrow> dash_state" where
  "run_effects s =
     (let s1 = (if ran_load s \<noteq> (saved_ref s, dirty s) then load_effect s else s);
          s2 = (if ran_reset s \<noteq> dash_view s then reset_effect s1 else s1)
      in s2\<lparr>ran_load := (saved_ref s, dirty s), ran_reset := dash_view s\<rparr>)"

definition settle_effects :: "dash_state \<Rightarrow> dash_state" where
  "settle_effects s = run_effects (run_effects s)"

text \<open>Mounting the page: both effects run.\<close>

definition init_dash :: "((string \<times> int) \<Rightarrow> jsval) \<Rightarrow> dash_state" where
  "init_dash c = settle_effects
     \<lparr>hours = 24, prompt = [], dash_view = INSIGHTS_VIEW, menuOpen = False, creating_dash = False,
      newName = [], dashboardWidgets = [], dirty = False, cache = c,
      ran_load = (None, False), ran_reset = []\<rparr>"

section \<open>Handlers\<close>

datatype dash_event =
    PickHours int
  | TypePrompt string
  | PromptEnter
  | Generate
  | Suggest string
  | GenerateFailed
  | ToggleMenu
  | PickView string
  | StartCreating
  | TypeNewName string
  | NewNameEnter
  | CreateDash
  | DashCreated jsval
  | CreateFailed
  | SaveDash
  | DashSaved jsval
  | SaveDashFailed
  | DeleteDash
  | DashDeleted
  | DeleteDashFailed
  | AddWidget row
  | RemoveWidget nat
  | RefreshBuiltin
  | Fetched "string \<times> int" jsval

definition dash_name :: "row list \<Rightarrow> string \<Rightarrow> jsval \<Rightarrow> jsval" where
  "dash_name dashboards v alt =
     (case List.find (\<lambda>d. fld d ''id'' = JStr v) dashboards of
        Some d \<Rightarrow> jor (fld d ''name'') alt | None \<Rightarrow> alt)"

definition currentName :: "row list \<Rightarrow> dash_state \<Rightarrow> jsval" where
  "currentName dashboards s =
     (if dash_view s = INSIGHTS_VIEW then JStr ''Flooding & noise insights''
      else if dash_view s = VULNS_VIEW then JStr ''Vulnerability dashboard''
      else dash_name dashboards (dash_view s) (JStr ''Dashboard''))"

definition addWidget :: "row \<Rightarrow> dash_state \<Rightarrow> dash_state \<times> api_call effect list" where
  "addWidget w s =
     (if isBuiltin s then (s, [ToastInfo ''Select or create a dashboard first (dropdown at the top)''])
      else (s\<lparr>dashboardWidgets := filter (\<lambda>x. widgetKey x \<noteq> widgetKey w) (dashboardWidgets s) @ [w],
              dirty := True\<rparr>,
            [ToastOk (''Added \"'' @ js_string (fld w ''title'') @ ''\" to the dashboard'')]))"

definition generate_call :: "string \<Rightarrow> dash_state \<Rightarrow> api_call effect list" where
  "generate_call p s = [Call (AiCall (GenerateDashboard p (Some (hours s))))]"

text \<open>The handlers, before the effects run; \<open>dashboards\<close> is the list of saved dashboards.\<close>

fun dash_handle ::
  "(string \<Rightarrow> bool) \<Rightarrow> row list \<Rightarrow> dash_event \<Rightarrow> dash_state \<Rightarrow> dash_state \<times> api_call effect list" where
  "dash_handle confirm ds (PickHours h) s = (s\<lparr>hours := h\<rparr>, [])"
| "dash_handle confirm ds (TypePrompt v) s = (s\<lparr>prompt := v\<rparr>, [])"
| "dash_handle confirm ds PromptEnter s =
     (s, if trim (prompt s) = [] then [] else generate_call (trim (prompt s)) s)"
| "dash_handle confirm ds Generate s =
     (s, if trim (prompt s) = [] then [] else generate_call (trim (prompt s)) s)"
| "dash_handle confirm ds (Suggest p) s = (s\<lparr>prompt := p\<rparr>, generate_call p s)"
| "dash_handle confirm ds GenerateFailed s =
     (s, [ToastErr (JStr ''Could not reach the Wazuh indexer to build widgets'')])"
| "dash_handle confirm ds ToggleMenu s = (s\<lparr>menuOpen := \<not> menuOpen s\<rparr>, [])"
| "dash_handle confirm ds (PickView v) s = (s\<lparr>dash_view := v, menuOpen := False\<rparr>, [])"
| "dash_handle confirm ds StartCreating s = (s\<lparr>creating_dash := True\<rparr>, [])"
| "dash_handle confirm ds (TypeNewName v) s = (s\<lparr>newName := v\<rparr>, [])"
| "dash_handle confirm ds NewNameEnter s =
     (s, if trim (newName s) = [] then [] else [Call (AiCall (CreateDashboard (trim (newName s))))])"
| "dash_handle confirm ds CreateDash s = (s, [Call (AiCall (CreateDashboard (trim (newName s))))])"
| "dash_handle confirm ds (DashCreated d) s =
     (s\<lparr>dash_view := js_string (opt_fld d ''id''), creating_dash := False, newName := []\<rparr>,
      [Invalidate [JStr ''ai-dashboards''],
       ToastOk (''Dashboard \"'' @ js_string (opt_fld d ''name'') @ ''\" created'')])"
| "dash_handle confirm ds CreateFailed s = (s, [ToastErr (JStr ''Failed to create dashboard'')])"
| "dash_handle confirm ds SaveDash s =
     (s, [Call (AiCall (SaveDashboard (dash_view s)
            (js_string (dash_name ds (dash_view s) (JStr ''My dashboard''))) (map JObj (dashboardWidgets s))))])"
| "dash_handle confirm ds (DashSaved d) s =
     (s\<lparr>cache := (cache s)((dash_view s, hours s) := d), dirty := False\<rparr>,
      [Invalidate [JStr ''ai-dashboards''], ToastOk ''Dashboard saved''])"
| "dash_handle confirm ds SaveDashFailed s = (s, [ToastErr (JStr ''Failed to save dashboard'')])"
| "dash_handle confirm ds DeleteDash s =
     (s, if confirm (''Delete dashboard \"'' @ js_string (currentName ds s) @ ''\"?'')
         then [Call (AiCall (DeleteDashboard (dash_view s)))] else [])"
| "dash_handle confirm ds DashDeleted s =
     (s\<lparr>dash_view := INSIGHTS_VIEW\<rparr>, [Invalidate [JStr ''ai-dashboards''], ToastOk ''Dashboard deleted''])"
| "dash_handle confirm ds DeleteDashFailed s = (s, [ToastErr (JStr ''Failed to delete dashboard'')])"
| "dash_handle confirm ds (AddWidget w) s = addWidget w s"
| "dash_handle confirm ds (RemoveWidget i) s =
     (s\<lparr>dashboardWidgets := drop_nth i (dashboardWidgets s), dirty := True\<rparr>, [])"
| "dash_handle confirm ds RefreshBuiltin s =
     (s, [Refetch (if dash_view s = INSIGHTS_VIEW then ''insights'' else ''vulns'')])"
| "dash_handle confirm ds (Fetched k d) s = (s\<lparr>cache := (cache s)(k := d)\<rparr>, [])"

definition dash_step ::
  "(string \<Rightarrow> bool) \<Rightarrow> row list \<Rightarrow> dash_event \<Rightarrow> dash_state \<Rightarrow> dash_state \<times> api_call effect list" where
  "dash_step confirm ds e s = (let (s', es) = dash_handle confirm ds e s in (settle_effects s', es))"

section \<open>The rendered page\<close>

definition HOURS_OPTIONS :: "(string \<times> int) list" where
  "HOURS_OPTIONS = [(''24h'', 24), (''7d'', 168)]"

definition PROMPT_SUGGESTIONS :: "string list" where
  "PROMPT_SUGGESTIONS = [''Show event volume over time'', ''Break down events by MITRE tactic'',
     ''Which agents are generating the most events?'', ''Show authentication failures as a line chart'',
     ''Top 5 source IPs as a pie chart'', ''What quiet but risky events might I be missing?'']"

record dash_ctx =
  dashboards_list :: "row list"
  insights_data :: jsval
  vulns_data :: jsval
  view_loading :: bool
  generated :: jsval
  generate_pending :: bool
  create_pending :: bool
  save_pending :: bool

definition menu_view :: "dash_ctx \<Rightarrow> dash_state \<Rightarrow> dash_event ui list" where
  "menu_view cx s = shown (menuOpen s)
     ([Btn ''Flooding & noise insights'' False (PickView INSIGHTS_VIEW),
       Btn ''Vulnerability dashboard'' False (PickView VULNS_VIEW)] @
      map (\<lambda>d. Clickable (PickView (row_id d))
             [Val (fld d ''name''), Txt (js_string (fld d ''widget_count'') @ '' widgets'')]) (dashboards_list cx) @
      (if creating_dash s
       then [Field ''Dashboard name'' (newName s) False TypeNewName,
             Btn ''Create'' (trim (newName s) = [] \<or> create_pending cx) CreateDash]
       else [Btn ''New dashboard'' False StartCreating]))"

definition selector_view :: "dash_ctx \<Rightarrow> dash_state \<Rightarrow> dash_event ui list" where
  "selector_view cx s =
     [Btn (js_string (currentName (dashboards_list cx) s)) False ToggleMenu] @
     shown (\<not> isBuiltin s)
       [Btn (if save_pending cx then ''Saving'' @ ellipsis else ''Save'') (\<not> dirty s \<or> save_pending cx) SaveDash,
        Btn ''Delete'' False DeleteDash] @
     shown (isBuiltin s) [Btn ''Refresh'' False RefreshBuiltin] @
     menu_view cx s"

definition builtin_widgets :: "jsval \<Rightarrow> dash_event ui list" where
  "builtin_widgets d = map (\<lambda>w. DashboardWidget w None) (widgets_of d)"

definition selected_view :: "dash_ctx \<Rightarrow> dash_state \<Rightarrow> dash_event ui list" where
  "selected_view cx s =
     (if dash_view s = INSIGHTS_VIEW
      then (if view_loading cx then [Txt (''Analyzing events'' @ ellipsis)] else builtin_widgets (insights_data cx))
      else if dash_view s = VULNS_VIEW
      then (if view_loading cx then [Txt (''Scanning vulnerability state'' @ ellipsis)]
            else if list_all (\<lambda>w. \<not> truthy (fld w ''data'') \<or> fld w ''data'' = JArr []) (widgets_of (vulns_data cx))
            then [Txt (''No vulnerability data yet '' @ mdash @ '' enroll Wazuh agents with vulnerability detection enabled and findings will appear here'')]
            else builtin_widgets (vulns_data cx))
      else if view_loading cx then [Txt (''Loading dashboard'' @ ellipsis)]
      else if dashboardWidgets s = []
      then [Txt (''No widgets yet '' @ mdash @ '' ask the AI agent below to build some, then add them here'')]
      else map (\<lambda>(i, w). DashboardWidget w (Some (RemoveWidget i)))
             (zip [0..<length (dashboardWidgets s)] (dashboardWidgets s)))"

definition prompt_view :: "dash_ctx \<Rightarrow> dash_state \<Rightarrow> dash_event ui list" where
  "prompt_view cx s =
     [Txt ''Ask the AI agent to build a widget'',
      Field (''e.g. top 5 source IPs as a pie chart '' @ middot @ '' auth failures over time '' @ middot @ '' events by category'')
        (prompt s) False TypePrompt,
      Btn ''Generate'' (generate_pending cx \<or> trim (prompt s) = []) Generate] @
     map (\<lambda>p. Btn p False (Suggest p)) PROMPT_SUGGESTIONS @
     shown (generate_pending cx) [Txt (''Building widgets'' @ ellipsis)] @
     shown (truthy (generated cx) \<and> \<not> generate_pending cx)
       (Val (opt_fld (generated cx) ''summary'') #
        map (\<lambda>w. Box [DashboardWidget w None, Btn ''Add to dashboard'' False (AddWidget w)])
          (widgets_of (generated cx)))"

definition dash_page_view :: "dash_ctx \<Rightarrow> dash_state \<Rightarrow> dash_event ui list" where
  "dash_page_view cx s =
     [Txt ''Dashboard'', Txt (''AI agent view of your Wazuh events '' @ mdash @ '' pick a dashboard or build widgets by prompt'')] @
     map (\<lambda>(l, h). Btn l False (PickHours h)) HOURS_OPTIONS @
     selector_view cx s @ selected_view cx s @ prompt_view cx s"

section \<open>The effects settle\<close>

definition settled :: "dash_state \<Rightarrow> bool" where
  "settled s \<longleftrightarrow> ran_load s = (saved_ref s, dirty s) \<and> ran_reset s = dash_view s"

lemma effects_keep [simp]:
  "dash_view (load_effect s) = dash_view s" "hours (load_effect s) = hours s" "cache (load_effect s) = cache s"
  "dirty (load_effect s) = dirty s"
  "dash_view (reset_effect s) = dash_view s" "hours (reset_effect s) = hours s" "cache (reset_effect s) = cache s"
  "dash_view (run_effects s) = dash_view s" "hours (run_effects s) = hours s" "cache (run_effects s) = cache s"
  by (simp_all add: load_effect_def reset_effect_def run_effects_def Let_def)

lemma saved_keep [simp]: "saved (run_effects s) = saved s" "saved_ref (run_effects s) = saved_ref s"
  by (simp_all add: saved_def saved_ref_def)

lemma settled_run: "settled s \<Longrightarrow> run_effects s = s"
  by (simp add: run_effects_def settled_def Let_def)

lemma run_reset_done: "ran_reset (run_effects s) = dash_view s" "ran_load (run_effects s) = (saved_ref s, dirty s)"
  by (simp_all add: run_effects_def Let_def)

lemma dirty_after_run: "dirty (run_effects s) = (dirty s \<and> ran_reset s = dash_view s)"
  by (simp add: run_effects_def Let_def reset_effect_def)

lemma settled_settle: "settled (settle_effects s)"
  by (simp add: settle_effects_def settled_def run_reset_done dirty_after_run)

text \<open>Without a change of view, only the loading effect can run, and at most once.\<close>

lemma settle_same_view:
  assumes "ran_reset s = dash_view s"
  shows "dashboardWidgets (settle_effects s) =
      (if ran_load s \<noteq> (saved_ref s, dirty s) \<and> truthy (opt_fld (saved s) ''widgets'') \<and> \<not> dirty s
       then widgets_of (saved s) else dashboardWidgets s)"
    and "dirty (settle_effects s) = dirty s"
proof -
  have "settled (run_effects s)" using assms by (simp add: settled_def run_reset_done dirty_after_run)
  then have "settle_effects s = run_effects s" by (simp add: settle_effects_def settled_run)
  then show "dashboardWidgets (settle_effects s) =
      (if ran_load s \<noteq> (saved_ref s, dirty s) \<and> truthy (opt_fld (saved s) ''widgets'') \<and> \<not> dirty s
       then widgets_of (saved s) else dashboardWidgets s)" "dirty (settle_effects s) = dirty s"
    using assms by (simp_all add: run_effects_def Let_def load_effect_def)
qed

text \<open>With a change of view, the list is emptied; it is loaded only if the flag was reset on the way.\<close>

lemma settle_new_view:
  assumes "ran_reset s \<noteq> dash_view s"
  shows "dashboardWidgets (settle_effects s) =
      (if dirty s \<and> truthy (opt_fld (saved s) ''widgets'') then widgets_of (saved s) else [])"
    and "\<not> dirty (settle_effects s)"
proof -
  let ?t = "run_effects s"
  have d: "\<not> dirty ?t" using assms by (simp add: dirty_after_run)
  have w0: "dashboardWidgets ?t = []" using assms by (simp add: run_effects_def Let_def reset_effect_def)
  have t: "ran_reset ?t = dash_view ?t" "ran_load ?t = (saved_ref ?t, dirty s)" "\<not> dirty ?t" "dashboardWidgets ?t = []"
    by (simp only: run_reset_done effects_keep, simp only: run_reset_done saved_keep, rule d, rule w0)
  have "settled (run_effects ?t)" using t by (simp add: settled_def run_reset_done dirty_after_run)
  have w: "dashboardWidgets (run_effects ?t) =
      (if dirty s \<and> truthy (opt_fld (saved s) ''widgets'') then widgets_of (saved s) else [])"
    by (subst run_effects_def) (simp add: Let_def t load_effect_def)
  show "dashboardWidgets (settle_effects s) =
      (if dirty s \<and> truthy (opt_fld (saved s) ''widgets'') then widgets_of (saved s) else [])"
    by (simp add: settle_effects_def w)
  show "\<not> dirty (settle_effects s)" using d by (simp add: settle_effects_def dirty_after_run [of ?t])
qed

lemma settle_keep [simp]:
  "dash_view (settle_effects s) = dash_view s" "hours (settle_effects s) = hours s" "cache (settle_effects s) = cache s"
  by (simp_all add: settle_effects_def)

lemma dash_step_settled: "settled (fst (dash_step confirm ds e s))"
  by (simp add: dash_step_def split_beta Let_def settled_settle)

abbreviation dash_next ::
  "(string \<Rightarrow> bool) \<Rightarrow> row list \<Rightarrow> dash_event \<Rightarrow> dash_state \<Rightarrow> dash_state" where
  "dash_next confirm ds e s \<equiv> fst (dash_step confirm ds e s)"

section \<open>Properties\<close>

text \<open>C39. The two effects never chase each other: from any state two rounds of them reach a state in which
  neither has anything left to do.\<close>

theorem effects_terminate:
  "settled (settle_effects s) \<and> run_effects (settle_effects s) = settle_effects s"
  using settled_settle settled_run by blast

lemma step_same_view:
  assumes "settled s" "dash_view (fst (dash_handle confirm ds e s)) = dash_view s"
    and "ran_reset (fst (dash_handle confirm ds e s)) = ran_reset s"
  shows "ran_reset (fst (dash_handle confirm ds e s)) = dash_view (fst (dash_handle confirm ds e s))"
  using assms by (simp add: settled_def)

text \<open>C17. A dashboard that was not loaded before opens with its saved widgets: after switching to it, its
  answer fills the list, unmodified, and the page is not dirty.\<close>

theorem fresh_dashboard_loads:
  assumes "settled s" "v \<noteq> dash_view s" "cache s (v, hours s) = JUndef" "opt_fld d ''widgets'' = JArr ws"
  shows "let s1 = dash_next confirm ds (PickView v) s; s2 = dash_next confirm ds (Fetched (v, hours s) d) s1 in
    dashboardWidgets s1 = [] \<and> dashboardWidgets s2 = map as_row ws \<and> \<not> dirty s2 \<and> dash_view s2 = v"
proof -
  let ?p = "s\<lparr>dash_view := v, menuOpen := False\<rparr>"
  let ?s1 = "settle_effects ?p"
  have rr: "ran_reset ?p \<noteq> dash_view ?p" using assms(1,2) by (simp add: settled_def)
  have s1: "dashboardWidgets ?s1 = []" "\<not> dirty ?s1" "dash_view ?s1 = v" "hours ?s1 = hours s"
    using settle_new_view [OF rr] assms(3) by (simp_all add: saved_def)
  have ds1: "ran_reset ?s1 = v" "ran_load ?s1 = (None, False)"
    using settled_settle [of ?p] s1 assms(3) by (simp_all add: settled_def saved_ref_def saved_def)
  let ?f = "?s1\<lparr>cache := (cache ?s1)((v, hours s) := d)\<rparr>"
  have d: "d \<noteq> JUndef" using assms(4) by auto
  have f: "ran_reset ?f = dash_view ?f" "saved ?f = d" "ran_load ?f \<noteq> (saved_ref ?f, dirty ?f)"
    using ds1 s1 d by (simp_all add: saved_def saved_ref_def)
  have "dashboardWidgets (settle_effects ?f) = map as_row ws" "\<not> dirty (settle_effects ?f)"
    using settle_same_view [OF f(1)] f(2,3) s1(2) assms(4) by (simp_all add: widgets_of_def)
  then show ?thesis using s1 by (simp add: dash_step_def Let_def)
qed

theorem fresh_dashboard_loads_witness:
  "dashboardWidgets (dash_next (\<lambda>q. True) [] (Fetched (''d1'', 24) (JObj [(''widgets'', JArr [JObj [(''title'', JStr ''T'')]])]))
     (dash_next (\<lambda>q. True) [] (PickView ''d1'') (init_dash (\<lambda>k. JUndef)))) = [[(''title'', JStr ''T'')]]"
proof -
  let ?s = "init_dash (\<lambda>k. JUndef)"
  have s: "settled ?s" "''d1'' \<noteq> dash_view ?s" "cache ?s (''d1'', hours ?s) = JUndef" "hours ?s = 24"
    by (simp_all add: init_dash_def settled_settle INSIGHTS_VIEW_def)
  from fresh_dashboard_loads [OF s(1-3), of "JObj [(''widgets'', JArr [JObj [(''title'', JStr ''T'')]])]"]
  show ?thesis by (simp add: Let_def s(4))
qed

text \<open>C6. A dashboard whose answer is cached opens empty: switching to it without unsaved edits shows no
  widgets although they are there, and adding one and saving then overwrites the dashboard with that
  one widget. Only a switch away from unsaved edits shows them.\<close>

theorem cached_dashboard_opens_empty:
  assumes "settled s" "v \<noteq> dash_view s" "v \<noteq> INSIGHTS_VIEW" "v \<noteq> VULNS_VIEW"
    and "cache s (v, hours s) = d" "opt_fld d ''widgets'' = JArr ws"
    and "s1 = dash_next confirm ds (PickView v) s"
  shows "dashboardWidgets s1 = (if dirty s then map as_row ws else []) \<and>
    (\<not> dirty s \<longrightarrow>
       calls_of (snd (dash_step confirm ds SaveDash (dash_next confirm ds (AddWidget w) s1))) =
         [AiCall (SaveDashboard v (js_string (dash_name ds v (JStr ''My dashboard''))) [JObj w])])"
proof -
  let ?p = "s\<lparr>dash_view := v, menuOpen := False\<rparr>"
  have rr: "ran_reset ?p \<noteq> dash_view ?p" using assms(1,2) by (simp add: settled_def)
  have s1: "s1 = settle_effects ?p" using assms(7) by (simp add: dash_step_def)
  have w1: "dashboardWidgets s1 = (if dirty s then map as_row ws else [])" "dash_view s1 = v"
    using settle_new_view [OF rr] assms(5,6) by (simp_all add: s1 saved_def widgets_of_def)
  have st: "settled s1" by (simp add: s1 settled_settle)
  have nb: "\<not> isBuiltin s1" using assms(3,4) w1(2) by (simp add: isBuiltin_def)
  let ?a = "fst (addWidget w s1)"
  have a: "ran_reset ?a = dash_view ?a" "dirty ?a" "dash_view ?a = v"
    using st w1(2) nb by (simp_all add: addWidget_def settled_def)
  have "\<not> dirty s \<Longrightarrow> dashboardWidgets ?a = [w]" using w1 nb by (simp add: addWidget_def)
  then have "\<not> dirty s \<Longrightarrow> dashboardWidgets (settle_effects ?a) = [w]"
    using settle_same_view(1) [OF a(1)] a(2) by simp
  then show ?thesis using w1 a(3) by (simp add: dash_step_def split_beta Let_def)
qed

theorem cached_dashboard_opens_empty_witness:
  "dashboardWidgets (dash_next (\<lambda>q. True) [] (PickView ''d1'')
     (init_dash (\<lambda>k. JObj [(''widgets'', JArr [JObj [(''title'', JStr ''T'')]])]))) = []"
proof -
  let ?s = "init_dash (\<lambda>k. JObj [(''widgets'', JArr [JObj [(''title'', JStr ''T'')]])])"
  let ?i = "\<lparr>hours = 24, prompt = [], dash_view = INSIGHTS_VIEW, menuOpen = False, creating_dash = False,
      newName = [], dashboardWidgets = [], dirty = False,
      cache = (\<lambda>k. JObj [(''widgets'', JArr [JObj [(''title'', JStr ''T'')]])]),
      ran_load = (None, False), ran_reset = []\<rparr>"
  have s: "settled ?s" "''d1'' \<noteq> dash_view ?s" "''d1'' \<noteq> INSIGHTS_VIEW" "''d1'' \<noteq> VULNS_VIEW"
    by (simp_all add: init_dash_def settled_settle INSIGHTS_VIEW_def VULNS_VIEW_def)
  have "\<not> dirty ?s" unfolding init_dash_def by (rule settle_new_view(2)) (simp add: INSIGHTS_VIEW_def)
  moreover have "cache ?s (''d1'', hours ?s) = JObj [(''widgets'', JArr [JObj [(''title'', JStr ''T'')]])]"
    by (simp add: init_dash_def)
  ultimately show ?thesis
    using cached_dashboard_opens_empty [OF s _ _ refl, of "JObj [(''widgets'', JArr [JObj [(''title'', JStr ''T'')]])]"
        "[JObj [(''title'', JStr ''T'')]]" "\<lambda>q. True" "[]"]
    by simp
qed

text \<open>A widget is on a dashboard at most once: adding one replaces the widget with the same generator
  and parameters, keeps the others in their order and puts it last; on the built-in views nothing is
  added, and the user is told to choose a dashboard.\<close>

theorem widgets_added_once:
  assumes "distinct (map widgetKey (dashboardWidgets s))" "(s', es) = addWidget w s"
  shows "distinct (map widgetKey (dashboardWidgets s')) \<and>
    (isBuiltin s \<longrightarrow> s' = s \<and> es = [ToastInfo ''Select or create a dashboard first (dropdown at the top)'']) \<and>
    (\<not> isBuiltin s \<longrightarrow> last (dashboardWidgets s') = w \<and> dirty s' \<and>
       set (map widgetKey (dashboardWidgets s')) = insert (widgetKey w) (set (map widgetKey (dashboardWidgets s))) \<and>
       subseq (butlast (dashboardWidgets s')) (dashboardWidgets s))"
  using assms by (auto simp: addWidget_def distinct_map_filter split: if_splits)

theorem widgets_added_once_witness:
  "distinct (map widgetKey (dashboardWidgets (fst (addWidget [(''generator'', JStr ''a'')]
     ((init_dash (\<lambda>k. JUndef))\<lparr>dashboardWidgets := [[(''generator'', JStr ''a'')], [(''generator'', JStr ''b'')]]\<rparr>)))))"
proof -
  let ?s = "(init_dash (\<lambda>k. JUndef))\<lparr>dashboardWidgets := [[(''generator'', JStr ''a'')], [(''generator'', JStr ''b'')]]\<rparr>"
  have d: "distinct (map widgetKey (dashboardWidgets ?s))" by (simp add: widgetKey_def)
  obtain s' es where a: "(s', es) = addWidget [(''generator'', JStr ''a'')] ?s" by (metis surj_pair)
  from widgets_added_once [OF d a] show ?thesis by (simp flip: a)
qed

section \<open>What the page offers\<close>

lemma clicks_zip_widgets: "e \<in> set (page_clicks (map (\<lambda>(i, w). DashboardWidget w (Some (f i))) (zip is ws))) \<Longrightarrow>
    \<exists>i \<in> set is. e = f i"
  by (auto simp: page_clicks_map dest: set_zip_leftD)

lemma clicks_builtin: "page_clicks (builtin_widgets d) = []"
  by (simp add: builtin_widgets_def page_clicks_def o_def)

lemma clicks_selected: "e \<in> set (page_clicks (selected_view cx s)) \<Longrightarrow>
    \<not> isBuiltin s \<and> (\<exists>i < length (dashboardWidgets s). e = RemoveWidget i)"
  by (auto simp: selected_view_def isBuiltin_def clicks_builtin dest!: clicks_zip_widgets split: if_splits)

lemma clicks_menu: "e \<in> set (page_clicks (menu_view cx s)) \<Longrightarrow> (\<exists>v. e = PickView v) \<or> e = StartCreating \<or>
    e = CreateDash \<and> trim (newName s) \<noteq> [] \<and> \<not> create_pending cx"
  by (auto simp: menu_view_def page_clicks_map split: if_splits)

lemma clicks_prompt: "e \<in> set (page_clicks (prompt_view cx s)) \<Longrightarrow>
    e = Generate \<and> trim (prompt s) \<noteq> [] \<or> (\<exists>p. e = Suggest p \<and> p \<in> set PROMPT_SUGGESTIONS) \<or> (\<exists>w. e = AddWidget w)"
  by (auto simp: prompt_view_def page_clicks_map split: if_splits)

lemma clicks_selector: "e \<in> set (page_clicks (selector_view cx s)) \<Longrightarrow>
    e = ToggleMenu \<or> e = SaveDash \<and> \<not> isBuiltin s \<and> dirty s \<and> \<not> save_pending cx \<or>
    e = DeleteDash \<and> \<not> isBuiltin s \<or> e = RefreshBuiltin \<and> isBuiltin s \<or> e \<in> set (page_clicks (menu_view cx s))"
  by (auto simp: selector_view_def split: if_splits)

lemma clicks_dash_page: "e \<in> set (page_clicks (dash_page_view cx s)) \<Longrightarrow>
    (\<exists>h. e = PickHours h) \<or> e \<in> set (page_clicks (selector_view cx s)) \<or>
    e \<in> set (page_clicks (selected_view cx s)) \<or> e \<in> set (page_clicks (prompt_view cx s))"
  by (auto simp: dash_page_view_def page_clicks_map)

lemma suggestions_not_blank: "p \<in> set PROMPT_SUGGESTIONS \<Longrightarrow> trim p = p \<and> p \<noteq> []"
  by (auto simp: PROMPT_SUGGESTIONS_def trim_def is_space_def)

lemma add_offered:
  assumes "truthy (generated cx)" "\<not> generate_pending cx" "w \<in> set (widgets_of (generated cx))"
  shows "AddWidget w \<in> set (page_clicks (dash_page_view cx s))"
  using assms by (auto simp: dash_page_view_def prompt_view_def page_clicks_map)

lemma save_offered:
  "SaveDash \<in> set (page_clicks (dash_page_view cx s)) \<longleftrightarrow> \<not> isBuiltin s \<and> dirty s \<and> \<not> save_pending cx"
proof
  assume "SaveDash \<in> set (page_clicks (dash_page_view cx s))"
  then show "\<not> isBuiltin s \<and> dirty s \<and> \<not> save_pending cx"
    by (auto dest!: clicks_dash_page clicks_selector clicks_menu clicks_selected clicks_prompt)
next
  assume "\<not> isBuiltin s \<and> dirty s \<and> \<not> save_pending cx"
  then show "SaveDash \<in> set (page_clicks (dash_page_view cx s))"
    by (simp add: dash_page_view_def selector_view_def)
qed

text \<open>C18. Edits made while a save is running are lost. The save sends the list as it is; while it runs the
  Add buttons of the generated widgets stay enabled, and a click on one puts its widget into
  the list; but when the answer arrives, which has widgets of the list that was sent and not the new
  one, the list is set back to it, the page is clean and the Save button is off: the
  added widget is gone.\<close>

theorem edits_during_save_lost:
  assumes "settled s" "SaveDash \<in> set (page_clicks (dash_page_view (cx\<lparr>save_pending := False\<rparr>) s))"
    and "s1 = dash_next confirm ds SaveDash s"
    and "save_pending cx" "truthy (generated cx)" "\<not> generate_pending cx" "w \<in> set (widgets_of (generated cx))"
    and "s2 = dash_next confirm ds (AddWidget w) s1"
    and "opt_fld d ''widgets'' = JArr ws" "\<And>x. x \<in> set ws \<Longrightarrow> widgetKey (as_row x) \<in> widgetKey ` set (dashboardWidgets s)"
    and "widgetKey w \<notin> widgetKey ` set (dashboardWidgets s)"
    and "s3 = dash_next confirm ds (DashSaved d) s2"
  shows "calls_of (snd (dash_step confirm ds SaveDash s)) =
      [AiCall (SaveDashboard (dash_view s) (js_string (dash_name ds (dash_view s) (JStr ''My dashboard'')))
        (map JObj (dashboardWidgets s)))] \<and>
    AddWidget w \<in> set (page_clicks (dash_page_view cx s1)) \<and> w \<in> set (dashboardWidgets s2) \<and> dirty s2 \<and>
    dashboardWidgets s3 = map as_row ws \<and> w \<notin> set (dashboardWidgets s3) \<and> \<not> dirty s3 \<and>
    SaveDash \<notin> set (page_clicks (dash_page_view cx' s3))"
proof -
  have nb: "\<not> isBuiltin s" using assms(2) by (simp add: save_offered)
  have s1: "s1 = s" using assms(1) by (simp add: assms(3) dash_step_def settle_effects_def settled_run)
  let ?a = "fst (addWidget w s)"
  have a: "ran_reset ?a = dash_view ?a" "dirty ?a" using assms(1) nb by (simp_all add: addWidget_def settled_def)
  have s2: "s2 = settle_effects ?a" by (simp add: assms(8) s1 dash_step_def split_beta Let_def)
  have w2: "dashboardWidgets s2 = dashboardWidgets ?a" "dirty s2"
    using settle_same_view [OF a(1)] a(2) by (simp_all add: s2)
  have st: "settled s2" by (simp add: s2 settled_settle)
  let ?b = "s2\<lparr>cache := (cache s2)((dash_view s2, hours s2) := d), dirty := False\<rparr>"
  have b: "ran_reset ?b = dash_view ?b" "saved ?b = d" "ran_load ?b \<noteq> (saved_ref ?b, dirty ?b)"
    using st w2(2) by (simp_all add: settled_def saved_def)
  have "dashboardWidgets (settle_effects ?b) = map as_row ws" "\<not> dirty (settle_effects ?b)"
    using settle_same_view [OF b(1)] b(2,3) assms(9) by (simp_all add: widgets_of_def)
  then have "dashboardWidgets s3 = map as_row ws" "\<not> dirty s3" by (simp_all add: assms(12) dash_step_def)
  moreover from this(1) have "w \<notin> set (dashboardWidgets s3)" using assms(10,11) by auto
  moreover have "w \<in> set (dashboardWidgets s2)" using w2 nb by (simp add: addWidget_def)
  ultimately show ?thesis
    using w2(2) add_offered [OF assms(5-7)] by (simp add: save_offered dash_step_def)
qed

theorem edits_during_save_lost_witness:
  "\<exists>s d. dashboardWidgets (dash_next (\<lambda>q. True) [] (DashSaved d)
       (dash_next (\<lambda>q. True) [] (AddWidget [(''generator'', JStr ''new'')]) (dash_next (\<lambda>q. True) [] SaveDash s))) = [[(''generator'', JStr ''old'')]]"
proof -
  let ?old = "[(''generator'', JStr ''old'')]"
  let ?new = "[(''generator'', JStr ''new'')]"
  let ?d = "JObj [(''widgets'', JArr (map JObj [?old]))]"
  let ?cx = "\<lparr>dashboards_list = [], insights_data = JNull, vulns_data = JNull, view_loading = False,
    generated = JObj [(''widgets'', JArr [JObj ?new])], generate_pending = False, create_pending = False, save_pending = True\<rparr>"
  let ?p = "dash_next (\<lambda>q. True) [] (PickView ''d1'') (init_dash (\<lambda>k. JUndef))"
  let ?s = "dash_next (\<lambda>q. True) [] (AddWidget ?old) ?p"
  have v0: "dash_view ?p = ''d1''" by (simp add: dash_step_def)
  have nb0: "\<not> isBuiltin ?p" unfolding isBuiltin_def v0 by (simp add: INSIGHTS_VIEW_def VULNS_VIEW_def)
  have i: "settled (init_dash (\<lambda>k. JUndef))" "cache (init_dash (\<lambda>k. JUndef)) = (\<lambda>k. JUndef)"
    "dash_view (init_dash (\<lambda>k. JUndef)) \<noteq> ''d1''"
    by (simp_all add: init_dash_def settled_settle INSIGHTS_VIEW_def)
  have w0: "dashboardWidgets ?p = []"
    using settle_new_view(1) [of "(init_dash (\<lambda>k. JUndef))\<lparr>dash_view := ''d1'', menuOpen := False\<rparr>"] i
    by (simp add: dash_step_def settled_def saved_def)
  let ?a = "fst (addWidget ?old ?p)"
  have a: "ran_reset ?a = dash_view ?a" "dirty ?a" "dashboardWidgets ?a = [?old]" "dash_view ?a = ''d1''"
    using nb0 dash_step_settled [of "\<lambda>q. True" "[]" "PickView ''d1''" "init_dash (\<lambda>k. JUndef)"] w0 v0
    by (simp_all add: addWidget_def settled_def)
  have s: "?s = settle_effects ?a" by (simp add: dash_step_def split_beta Let_def)
  have ds: "dashboardWidgets ?s = [?old]" "dirty ?s" "dash_view ?s = ''d1''"
    unfolding s settle_keep using settle_same_view [OF a(1)] a by simp_all
  have nb: "\<not> isBuiltin ?s" unfolding isBuiltin_def ds(3) by (simp add: INSIGHTS_VIEW_def VULNS_VIEW_def)
  have c: "SaveDash \<in> set (page_clicks (dash_page_view (?cx\<lparr>save_pending := False\<rparr>) ?s))"
    using nb ds(2) by (simp add: save_offered)
  have g: "save_pending ?cx" "truthy (generated ?cx)" "\<not> generate_pending ?cx" "?new \<in> set (widgets_of (generated ?cx))"
    "opt_fld ?d ''widgets'' = JArr [JObj ?old]"
    "\<And>x. x \<in> set [JObj ?old] \<Longrightarrow> widgetKey (as_row x) \<in> widgetKey ` set (dashboardWidgets ?s)"
    "widgetKey ?new \<notin> widgetKey ` set (dashboardWidgets ?s)"
    unfolding ds(1) by (simp_all add: widgets_of_def widgetKey_def)
  have "dashboardWidgets (dash_next (\<lambda>q. True) [] (DashSaved ?d) (dash_next (\<lambda>q. True) [] (AddWidget ?new)
      (dash_next (\<lambda>q. True) [] SaveDash ?s))) = map as_row [JObj ?old]"
    using edits_during_save_lost [OF dash_step_settled c refl g(1-4) refl g(5-7) refl] by blast
  then show ?thesis by (intro exI [of _ ?s] exI [of _ ?d]) (simp del: fun_upd_apply)
qed

text \<open>What the page sends is what it shows: it saves only a dirty user dashboard, under that dashboard's
  id, with exactly the listed widgets; it deletes only a user dashboard and after confirmation; and it
  never asks the agent with a blank or untrimmed prompt or creates a dashboard with a blank name.\<close>

theorem dashboard_calls_guarded:
  assumes "e \<in> set (page_clicks (dash_page_view cx s)) \<or> e = PromptEnter \<or> e = NewNameEnter"
    and "AiCall c \<in> set (calls_of (snd (dash_step confirm ds e s)))"
  shows "(\<exists>n. c = SaveDashboard (dash_view s) n (map JObj (dashboardWidgets s)) \<and> \<not> isBuiltin s \<and> dirty s) \<or>
    (c = DeleteDashboard (dash_view s) \<and> \<not> isBuiltin s \<and>
       confirm (''Delete dashboard \"'' @ js_string (currentName ds s) @ ''\"?'')) \<or>
    (\<exists>p. c = GenerateDashboard p (Some (hours s)) \<and> trim p = p \<and> p \<noteq> []) \<or>
    (\<exists>n. c = CreateDashboard n \<and> trim n = n \<and> n \<noteq> [])"
  using assms(1)
proof (elim disjE)
  assume "e \<in> set (page_clicks (dash_page_view cx s))"
  then show ?thesis using assms(2)
    by (auto dest!: clicks_dash_page clicks_selector clicks_menu clicks_selected clicks_prompt
        simp: dash_step_def generate_call_def trim_idem suggestions_not_blank addWidget_def split: if_splits)
qed (use assms(2) in \<open>auto simp: dash_step_def generate_call_def trim_idem split: if_splits\<close>)

theorem dashboard_calls_guarded_witness:
  "\<exists>p. GenerateDashboard ''x'' (Some 24) = GenerateDashboard p (Some 24) \<and> trim p = p \<and> p \<noteq> []"
proof -
  let ?s = "(init_dash (\<lambda>k. JUndef))\<lparr>prompt := '' x ''\<rparr>"
  have h: "hours ?s = 24" by (simp add: init_dash_def)
  have "AiCall (GenerateDashboard ''x'' (Some 24)) \<in> set (calls_of (snd (dash_step (\<lambda>q. True) [] PromptEnter ?s)))"
    using h by (simp add: dash_step_def generate_call_def trim_def is_space_def)
  with dashboard_calls_guarded [of PromptEnter undefined ?s "GenerateDashboard ''x'' (Some 24)" "\<lambda>q. True" "[]"] h
  show ?thesis by simp
qed

section \<open>Query keys\<close>

text \<open>The queries of the page that are enabled, each with its cache key and its call.\<close>

definition dash_queries :: "dash_state \<Rightarrow> (jsval list \<times> ai_call) list" where
  "dash_queries s =
     [([JStr ''ai-dashboards''], ListDashboards)] @
     (if dash_view s = INSIGHTS_VIEW
      then [([JStr ''ai-insights-flooding'', JNum (hours s)], FloodingInsights (Some (hours s)))] else []) @
     (if dash_view s = VULNS_VIEW then [([JStr ''ai-insights-vulns''], VulnInsights (Some (hours s)))] else []) @
     (if dash_view s \<noteq> INSIGHTS_VIEW
      then [([JStr ''ai-dashboard'', JStr (dash_view s), JNum (hours s)],
             GetDashboard (dash_view s) (Some (hours s)))] else [])"

text \<open>A cached answer is only ever shown for the request it answered, except on the vulnerability view:
  there the time window is part of the request but not of the key, so that choosing another window
  keeps showing the answer for the old one. The view's name is also requested as a dashboard.\<close>

theorem cache_keys_sound:
  assumes "(k, c) \<in> set (dash_queries s)" "(k, c') \<in> set (dash_queries s')"
  shows "(k \<noteq> [JStr ''ai-insights-vulns''] \<longrightarrow> c = c') \<and>
    (dash_view s = VULNS_VIEW \<and> h \<noteq> hours s \<longrightarrow>
       ([JStr ''ai-insights-vulns''], VulnInsights (Some (hours s))) \<in> set (dash_queries s) \<and>
       ([JStr ''ai-insights-vulns''], VulnInsights (Some h)) \<in> set (dash_queries (dash_next confirm ds (PickHours h) s)) \<and>
       (\<exists>k. (k, GetDashboard ''__vulns__'' (Some (hours s))) \<in> set (dash_queries s)))"
  using assms
  by (auto simp: dash_queries_def dash_step_def INSIGHTS_VIEW_def VULNS_VIEW_def split: if_splits)

theorem cache_keys_sound_witness:
  "([JStr ''ai-insights-vulns''], VulnInsights (Some 168)) \<in>
     set (dash_queries (dash_next (\<lambda>q. True) [] (PickHours 168) (dash_next (\<lambda>q. True) [] (PickView VULNS_VIEW) (init_dash (\<lambda>k. JUndef)))))"
proof -
  let ?s = "dash_next (\<lambda>q. True) [] (PickView VULNS_VIEW) (init_dash (\<lambda>k. JUndef))"
  have s: "dash_view ?s = VULNS_VIEW" "hours ?s = 24" by (simp_all add: dash_step_def init_dash_def)
  have q: "([JStr ''ai-dashboards''], ListDashboards) \<in> set (dash_queries ?s)" by (simp add: dash_queries_def)
  from cache_keys_sound [OF q q, of 168 "\<lambda>q. True" "[]"] s show ?thesis by simp
qed

end
