(* ===== verification/Events.thy ===== *)
theory Events
  imports Filters TimeRange Json
begin

text \<open>
  The raw event stream, \<open>frontend/src/pages/Events.tsx\<close>, and the event page,
  \<open>frontend/src/pages/EventDetail.tsx\<close>: level bands, the band filter with its counters, the debounced
  query, the request parameters, and the rendered document. The parser of \<open>Date\<close> and the clock are
  arguments of the request parameters, as in \<open>TimeRange\<close>; dates are shown as the values they format.
\<close>

section \<open>Bands\<close>

record LevelBand =
  band_key :: string
  band_label :: string
  band_min :: int

definition LEVEL_BANDS :: "LevelBand list" where
  "LEVEL_BANDS =
     [\<lparr>band_key = ''critical'', band_label = ''Critical'', band_min = 12\<rparr>,
      \<lparr>band_key = ''high'', band_label = ''High'', band_min = 8\<rparr>,
      \<lparr>band_key = ''medium'', band_label = ''Medium'', band_min = 4\<rparr>,
      \<lparr>band_key = ''low'', band_label = ''Low'', band_min = 0\<rparr>]"

text \<open>\<open>level >= b.min\<close>: false when the level is missing.\<close>

definition at_least :: "jsval \<Rightarrow> int \<Rightarrow> bool" where
  "at_least level m = (case level of JNum n \<Rightarrow> m \<le> n | JNull \<Rightarrow> m \<le> 0 | _ \<Rightarrow> False)"

definition bandFor :: "jsval \<Rightarrow> LevelBand" where
  "bandFor level =
     (case List.find (\<lambda>b. at_least level (band_min b)) LEVEL_BANDS of Some b \<Rightarrow> b | None \<Rightarrow> last LEVEL_BANDS)"

definition band_of :: "row \<Rightarrow> string" where
  "band_of e = band_key (bandFor (fld e ''level''))"

section \<open>State and handlers\<close>

record events_state =
  ev_band :: string
  ev_search :: string
  ev_q :: string
  ev_range :: TimeRange
  ev_timer :: "string option"

definition init_events :: events_state where
  "init_events = \<lparr>ev_band = [], ev_search = [], ev_q = [], ev_range = DEFAULT_RANGE, ev_timer = Some []\<rparr>"

datatype events_event =
    PickBand string
  | TypeQuery string
  | TimerFires
  | PickRange TimeRange
  | RefreshEvents
  | OpenEvent row

text \<open>The effect on \<open>[search]\<close>: typing clears the timer and starts one that closes over the new text.\<close>

fun events_step :: "events_event \<Rightarrow> events_state \<Rightarrow> events_state \<times> api_call effect list" where
  "events_step (PickBand k) s = (s\<lparr>ev_band := toggle k (ev_band s)\<rparr>, [])"
| "events_step (TypeQuery v) s = (s\<lparr>ev_search := v, ev_timer := Some v\<rparr>, [])"
| "events_step TimerFires s =
     (case ev_timer s of None \<Rightarrow> (s, []) | Some t \<Rightarrow> (s\<lparr>ev_q := trim t, ev_timer := None\<rparr>, []))"
| "events_step (PickRange r) s = (s\<lparr>ev_range := r\<rparr>, [])"
| "events_step RefreshEvents s = (s, [Refetch ''events''])"
| "events_step (OpenEvent e) s = (s, [Navigate (''/events/'' @ row_id e)])"

text \<open>\<open>{ ...rangeToParams(range), size: 500, ...(q ? { q } : {}) }\<close>; \<open>None\<close> when a date throws.\<close>

definition events_params :: "(string \<Rightarrow> int option) \<Rightarrow> int \<Rightarrow> events_state \<Rightarrow> row option" where
  "events_params parse now s =
     (case rangeToParams parse now (ev_range s) of
        None \<Rightarrow> None
      | Some p \<Rightarrow> Some (p @ [(''size'', JNum 500)] @ (if ev_q s \<noteq> [] then [(''q'', JStr (ev_q s))] else [])))"

section \<open>Filtering and the rendered page\<close>

definition band_matches :: "string \<Rightarrow> row \<Rightarrow> bool" where
  "band_matches band e \<longleftrightarrow> band = [] \<or> band_of e = band"

definition filtered_events :: "row list \<Rightarrow> events_state \<Rightarrow> row list" where
  "filtered_events es s = filter (band_matches (ev_band s)) es"

definition band_count :: "row list \<Rightarrow> string \<Rightarrow> nat" where
  "band_count es k = length (filter (\<lambda>e. band_of e = k) es)"

definition band_bar :: "row list \<Rightarrow> events_event ui list" where
  "band_bar es =
     map (\<lambda>b. Clickable (PickBand (band_key b)) [Txt (band_label b), Txt (nat_dec (band_count es (band_key b)))])
       (filter (\<lambda>b. band_count es (band_key b) \<noteq> 0) LEVEL_BANDS)"

definition or_dash :: "jsval \<Rightarrow> jsval" where
  "or_dash v = jor v (JStr mdash)"

definition event_row :: "row \<Rightarrow> events_event ui" where
  "event_row e = Clickable (OpenEvent e)
     ([Txt (CHR ''L'' # js_string (fld e ''level'')),
       Val (jor (fld e ''description'') (JStr ''(no rule description)''))] @
      shown (truthy (fld e ''full_log'')) [Val (fld e ''full_log'')] @
      [Val (or_dash (fld e ''agent_name''))] @
      shown (truthy (fld e ''agent_ip'')) [Val (fld e ''agent_ip'')] @
      [Val (or_dash (fld e ''src_ip''))] @
      (if truthy (fld e ''mitre_id'')
       then Val (fld e ''mitre_id'') # shown (truthy (fld e ''mitre_tactic'')) [Val (fld e ''mitre_tactic'')]
       else [Txt mdash]) @
      [Val (fld e ''timestamp'')])"

definition queryError :: "api_error option \<Rightarrow> jsval" where
  "queryError err = (case err of None \<Rightarrow> JNull | Some e \<Rightarrow> jor (err_detail e) (JStr ''Query failed''))"

definition events_view ::
  "bool \<Rightarrow> api_error option \<Rightarrow> row list \<Rightarrow> events_state \<Rightarrow> events_event ui list" where
  "events_view isLoading err es s =
     (let rows = filtered_events es s in
      [Txt ''Events'',
       Txt (''Raw Wazuh alert stream '' @ mdash @ '' every rule level ('' @ nat_dec (length rows) @ '' of '' @
            nat_dec (length es) @ '')'')] @
      map (map_ui PickRange) (TimeRangeFilter (ev_range s)) @
      [Btn ''Refresh'' False RefreshEvents, Txt ''Filter''] @ band_bar es @
      [Field (''Lucene query '' @ mdash @ '' e.g. rule.level:>=10 AND agent.name:web-01'') (ev_search s) False TypeQuery] @
      shown (truthy (queryError err)) [Val (queryError err)] @
      map Txt [''Level'', ''Rule / Description'', ''Agent'', ''Source IP'', ''MITRE'', ''Time''] @
      shown isLoading [Txt (''Loading events'' @ ellipsis)] @
      shown (\<not> isLoading \<and> rows = []) [Txt ''No events matching current filters''] @
      map event_row rows)"

section \<open>The contracts\<close>

interpretation band_filter: quick_filter band_matches "[]" id "\<lambda>k e. band_of e = k" "\<lambda>k. k \<noteq> []"
  by unfold_locales (auto simp: band_matches_def)

definition events_typed :: "events_event \<Rightarrow> string option" where
  "events_typed e = (case e of TypeQuery v \<Rightarrow> Some v | _ \<Rightarrow> None)"

abbreviation events_next :: "events_event \<Rightarrow> events_state \<Rightarrow> events_state" where
  "events_next e s \<equiv> fst (events_step e s)"

abbreviation events_reach :: "events_state \<Rightarrow> bool" where
  "events_reach \<equiv> reach (\<lambda>s. s = init_events) (\<lambda>e s. True) events_next"

interpretation event_query: debounced "\<lambda>s. s = init_events" "\<lambda>e s. True" events_next ev_search ev_q ev_timer
  events_typed "\<lambda>e. e = TimerFires"
proof unfold_locales
  show "events_typed e = Some v \<Longrightarrow> ev_search (events_next e s) = v \<and>
      ev_q (events_next e s) = ev_q s \<and> ev_timer (events_next e s) = Some v" for e v s
    by (cases e) (auto simp: events_typed_def)
  show "events_typed e = None \<Longrightarrow> \<not> e = TimerFires \<Longrightarrow> ev_search (events_next e s) = ev_search s \<and>
      ev_q (events_next e s) = ev_q s \<and> ev_timer (events_next e s) = ev_timer s" for e s
    by (cases e) (auto simp: events_typed_def)
qed (auto simp: init_events_def split: option.splits)

section \<open>Lemmas\<close>

lemma fld_append: "fld (a @ b) k = (if k \<in> set (map fst a) then fld a k else fld b k)"
proof (induction a)
  case Nil
  then show ?case by simp
next
  case (Cons kv a)
  obtain k' v where "kv = (k', v)" by (cases kv)
  then show ?case using Cons by simp
qed

lemma range_keys: "rangeToParams parse now r = Some p \<Longrightarrow> set (map fst p) \<subseteq> {''start'', ''end''}"
  by (auto simp: rangeToParams_def custom_bound_def split: if_splits option.splits)

lemma bandFor_eq: "bandFor level =
    (if at_least level 12 then LEVEL_BANDS ! 0 else if at_least level 8 then LEVEL_BANDS ! 1
     else if at_least level 4 then LEVEL_BANDS ! 2 else LEVEL_BANDS ! 3)"
  by (simp add: bandFor_def LEVEL_BANDS_def)

lemma band_of_listed: "band_of e \<in> set (map band_key LEVEL_BANDS)"
  by (auto simp: band_of_def bandFor_eq LEVEL_BANDS_def)

lemma band_keys: "distinct (map band_key LEVEL_BANDS)" "[] \<notin> set (map band_key LEVEL_BANDS)"
  by (simp_all add: LEVEL_BANDS_def)

lemma clicks_range_filter [simp]: "page_clicks (map (map_ui f) (TimeRangeFilter r)) = []"
  by (simp add: TimeRangeFilter_def shown_def)

lemma clicks_band_bar: "e \<in> set (page_clicks (band_bar es)) \<longleftrightarrow>
    (\<exists>b \<in> set LEVEL_BANDS. band_count es (band_key b) \<noteq> 0 \<and> e = PickBand (band_key b))"
  by (auto simp: band_bar_def page_clicks_map)

lemma clicks_event_row: "set (clicks (event_row e)) = {OpenEvent e}"
  by (simp add: event_row_def)

lemma clicks_events_view: "e \<in> set (page_clicks (events_view isLoading err es s)) \<longleftrightarrow>
    e = RefreshEvents \<or> e \<in> set (page_clicks (band_bar es)) \<or> (\<exists>r \<in> set (filtered_events es s). e = OpenEvent r)"
  by (auto simp: events_view_def Let_def page_clicks_map clicks_event_row)

section \<open>Properties\<close>

text \<open>Every event is in exactly one level band: critical from level 12, high from 8, medium from 4, low
  below that and without a level; the counters of the four bands add up to the number of events, and
  choosing a band lists as many events as its counter shows, in the stream's order.\<close>

theorem event_bands_partition:
  assumes "k \<in> set (map band_key LEVEL_BANDS)"
  shows "band_of e = (case fld e ''level'' of JNum n \<Rightarrow>
             if 12 \<le> n then ''critical'' else if 8 \<le> n then ''high'' else if 4 \<le> n then ''medium'' else ''low''
           | _ \<Rightarrow> ''low'') \<and>
    sum_list (map (band_count es) (map band_key LEVEL_BANDS)) = length es \<and>
    length (filtered_events es (events_next (PickBand k) init_events)) = band_count es k \<and>
    subseq (filtered_events es (events_next (PickBand k) init_events)) es"
proof -
  have k: "k \<noteq> []" using assms band_keys(2) by metis
  have "(\<exists>b \<in> set (map band_key LEVEL_BANDS). band_of r = b) = True" for r
    using band_of_listed by blast
  then have "sum_list (map (band_count es) (map band_key LEVEL_BANDS)) = length es"
    using band_filter.counters_add_up [OF band_keys(1), of es] by (simp add: band_count_def [abs_def])
  moreover have "filtered_events es (events_next (PickBand k) init_events) = filter (band_matches (id k)) es"
    using k by (simp add: filtered_events_def init_events_def toggle_def)
  moreover have "band_of e = (case fld e ''level'' of JNum n \<Rightarrow>
             if 12 \<le> n then ''critical'' else if 8 \<le> n then ''high'' else if 4 \<le> n then ''medium'' else ''low''
           | _ \<Rightarrow> ''low'')"
    by (auto simp: band_of_def bandFor_eq LEVEL_BANDS_def at_least_def split: jsval.splits)
  ultimately show ?thesis
    using band_filter.counter_exact [OF k, of es] band_filter.listed_in_order [of "id k" es]
    by (simp add: band_count_def)
qed

theorem event_bands_partition_witness:
  "band_of [(''level'', JNum 8)] = ''high'' \<and>
   sum_list (map (band_count [[(''level'', JNum 8)], [(''level'', JNum 3)]]) (map band_key LEVEL_BANDS)) = 2"
  using event_bands_partition [of "''high''" "[(''level'', JNum 8)]" "[[(''level'', JNum 8)], [(''level'', JNum 3)]]"]
  by (simp add: LEVEL_BANDS_def)

text \<open>C37. The query follows the box once the user stops typing: whatever happened before, after the timer
  has fired the request carries the trimmed text of the box, and no query parameter when that is
  empty; until it fires, typing leaves the request as it was.\<close>

theorem event_query_debounced:
  assumes "events_reach s" "rangeToParams parse now (ev_range s) = Some p"
  shows "(\<exists>r. events_params parse now (events_next TimerFires s) = Some r \<and>
      fld r ''q'' = (if trim (ev_search s) = [] then JUndef else JStr (trim (ev_search s))) \<and>
      fld r ''size'' = JNum 500) \<and>
    events_params parse now (events_next (TypeQuery v) s) = events_params parse now s"
proof -
  have q: "ev_q (events_next TimerFires s) = trim (ev_search s)"
    using event_query.fired_query [OF assms(1)] by (simp add: events_typed_def)
  have r: "ev_range (events_next TimerFires s) = ev_range s" by (simp split: option.splits)
  have "''q'' \<notin> set (map fst p)" "''size'' \<notin> set (map fst p)" using range_keys [OF assms(2)] by auto
  then show ?thesis using assms(2) q r
    by (simp add: events_params_def fld_append del: events_step.simps(3))
qed

theorem event_query_debounced_witness:
  "\<exists>r. events_params (\<lambda>v. None) 1700000000000 (run events_next [TypeQuery ''a'', TypeQuery '' ab '', TimerFires] init_events) = Some r \<and>
     fld r ''q'' = JStr ''ab''"
proof -
  let ?s = "run events_next [TypeQuery ''a'', TypeQuery '' ab ''] init_events"
  have "events_reach init_events" by (rule reach_start) simp
  then have r: "events_reach ?s" by (rule legal_reach) simp
  obtain p where "rangeToParams (\<lambda>v. None) 1700000000000 (ev_range ?s) = Some p"
    using default_range_params [of "\<lambda>v. None"] by (auto simp: init_events_def)
  from event_query_debounced [OF r this] show ?thesis
    by (auto simp: init_events_def trim_def is_space_def)
qed

section \<open>The event page\<close>

definition flattenValue :: "jsval \<Rightarrow> string" where
  "flattenValue v =
     (case v of JUndef \<Rightarrow> mdash | JNull \<Rightarrow> mdash | JArr vs \<Rightarrow> json v | JObj r \<Rightarrow> json v | _ \<Rightarrow> js_string v)"

definition detail_field :: "string \<Rightarrow> jsval \<Rightarrow> 'e ui" where
  "detail_field label v = Box [Txt label, Val (jcoalesce v (JStr mdash))]"

definition TagList :: "string \<Rightarrow> jsval \<Rightarrow> 'e ui list" where
  "TagList label v = shown (as_list v \<noteq> []) (Txt label # map Val (as_list v))"

definition joined :: "jsval \<Rightarrow> jsval" where
  "joined v = JStr (join '', '' (map js_string (as_list v)))"

definition compliance_keys :: "(string \<times> string) list" where
  "compliance_keys = [(''pci_dss'', ''PCI DSS''), (''gdpr'', ''GDPR''), (''hipaa'', ''HIPAA''),
     (''nist_800_53'', ''NIST 800-53''), (''tsc'', ''TSC''), (''gpg13'', ''GPG13'')]"

definition event_rule_view :: "row \<Rightarrow> unit ui list" where
  "event_rule_view rule =
     shown (truthy (fld rule ''mitre'') \<or> list_ex (\<lambda>(k, l). truthy (fld rule k)) compliance_keys)
       ([Txt ''MITRE & compliance''] @
        shown (truthy (opt_fld (fld rule ''mitre'') ''id''))
          [detail_field ''MITRE technique'' (joined (opt_fld (fld rule ''mitre'') ''id'')),
           detail_field ''MITRE tactic'' (joined (opt_fld (fld rule ''mitre'') ''tactic''))] @
        concat (map (\<lambda>(k, l). TagList l (fld rule k)) compliance_keys))"

definition EventDetail :: "bool \<Rightarrow> jsval \<Rightarrow> unit ui list" where
  "EventDetail isLoading ev =
     (if isLoading then [Txt (''Loading event'' @ ellipsis)]
      else if \<not> truthy ev then [Txt ''Event not found'']
      else
        (let rule = as_row (opt_fld ev ''rule''); agent = as_row (opt_fld ev ''agent'');
             data = as_row (opt_fld ev ''data''); decoder = as_row (opt_fld ev ''decoder'');
             predecoder = as_row (opt_fld ev ''predecoder'');
             timestamp = jor (opt_fld ev ''timestamp'') (opt_fld ev ''@timestamp'') in
         [Btn ''Back'' False (),
          Val (jor (fld rule ''description'') (JStr ''(no rule description)'')),
          Txt (js_string (jor (opt_fld (opt_fld ev ''manager'') ''name'') (JStr ''wazuh'')) @ '' '' @ middot @ '' rule '' @
               js_string (jcoalesce (fld rule ''id'') (JStr mdash)) @ '' '' @ middot @ '' timestamp ''),
          Val (or_dash timestamp),
          Txt (''Level '' @ js_string (jcoalesce (fld rule ''level'') (JStr mdash))),
          Txt ''Overview'', detail_field ''Full log'' (opt_fld ev ''full_log'')] @
         TagList ''Rule groups'' (fld rule ''groups'') @
         shown (data \<noteq> []) (Txt ''Extracted data'' #
           map (\<lambda>(k, v). detail_field k (JStr (flattenValue v))) data) @
         event_rule_view rule @
         [Txt ''Raw Wazuh document'', Txt (json_pretty 0 ev), Txt ''Agent'',
          detail_field ''Name'' (fld agent ''name''), detail_field ''ID'' (fld agent ''id''),
          detail_field ''IP'' (fld agent ''ip'')] @
         shown (truthy (fld decoder ''name'') \<or> truthy (fld predecoder ''hostname''))
           [Txt ''Decoder'', detail_field ''Decoder'' (fld decoder ''name''),
            detail_field ''Parent decoder'' (fld decoder ''parent''),
            detail_field ''Program'' (fld predecoder ''program_name''),
            detail_field ''Hostname'' (fld predecoder ''hostname'')]))"

end
