(* ===== verification/Alerts.thy ===== *)
theory Alerts
  imports Events
begin

text \<open>
  The alert list, \<open>frontend/src/pages/Alerts.tsx\<close>, and the alert page,
  \<open>frontend/src/pages/AlertDetail.tsx\<close>: server-side filters and their request parameters, the severity
  bar, the status actions of both pages, and attaching an alert to a case.
\<close>

section \<open>The list\<close>

definition SEVERITIES :: "string list" where
  "SEVERITIES = [''critical'', ''high'', ''medium'', ''low'', ''info'']"
definition ALERT_STATUSES :: "string list" where
  "ALERT_STATUSES = [''new'', ''in_triage'', ''escalated'', ''resolved'', ''false_positive'']"

record alerts_state =
  al_sev :: string
  al_status :: string
  al_search :: string
  al_q :: string
  al_range :: TimeRange
  al_timer :: "string option"

definition init_alerts :: alerts_state where
  "init_alerts = \<lparr>al_sev = [], al_status = [], al_search = [], al_q = [], al_range = DEFAULT_RANGE,
     al_timer = Some []\<rparr>"

datatype alerts_event =
    PickSev string
  | PickAlertStatus string
  | TypeAlertQuery string
  | AlertTimer
  | PickAlertRange TimeRange
  | RefreshAlerts
  | OpenAlert row
  | Triage row
  | ResolveAlert row
  | AlertUpdated

definition alert_status :: "string \<Rightarrow> jsval" where
  "alert_status st = JObj [(''status'', JStr st)]"

fun alerts_step :: "alerts_event \<Rightarrow> alerts_state \<Rightarrow> alerts_state \<times> api_call effect list" where
  "alerts_step (PickSev k) s = (s\<lparr>al_sev := toggle k (al_sev s)\<rparr>, [])"
| "alerts_step (PickAlertStatus v) s = (s\<lparr>al_status := v\<rparr>, [])"
| "alerts_step (TypeAlertQuery v) s = (s\<lparr>al_search := v, al_timer := Some v\<rparr>, [])"
| "alerts_step AlertTimer s =
     (case al_timer s of None \<Rightarrow> (s, []) | Some t \<Rightarrow> (s\<lparr>al_q := trim t, al_timer := None\<rparr>, []))"
| "alerts_step (PickAlertRange r) s = (s\<lparr>al_range := r\<rparr>, [])"
| "alerts_step RefreshAlerts s = (s, [Refetch ''alerts''])"
| "alerts_step (OpenAlert a) s = (s, [Navigate (''/alerts/'' @ row_id a)])"
| "alerts_step (Triage a) s = (s, [Call (AuthCall (UpdateAlert (row_id a) (alert_status ''in_triage'')))])"
| "alerts_step (ResolveAlert a) s = (s, [Call (AuthCall (UpdateAlert (row_id a) (alert_status ''resolved'')))])"
| "alerts_step AlertUpdated s = (s, [Invalidate [JStr ''alerts''], ToastOk ''Alert updated''])"

text \<open>The request parameters, in the order of the object literal.\<close>

definition when_set :: "string \<Rightarrow> string \<Rightarrow> row" where
  "when_set k v = (if v \<noteq> [] then [(k, JStr v)] else [])"

definition alerts_params :: "(string \<Rightarrow> int option) \<Rightarrow> int \<Rightarrow> alerts_state \<Rightarrow> row option" where
  "alerts_params parse now s =
     (case rangeToParams parse now (al_range s) of
        None \<Rightarrow> None
      | Some p \<Rightarrow> Some (when_set ''severity'' (al_sev s) @ when_set ''status'' (al_status s) @
                    when_set ''q'' (al_q s) @ p @ [(''limit'', JNum 200)]))"

definition severity_count :: "row list \<Rightarrow> string \<Rightarrow> nat" where
  "severity_count as k = length (filter (\<lambda>a. fld a ''severity'' = JStr k) as)"

definition severity_bar :: "row list \<Rightarrow> alerts_event ui list" where
  "severity_bar as = map (\<lambda>k. Clickable (PickSev k) [Txt k, Txt (nat_dec (severity_count as k))])
     (filter (\<lambda>k. severity_count as k \<noteq> 0) SEVERITIES)"

definition underscores_out :: "string \<Rightarrow> string" where
  "underscores_out s = replace_all (CHR ''_'') (CHR '' '') s"

definition status_text :: "jsval \<Rightarrow> jsval" where
  "status_text v = (case v of JStr s \<Rightarrow> JStr (underscores_out s) | _ \<Rightarrow> JUndef)"

definition can_triage :: "row \<Rightarrow> bool" where
  "can_triage a \<longleftrightarrow> fld a ''status'' = JStr ''new''"

definition can_resolve :: "row \<Rightarrow> bool" where
  "can_resolve a \<longleftrightarrow> fld a ''status'' \<noteq> JStr ''resolved'' \<and> fld a ''status'' \<noteq> JStr ''false_positive''"

definition alert_row :: "row \<Rightarrow> alerts_event ui" where
  "alert_row a = Clickable (OpenAlert a)
     ([Val (fld a ''severity''), Val (jor (fld a ''rule_name'') (JStr ''(no rule name)''))] @
      shown (truthy (fld a ''description'')) [Val (fld a ''description'')] @
      [Val (or_dash (fld a ''agent_name''))] @
      shown (truthy (fld a ''agent_ip'')) [Val (fld a ''agent_ip'')] @
      [Val (or_dash (fld a ''src_ip''))] @
      (if truthy (fld a ''mitre_id'')
       then Val (fld a ''mitre_id'') # shown (truthy (fld a ''mitre_tactic'')) [Val (fld a ''mitre_tactic'')]
       else [Txt mdash]) @
      [Val (status_text (fld a ''status'')), Val (fld a ''alert_time'')] @
      shown (can_triage a) [Btn ''Triage'' False (Triage a)] @
      shown (can_resolve a) [Btn ''Resolve'' False (ResolveAlert a)])"

definition alerts_view ::
  "bool \<Rightarrow> api_error option \<Rightarrow> row list \<Rightarrow> alerts_state \<Rightarrow> alerts_event ui list" where
  "alerts_view isLoading err as s =
     [Txt ''Alerts'',
      Txt (nat_dec (length as) @ '' of '' @ nat_dec (length as) @ '' alerts'' @
           (if al_sev s \<noteq> [] \<or> al_status s \<noteq> [] then '' (filtered)'' else []))] @
     map (map_ui PickAlertRange) (TimeRangeFilter (al_range s)) @
     [Btn ''Refresh'' False RefreshAlerts, Txt ''Filter''] @ severity_bar as @
     [Field (''Filter '' @ mdash @ '' e.g. agent:web-01 level:>=10'') (al_search s) False TypeAlertQuery,
      Select (al_status s) (([], ''All statuses'') # map (\<lambda>k. (k, underscores_out k)) ALERT_STATUSES) PickAlertStatus] @
     shown (truthy (queryError err)) [Val (queryError err)] @
     map Txt [''Severity'', ''Rule / Description'', ''Agent'', ''Source IP'', ''MITRE'', ''Status'', ''Time''] @
     shown isLoading [Txt (''Loading alerts'' @ ellipsis)] @
     shown (\<not> isLoading \<and> as = []) [Txt ''No alerts matching current filters''] @
     map alert_row as"

section \<open>The alert page\<close>

record alert_page =
  linking :: bool

datatype alert_event =
    BackToAlerts
  | TriageThis
  | ResolveThis
  | StartLinking
  | CancelLinking
  | PickCase string
  | OpenLinkedCase
  | ThisUpdated

fun alert_step :: "string \<Rightarrow> row \<Rightarrow> alert_event \<Rightarrow> alert_page \<Rightarrow> alert_page \<times> api_call effect list" where
  "alert_step i a BackToAlerts s = (s, [Navigate ''/alerts''])"
| "alert_step i a TriageThis s = (s, [Call (AuthCall (UpdateAlert i (alert_status ''in_triage'')))])"
| "alert_step i a ResolveThis s = (s, [Call (AuthCall (UpdateAlert i (alert_status ''resolved'')))])"
| "alert_step i a StartLinking s = (s\<lparr>linking := True\<rparr>, [])"
| "alert_step i a CancelLinking s = (s\<lparr>linking := False\<rparr>, [])"
| "alert_step i a (PickCase v) s =
     (s, if v \<noteq> [] then [Call (AuthCall (UpdateAlert i (JObj [(''case_id'', JStr v)])))] else [])"
| "alert_step i a OpenLinkedCase s = (s, [Navigate (''/cases/'' @ js_string (fld a ''case_id''))])"
| "alert_step i a ThisUpdated s =
     (s\<lparr>linking := False\<rparr>, [Invalidate [JStr ''alert'', JStr i], Invalidate [JStr ''alerts''], ToastOk ''Alert updated''])"

definition link_view :: "row \<Rightarrow> row list \<Rightarrow> alert_page \<Rightarrow> alert_event ui list" where
  "link_view a cs s = Txt ''Case'' #
     (if truthy (fld a ''case_id'') then [Btn ''Open linked case'' False OpenLinkedCase]
      else if linking s
      then [Select [] (([], ''Select a case'' @ ellipsis) #
              map (\<lambda>c. (row_id c, CHR ''#'' # js_string (fld c ''case_number'') @ '' '' @ mdash @ '' '' @
                                js_string (fld c ''title''))) cs) PickCase,
            Btn ''Cancel'' False CancelLinking]
      else [Btn ''Attach to a case'' False StartLinking])"

definition alert_facts :: "row \<Rightarrow> 'e ui list" where
  "alert_facts a =
     Txt ''Overview'' # map (\<lambda>(l, k). detail_field l (fld a k))
       [(''Description'', ''description''), (''Alert time'', ''alert_time''), (''Ingested'', ''created_at'')] @
     Txt ''Agent & network'' # map (\<lambda>(l, k). detail_field l (fld a k))
       [(''Agent'', ''agent_name''), (''Agent ID'', ''agent_id''), (''Agent IP'', ''agent_ip''),
        (''Source IP'', ''src_ip''), (''Destination IP'', ''dst_ip''), (''Username'', ''username'')] @
     shown (truthy (fld a ''mitre_id'') \<or> truthy (fld a ''mitre_tactic''))
       [Txt ''MITRE ATT&CK'', detail_field ''Technique'' (fld a ''mitre_id''), detail_field ''Tactic'' (fld a ''mitre_tactic'')]"

definition threat_view :: "row \<Rightarrow> 'e ui list" where
  "threat_view a =
     (let ips = as_list (opt_fld (fld a ''iocs'') ''ips''); ti = opt_fld (fld a ''enrichment'') ''threat_intel'' in
      shown (ips \<noteq> [] \<or> truthy ti)
        (Txt ''Threat intelligence'' #
         shown (ips \<noteq> []) (Txt ''Extracted IPs'' # map Val ips) @ shown (truthy ti) [Txt (json_pretty 0 ti)]))"

definition page_triage :: "row \<Rightarrow> bool" where
  "page_triage a \<longleftrightarrow> fld a ''status'' = JStr ''new''"

definition page_resolve :: "row \<Rightarrow> bool" where
  "page_resolve a \<longleftrightarrow> fld a ''status'' \<noteq> JStr ''resolved'' \<and> fld a ''status'' \<noteq> JStr ''false_positive''"

definition AlertDetail ::
  "bool \<Rightarrow> jsval \<Rightarrow> row list \<Rightarrow> alert_page \<Rightarrow> alert_event ui list" where
  "AlertDetail isLoading alert cs s =
     (if isLoading then [Txt (''Loading alert'' @ ellipsis)]
      else if \<not> truthy alert then [Txt ''Alert not found'']
      else
        (let a = as_row alert in
         [Btn ''Back'' False BackToAlerts, Val (jor (fld a ''rule_name'') (JStr ''(no rule name)'')),
          Txt (js_string (fld a ''source'') @ '' '' @ middot @ '' '' @
               (if truthy (fld a ''rule_id'') then ''rule '' @ js_string (fld a ''rule_id'') else ''no rule id'') @
               (if nullish (fld a ''level'') then [] else '' '' @ middot @ '' level '' @ js_string (fld a ''level''))),
          Val (fld a ''severity''), Val (status_text (fld a ''status''))] @
         shown (page_triage a) [Btn ''Triage'' False TriageThis] @
         shown (page_resolve a) [Btn ''Resolve'' False ResolveThis] @
         alert_facts a @ threat_view a @
         [Txt ''Raw Wazuh alert'',
          Txt (if truthy (fld a ''raw_data'') then json_pretty 0 (fld a ''raw_data'') else ''No raw data captured'')] @
         link_view a cs s @
         Txt ''Timing'' # map (\<lambda>(l, k). detail_field l (fld a k))
           [(''Alert time'', ''alert_time''), (''Ingested'', ''created_at''), (''Last updated'', ''updated_at'')] @
         shown (truthy (fld a ''triaged_at'')) [detail_field ''Triaged'' (fld a ''triaged_at'')] @
         TagList ''Tags'' (fld a ''tags'')))"

section \<open>The contract of the query box\<close>

definition alerts_typed :: "alerts_event \<Rightarrow> string option" where
  "alerts_typed e = (case e of TypeAlertQuery v \<Rightarrow> Some v | _ \<Rightarrow> None)"

abbreviation alerts_next :: "alerts_event \<Rightarrow> alerts_state \<Rightarrow> alerts_state" where
  "alerts_next e s \<equiv> fst (alerts_step e s)"

abbreviation alerts_reach :: "alerts_state \<Rightarrow> bool" where
  "alerts_reach \<equiv> reach (\<lambda>s. s = init_alerts) (\<lambda>e s. True) alerts_next"

interpretation alert_query: debounced "\<lambda>s. s = init_alerts" "\<lambda>e s. True" alerts_next al_search al_q al_timer
  alerts_typed "\<lambda>e. e = AlertTimer"
proof unfold_locales
  show "alerts_typed e = Some v \<Longrightarrow> al_search (alerts_next e s) = v \<and>
      al_q (alerts_next e s) = al_q s \<and> al_timer (alerts_next e s) = Some v" for e v s
    by (cases e) (auto simp: alerts_typed_def)
  show "alerts_typed e = None \<Longrightarrow> \<not> e = AlertTimer \<Longrightarrow> al_search (alerts_next e s) = al_search s \<and>
      al_q (alerts_next e s) = al_q s \<and> al_timer (alerts_next e s) = al_timer s" for e s
    by (cases e) (auto simp: alerts_typed_def)
qed (auto simp: init_alerts_def split: option.splits)

section \<open>Clicks\<close>

lemma clicks_severity_bar: "e \<in> set (page_clicks (severity_bar as)) \<longleftrightarrow>
    (\<exists>k \<in> set SEVERITIES. severity_count as k \<noteq> 0 \<and> e = PickSev k)"
  by (auto simp: severity_bar_def page_clicks_map)

lemma clicks_alert_row: "e \<in> set (clicks (alert_row a)) \<longleftrightarrow>
    e = OpenAlert a \<or> e = Triage a \<and> can_triage a \<or> e = ResolveAlert a \<and> can_resolve a"
  by (auto simp: alert_row_def)

lemma clicks_alerts_view: "e \<in> set (page_clicks (alerts_view isLoading err as s)) \<longleftrightarrow>
    e = RefreshAlerts \<or> e \<in> set (page_clicks (severity_bar as)) \<or> (\<exists>a \<in> set as. e \<in> set (clicks (alert_row a)))"
  by (auto simp: alerts_view_def page_clicks_map)

lemma clicks_facts: "page_clicks (alert_facts a) = []" "page_clicks (threat_view a) = []"
  "clicks (detail_field l v) = []" "page_clicks (TagList l v) = []"
  by (simp_all add: alert_facts_def threat_view_def detail_field_def TagList_def Let_def)

lemma clicks_alert_page: "truthy alert \<Longrightarrow> as_row alert = a \<Longrightarrow>
    e \<in> set (page_clicks (AlertDetail False alert cs s)) \<longleftrightarrow>
    e = BackToAlerts \<or> e = TriageThis \<and> page_triage a \<or> e = ResolveThis \<and> page_resolve a \<or>
    (if truthy (fld a ''case_id'') then e = OpenLinkedCase else if linking s then e = CancelLinking else e = StartLinking)"
  by (auto simp: AlertDetail_def Let_def clicks_facts link_view_def)

section \<open>Properties\<close>

text \<open>C36. An alert's status moves the same way from the list and from its page: both offer Triage exactly when
  the alert is new, and Resolve exactly when it is neither resolved nor a false positive, and both send the
  same update of this alert, to in triage and to resolved; so a resolved alert or a false positive is
  never reopened by them.\<close>

theorem alert_actions_agree:
  assumes "a \<in> set as" "a \<noteq> []" "row_id a = i"
  shows "(Triage a \<in> set (page_clicks (alerts_view isLoading err as s)) \<longleftrightarrow> fld a ''status'' = JStr ''new'') \<and>
    (TriageThis \<in> set (page_clicks (AlertDetail False (JObj a) cs p)) \<longleftrightarrow> fld a ''status'' = JStr ''new'') \<and>
    (ResolveAlert a \<in> set (page_clicks (alerts_view isLoading err as s)) \<longleftrightarrow>
      fld a ''status'' \<notin> {JStr ''resolved'', JStr ''false_positive''}) \<and>
    (ResolveThis \<in> set (page_clicks (AlertDetail False (JObj a) cs p)) \<longleftrightarrow>
      fld a ''status'' \<notin> {JStr ''resolved'', JStr ''false_positive''}) \<and>
    calls_of (snd (alerts_step (Triage a) s)) = [AuthCall (UpdateAlert i (JObj [(''status'', JStr ''in_triage'')]))] \<and>
    calls_of (snd (alert_step i a TriageThis p)) = [AuthCall (UpdateAlert i (JObj [(''status'', JStr ''in_triage'')]))] \<and>
    calls_of (snd (alerts_step (ResolveAlert a) s)) = [AuthCall (UpdateAlert i (JObj [(''status'', JStr ''resolved'')]))] \<and>
    calls_of (snd (alert_step i a ResolveThis p)) = [AuthCall (UpdateAlert i (JObj [(''status'', JStr ''resolved'')]))]"
  using assms
  by (auto simp: clicks_alerts_view clicks_severity_bar clicks_alert_row clicks_alert_page [OF _ refl]
      can_triage_def can_resolve_def page_triage_def page_resolve_def alert_status_def)

theorem alert_actions_agree_witness:
  "Triage [(''status'', JStr ''new'')] \<in> set (page_clicks (alerts_view False None [[(''status'', JStr ''new'')]] init_alerts)) \<and>
   TriageThis \<in> set (page_clicks (AlertDetail False (JObj [(''status'', JStr ''new'')]) [] \<lparr>linking = False\<rparr>))"
  using alert_actions_agree [of "[(''status'', JStr ''new'')]" "[[(''status'', JStr ''new'')]]" _ False None init_alerts
      "[]" "\<lparr>linking = False\<rparr>", OF _ _ refl] by simp

text \<open>The severity filter cannot be taken back when it matches nothing: the server answers only alerts of
  the chosen severity, so the bar offers at most that severity, and when there is none no click on the
  page changes the filter any more.\<close>

theorem severity_filter_sticks:
  assumes "\<And>a. a \<in> set as \<Longrightarrow> fld a ''severity'' = JStr k"
    and "e \<in> set (page_clicks (alerts_view isLoading err as s))" "al_sev s = k" "k \<noteq> []"
  shows "(\<forall>k'. e = PickSev k' \<longrightarrow> k' = k) \<and>
    (as = [] \<longrightarrow> al_sev (alerts_next e s) = k)"
proof -
  have "k' = k" if "e = PickSev k'" for k'
  proof -
    have "severity_count as k' \<noteq> 0"
      using assms(2) that by (auto simp: clicks_alerts_view clicks_severity_bar clicks_alert_row)
    then have "filter (\<lambda>a. fld a ''severity'' = JStr k') as \<noteq> []" by (simp add: severity_count_def)
    then obtain a where "a \<in> set as" "fld a ''severity'' = JStr k'" by (auto simp: filter_empty_conv)
    with assms(1) show ?thesis by simp
  qed
  moreover have "al_sev (alerts_next e s) = k" if "as = []"
    using assms(2,3) that by (auto simp: clicks_alerts_view clicks_severity_bar severity_count_def)
  ultimately show ?thesis by blast
qed

theorem severity_filter_sticks_witness:
  "al_sev (alerts_next RefreshAlerts (init_alerts\<lparr>al_sev := ''info''\<rparr>)) = ''info''"
  using severity_filter_sticks [of "[]" "''info''" RefreshAlerts False None "init_alerts\<lparr>al_sev := ''info''\<rparr>"]
  by (simp add: clicks_alerts_view)

text \<open>The request carries exactly the filters that are set: severity and status when chosen, the query
  as last settled, always the limit, and the range's own parameters.\<close>

theorem alert_filters_sent:
  assumes "alerts_reach s" "rangeToParams parse now (al_range s) = Some p" "al_timer s = None"
  shows "\<exists>r. alerts_params parse now s = Some r \<and>
    fld r ''severity'' = (if al_sev s = [] then JUndef else JStr (al_sev s)) \<and>
    fld r ''status'' = (if al_status s = [] then JUndef else JStr (al_status s)) \<and>
    fld r ''q'' = (if trim (al_search s) = [] then JUndef else JStr (trim (al_search s))) \<and>
    fld r ''limit'' = JNum 200 \<and> fld r ''start'' = fld p ''start'' \<and> fld r ''end'' = fld p ''end''"
proof -
  have q: "al_q s = trim (al_search s)" by (rule alert_query.settled_query [OF assms(1,3)])
  have k: "''severity'' \<notin> set (map fst p)" "''status'' \<notin> set (map fst p)" "''q'' \<notin> set (map fst p)"
    "''limit'' \<notin> set (map fst p)"
    using range_keys [OF assms(2)] by auto
  have none: "k \<notin> set (map fst p) \<Longrightarrow> fld p k = JUndef" for k
    by (simp add: fld_def map_of_eq_None_iff [THEN iffD2] split: option.splits)
  show ?thesis using assms(2) k none
    by (auto simp: alerts_params_def when_set_def fld_append q simp del: set_map)
qed

theorem alert_filters_sent_witness:
  "\<exists>r. alerts_params (\<lambda>v. None) 1700000000000
      (run alerts_next [PickSev ''high'', TypeAlertQuery '' a '', AlertTimer] init_alerts) = Some r \<and>
    fld r ''severity'' = JStr ''high'' \<and> fld r ''q'' = JStr ''a'' \<and> fld r ''status'' = JUndef"
proof -
  let ?s = "run alerts_next [PickSev ''high'', TypeAlertQuery '' a '', AlertTimer] init_alerts"
  have "alerts_reach init_alerts" by (rule reach_start) simp
  then have r: "alerts_reach ?s" by (rule legal_reach) simp
  have t: "al_timer ?s = None" by (simp add: init_alerts_def)
  obtain p where "rangeToParams (\<lambda>v. None) 1700000000000 (al_range ?s) = Some p"
    using default_range_params [of "\<lambda>v. None"] by (auto simp: init_alerts_def)
  from alert_filters_sent [OF r this t] show ?thesis
    by (auto simp: init_alerts_def toggle_def trim_def is_space_def)
qed

end
