(* ===== verification/Account.thy ===== *)
theory Account
  imports ApiClient Async
begin

text \<open>
  The second factor of the signed-in user, \<open>frontend/src/pages/AccountSecurity.tsx\<close>: enrolment, backup
  codes and disabling, with the handlers cut at their \<open>await\<close>, and the rendered page. What the query of
  the user holds (\<open>me\<close>) is an argument.
\<close>

section \<open>State and handlers\<close>

datatype account_flight = SetupFlight | EnableFlight string | DisableFlight string string

record account_state =
  setup_data :: jsval
  enableCode :: string
  backupCodes :: jsval
  disablePassword :: string
  disableCode :: string
  busy :: bool
  copied :: bool
  copy_timers :: nat
  account_flights :: "account_flight list"

definition init_account :: account_state where
  "init_account = \<lparr>setup_data = JNull, enableCode = [], backupCodes = JNull, disablePassword = [],
     disableCode = [], busy = False, copied = False, copy_timers = 0, account_flights = []\<rparr>"

datatype account_event =
    StartSetup
  | TypeEnableCode string
  | ConfirmEnable
  | TypeDisablePassword string
  | TypeDisableCode string
  | SubmitDisable
  | CopyCodes
  | CopyTimer
  | AccountLanded nat answer

definition code_lines :: "jsval \<Rightarrow> string" where
  "code_lines v = join [CHR 0x0A] (map (\<lambda>c. if nullish c then [] else js_string c) (as_list v))"

text \<open>
  The continuations, \<open>finally\<close> included. Where the body of an answer is missing, reading it throws and
  the handler's own catch shows its message.
\<close>

definition setup_landed :: "answer \<Rightarrow> account_state \<Rightarrow> account_state \<times> api_call effect list" where
  "setup_landed a s = (case a of
     Answered data \<Rightarrow> (s\<lparr>setup_data := data, busy := False\<rparr>, [])
   | Failed err \<Rightarrow> (s\<lparr>busy := False\<rparr>, [ToastErr (jor (err_detail err) (JStr ''Could not start MFA setup''))]))"

definition enable_landed :: "answer \<Rightarrow> account_state \<Rightarrow> account_state \<times> api_call effect list" where
  "enable_landed a s = (case a of
     Answered data \<Rightarrow>
       if nullish data then (s\<lparr>busy := False\<rparr>, [ToastErr (JStr ''Invalid verification code'')])
       else (s\<lparr>backupCodes := opt_fld data ''backup_codes'', setup_data := JNull, enableCode := [], busy := False\<rparr>,
             [Invalidate [JStr ''me''], ToastOk ''Two-factor authentication enabled''])
   | Failed err \<Rightarrow> (s\<lparr>busy := False\<rparr>, [ToastErr (jor (err_detail err) (JStr ''Invalid verification code''))]))"

definition disable_landed :: "answer \<Rightarrow> account_state \<Rightarrow> account_state \<times> api_call effect list" where
  "disable_landed a s = (case a of
     Answered data \<Rightarrow>
       (s\<lparr>disablePassword := [], disableCode := [], backupCodes := JNull, busy := False\<rparr>,
        [Invalidate [JStr ''me''], ToastOk ''Two-factor authentication disabled''])
   | Failed err \<Rightarrow> (s\<lparr>busy := False\<rparr>, [ToastErr (jor (err_detail err) (JStr ''Could not disable MFA''))]))"

fun account_landed :: "account_flight \<Rightarrow> answer \<Rightarrow> account_state \<Rightarrow> account_state \<times> api_call effect list" where
  "account_landed SetupFlight a s = setup_landed a s"
| "account_landed (EnableFlight c) a s = enable_landed a s"
| "account_landed (DisableFlight p c) a s = disable_landed a s"

fun account_step :: "account_event \<Rightarrow> account_state \<Rightarrow> account_state \<times> api_call effect list" where
  "account_step StartSetup s =
     (s\<lparr>busy := True, account_flights := account_flights s @ [SetupFlight]\<rparr>, [Call (AuthCall MfaSetup)])"
| "account_step (TypeEnableCode v) s = (s\<lparr>enableCode := v\<rparr>, [])"
| "account_step ConfirmEnable s =
     (s\<lparr>busy := True, account_flights := account_flights s @ [EnableFlight (enableCode s)]\<rparr>,
      [Call (AuthCall (MfaEnable (enableCode s)))])"
| "account_step (TypeDisablePassword v) s = (s\<lparr>disablePassword := v\<rparr>, [])"
| "account_step (TypeDisableCode v) s = (s\<lparr>disableCode := v\<rparr>, [])"
| "account_step SubmitDisable s =
     (s\<lparr>busy := True, account_flights := account_flights s @ [DisableFlight (disablePassword s) (disableCode s)]\<rparr>,
      [Call (AuthCall (MfaDisable (disablePassword s) (disableCode s)))])"
| "account_step CopyCodes s =
     (if \<not> truthy (backupCodes s) then (s, [])
      else (s\<lparr>copied := True, copy_timers := Suc (copy_timers s)\<rparr>,
            [CopyText (code_lines (backupCodes s)), ToastOk ''Backup codes copied'']))"
| "account_step CopyTimer s = (s\<lparr>copied := False, copy_timers := copy_timers s - 1\<rparr>, [])"
| "account_step (AccountLanded i a) s =
     (if i < length (account_flights s)
      then account_landed (account_flights s ! i) a (s\<lparr>account_flights := drop_nth i (account_flights s)\<rparr>)
      else (s, []))"

section \<open>The rendered page\<close>

definition mfaEnabled :: "jsval \<Rightarrow> bool" where
  "mfaEnabled me \<longleftrightarrow> truthy (opt_fld me ''mfa_enabled'')"

definition status_view :: "jsval \<Rightarrow> account_state \<Rightarrow> account_event ui list" where
  "status_view me s =
     [Txt (''Two-factor authentication is '' @ (if mfaEnabled me then ''enabled'' else ''off'')),
      Txt (if mfaEnabled me then ''Signing in requires a code from your authenticator app.''
           else ''Add a second step at sign-in using a TOTP authenticator app.'')] @
     shown (\<not> mfaEnabled me \<and> \<not> truthy (setup_data s)) [Btn ''Enable'' (busy s) StartSetup]"

definition enrol_view :: "account_state \<Rightarrow> account_event ui list" where
  "enrol_view s = shown (truthy (setup_data s))
     [Txt (''1 '' @ middot @ '' Scan this QR code''),
      Txt ''Use Google Authenticator, Authy, 1Password, or any TOTP app.'',
      Val (opt_fld (setup_data s) ''qr_code''),
      Txt (''Can'' @ CHR 0x27 # ''t scan? Enter this secret manually:''), Val (opt_fld (setup_data s) ''secret''),
      Txt (''2 '' @ middot @ '' Enter the code from the app''),
      Form ConfirmEnable
        [Field ''123456'' (enableCode s) True TypeEnableCode,
         Submit ''Confirm'' (busy s \<or> trim (enableCode s) = [])]]"

definition codes_view :: "account_state \<Rightarrow> account_event ui list" where
  "codes_view s = shown (truthy (backupCodes s))
     [Txt ''Save your backup codes'',
      Txt ''Each code works once if you lose access to your authenticator. They will not be shown again.'',
      Box (map Val (as_list (backupCodes s))),
      Btn ''Copy all codes'' False CopyCodes]"

definition disable_view :: "jsval \<Rightarrow> account_state \<Rightarrow> account_event ui list" where
  "disable_view me s = shown (mfaEnabled me)
     [Txt ''Disable two-factor authentication'',
      Txt ''Requires your password and a current authenticator or backup code.'',
      Form SubmitDisable
        [Field ''Password'' (disablePassword s) True TypeDisablePassword,
         Field ''Authenticator or backup code'' (disableCode s) True TypeDisableCode,
         Submit ''Disable MFA'' (busy s \<or> disablePassword s = [] \<or> trim (disableCode s) = [])]]"

definition account_view :: "bool \<Rightarrow> jsval \<Rightarrow> account_state \<Rightarrow> account_event ui list" where
  "account_view isLoading me s =
     (if isLoading then []
      else [Txt ''Account security'', Txt (''Two-factor authentication for '' @ js_string (opt_fld me ''email''))] @
           status_view me s @ enrol_view s @ codes_view s @ disable_view me s)"

text \<open>An event together with what the query of the user holds when it happens.\<close>

definition account_allowed :: "jsval \<times> account_event \<Rightarrow> account_state \<Rightarrow> bool" where
  "account_allowed me_e s = (case snd me_e of
     TypeEnableCode v \<Rightarrow> True | TypeDisablePassword v \<Rightarrow> True | TypeDisableCode v \<Rightarrow> True
   | CopyTimer \<Rightarrow> 0 < copy_timers s
   | AccountLanded i a \<Rightarrow> i < length (account_flights s)
   | e \<Rightarrow> e \<in> set (page_clicks (account_view False (fst me_e) s)))"

abbreviation account_next :: "jsval \<times> account_event \<Rightarrow> account_state \<Rightarrow> account_state" where
  "account_next me_e s \<equiv> fst (account_step (snd me_e) s)"

abbreviation account_reach :: "account_state \<Rightarrow> bool" where
  "account_reach \<equiv> reach (\<lambda>s. s = init_account) account_allowed account_next"

section \<open>The busy flag\<close>

lemma account_clicks: "e \<in> set (page_clicks (account_view False me s)) \<longleftrightarrow>
    (e = StartSetup \<and> \<not> busy s \<and> \<not> mfaEnabled me \<and> \<not> truthy (setup_data s)) \<or>
    (e = ConfirmEnable \<and> \<not> busy s \<and> truthy (setup_data s) \<and> trim (enableCode s) \<noteq> []) \<or>
    (e = CopyCodes \<and> truthy (backupCodes s)) \<or>
    (e = SubmitDisable \<and> \<not> busy s \<and> mfaEnabled me \<and> disablePassword s \<noteq> [] \<and> trim (disableCode s) \<noteq> [])"
  by (auto simp: account_view_def status_view_def enrol_view_def codes_view_def disable_view_def
      submittable_def)

lemma landed_flag [simp]:
  "\<not> busy (fst (account_landed f a s))" "account_flights (fst (account_landed f a s)) = account_flights s"
  by (cases f; cases a; simp add: setup_landed_def enable_landed_def disable_landed_def)+

definition account_launches :: "jsval \<times> account_event \<Rightarrow> bool" where
  "account_launches me_e \<longleftrightarrow> snd me_e \<in> {StartSetup, ConfirmEnable, SubmitDisable}"

definition account_lands :: "jsval \<times> account_event \<Rightarrow> bool" where
  "account_lands me_e \<longleftrightarrow> (\<exists>i a. snd me_e = AccountLanded i a)"

interpretation mfa: single_flight "\<lambda>s. s = init_account" account_allowed account_next busy
  "\<lambda>s. length (account_flights s)" account_launches account_lands
proof unfold_locales
  fix s and me_e :: "jsval \<times> account_event"
  show "account_allowed me_e s \<Longrightarrow> account_launches me_e \<Longrightarrow>
      \<not> busy s \<and> busy (account_next me_e s) \<and>
      length (account_flights (account_next me_e s)) = Suc (length (account_flights s))"
    by (cases "snd me_e") (simp_all add: account_launches_def account_allowed_def account_clicks)
  show "account_allowed me_e s \<Longrightarrow> account_lands me_e \<Longrightarrow>
      \<not> busy (account_next me_e s) \<and> Suc (length (account_flights (account_next me_e s))) = length (account_flights s)"
    by (auto simp: account_lands_def account_allowed_def length_drop_nth)
  show "account_allowed me_e s \<Longrightarrow> \<not> account_launches me_e \<Longrightarrow> \<not> account_lands me_e \<Longrightarrow>
      busy (account_next me_e s) = busy s \<and>
      length (account_flights (account_next me_e s)) = length (account_flights s)"
    by (cases "snd me_e") (simp_all add: account_launches_def account_lands_def)
qed (auto simp: init_account_def)

section \<open>Properties\<close>

text \<open>C13. The second factor is changed by one request at a time, and only by complete ones: while a request
  runs no form or button starts another, a code is confirmed only during enrolment and when it is not
  blank, and disabling needs the password and a non-blank code; the request carries what was typed.\<close>

theorem mfa_requests_guarded:
  assumes "account_reach s" "account_allowed (me, e) s" "calls_of (snd (account_step e s)) = [c]"
  shows "account_flights s = [] \<and>
    (c = AuthCall MfaSetup \<and> \<not> mfaEnabled me \<or>
     c = AuthCall (MfaEnable (enableCode s)) \<and> truthy (setup_data s) \<and> trim (enableCode s) \<noteq> [] \<or>
     c = AuthCall (MfaDisable (disablePassword s) (disableCode s)) \<and> mfaEnabled me \<and>
       disablePassword s \<noteq> [] \<and> trim (disableCode s) \<noteq> [])"
proof -
  have none: "calls_of (snd (account_landed f a t)) = []" for f a t
    by (cases f; cases a) (simp_all add: setup_landed_def enable_landed_def disable_landed_def)
  have "account_launches (me, e)"
    using assms(3) none by (cases e) (auto simp: account_launches_def split: if_splits)
  then have "account_flights s = []"
    using mfa.no_second_launch [OF assms(1), of "(me, e)"] assms(2) by auto
  moreover have "c = AuthCall MfaSetup \<and> \<not> mfaEnabled me \<or>
     c = AuthCall (MfaEnable (enableCode s)) \<and> truthy (setup_data s) \<and> trim (enableCode s) \<noteq> [] \<or>
     c = AuthCall (MfaDisable (disablePassword s) (disableCode s)) \<and> mfaEnabled me \<and>
       disablePassword s \<noteq> [] \<and> trim (disableCode s) \<noteq> []"
    using assms(2,3) none by (cases e) (auto simp: account_allowed_def account_clicks split: if_splits)
  ultimately show ?thesis by blast
qed

theorem mfa_requests_guarded_witness:
  "account_flights init_account = [] \<and> \<not> mfaEnabled JNull"
proof -
  have "account_reach init_account" by (rule reach_start) simp
  moreover have "account_allowed (JNull, StartSetup) init_account"
    by (simp add: account_allowed_def account_clicks init_account_def mfaEnabled_def)
  ultimately show ?thesis using mfa_requests_guarded [of init_account JNull StartSetup "AuthCall MfaSetup"] by simp
qed

text \<open>Backup codes on the page are always codes the server handed out: an event changes them only when
  it brings the answer to a confirmed enrolment, which replaces them by that answer's codes and ends the
  enrolment, or the answer to a disabled second factor, which removes them.\<close>

theorem backup_codes_from_server:
  assumes "backupCodes (fst (account_step e s)) \<noteq> backupCodes s"
  shows "\<exists>i data. e = AccountLanded i (Answered data) \<and> i < length (account_flights s) \<and>
    ((\<exists>c. account_flights s ! i = EnableFlight c \<and> \<not> nullish data \<and>
        backupCodes (fst (account_step e s)) = opt_fld data ''backup_codes'' \<and>
        setup_data (fst (account_step e s)) = JNull) \<or>
     (\<exists>p c. account_flights s ! i = DisableFlight p c \<and> backupCodes (fst (account_step e s)) = JNull))"
proof (cases e)
  case (AccountLanded i a)
  with assms have i: "i < length (account_flights s)" by (auto split: if_splits)
  show ?thesis using assms AccountLanded i
    by (cases "account_flights s ! i"; cases a)
      (auto simp: setup_landed_def enable_landed_def disable_landed_def split: if_splits)
qed (use assms in \<open>auto split: if_splits\<close>)

theorem backup_codes_from_server_witness:
  "backupCodes (fst (account_step (AccountLanded 0 (Answered (JObj [(''backup_codes'', JArr [JStr ''x''])])))
     (init_account\<lparr>account_flights := [EnableFlight ''123456'']\<rparr>))) = JArr [JStr ''x'']"
  using backup_codes_from_server [of "AccountLanded 0 (Answered (JObj [(''backup_codes'', JArr [JStr ''x''])]))"
      "init_account\<lparr>account_flights := [EnableFlight ''123456'']\<rparr>"]
  by (auto simp: enable_landed_def init_account_def)

text \<open>Copying the backup codes copies all of them: splitting the copied text at its line breaks gives
  back the codes that are shown, in their order.\<close>

theorem copied_codes_complete:
  assumes "backupCodes s = JArr (map JStr cs)" "cs \<noteq> []" "\<And>c. c \<in> set cs \<Longrightarrow> CHR 0x0A \<notin> set c"
  shows "\<exists>text. CopyText text \<in> set (snd (account_step CopyCodes s)) \<and> split_on (CHR 0x0A) text = cs"
proof -
  have "split_on d (join [d] cs) = cs" if "cs \<noteq> []" "\<And>c. c \<in> set cs \<Longrightarrow> d \<notin> set c" for d and cs :: "string list"
    using that
  proof (induction cs)
    case (Cons c cs)
    show ?case
    proof (cases cs)
      case Nil
      then show ?thesis using Cons.prems by (simp add: split_on_no_sep)
    next
      case (Cons c' cs')
      then show ?thesis using Cons.IH Cons.prems by (simp add: split_on_append)
    qed
  qed simp
  from this [OF assms(2,3)] show ?thesis
    using assms(1) by (simp add: code_lines_def o_def)
qed

theorem copied_codes_complete_witness:
  "\<exists>text. CopyText text \<in> set (snd (account_step CopyCodes (init_account\<lparr>backupCodes := JArr (map JStr [''ab'', ''cd''])\<rparr>))) \<and>
     split_on (CHR 0x0A) text = [''ab'', ''cd'']"
proof -
  have "c \<in> set [''ab'', ''cd''] \<Longrightarrow> CHR 0x0A \<notin> set c" for c :: string by auto
  with copied_codes_complete [of "init_account\<lparr>backupCodes := JArr (map JStr [''ab'', ''cd''])\<rparr>" "[''ab'', ''cd'']"]
  show ?thesis by simp
qed

end
