(* ===== verification/Agents.thy ===== *)
theory Agents
  imports Filters
begin

text \<open>
  The agent list and the enrolment dialog, \<open>frontend/src/pages/Agents.tsx\<close>: the filters with their
  counters, the removal of an agent behind the browser's confirmation, and the command the dialog
  shows and copies. The confirmation and the clipboard's answer are the browser's: an argument and
  two events.
\<close>

section \<open>State and handlers\<close>

text \<open>\<open>add_os\<close> is the state of the dialog while it is mounted; it starts on Linux each time.\<close>

record agents_state =
  ag_search :: string
  ag_status :: string
  add_os :: "string option"

definition init_agents :: agents_state where
  "init_agents = \<lparr>ag_search = [], ag_status = [], add_os = None\<rparr>"

datatype agents_event =
    TypeAgentSearch string
  | PickAgentStatus string
  | OpenAdd
  | CloseAdd
  | PickOs string
  | CopyCommand string
  | CommandCopied
  | CommandNotCopied
  | RefreshAgents
  | ConfirmRemove row
  | AgentRemoved jsval
  | RemoveFailed api_error

definition remove_question :: "row \<Rightarrow> string" where
  "remove_question a =
     ''Remove agent \"'' @ js_string (jor (fld a ''name'') (fld a ''agent_id'')) @ ''\" (ID '' @
     js_string (fld a ''agent_id'') @ '') from the manager?'' @ [CHR 0x0A, CHR 0x0A] @
     ''This deregisters it '' @ mdash @ '' the endpoint will stop reporting until re-enrolled.''"

definition removed_text :: "jsval \<Rightarrow> string" where
  "removed_text d =
     trim (''Removed agent '' @ js_string (jor (jor (opt_fld d ''name'') (opt_fld d ''agent_id'')) (JStr [])))"

fun agents_step ::
  "(string \<Rightarrow> bool) \<Rightarrow> agents_event \<Rightarrow> agents_state \<Rightarrow> agents_state \<times> api_call effect list" where
  "agents_step confirm (TypeAgentSearch v) s = (s\<lparr>ag_search := v\<rparr>, [])"
| "agents_step confirm (PickAgentStatus v) s = (s\<lparr>ag_status := v\<rparr>, [])"
| "agents_step confirm OpenAdd s =
     (s\<lparr>add_os := (case add_os s of None \<Rightarrow> Some ''linux'' | Some os \<Rightarrow> Some os)\<rparr>, [])"
| "agents_step confirm CloseAdd s = (s\<lparr>add_os := None\<rparr>, [])"
| "agents_step confirm (PickOs k) s = (s\<lparr>add_os := map_option (\<lambda>_. k) (add_os s)\<rparr>, [])"
| "agents_step confirm (CopyCommand c) s = (s, [CopyText c])"
| "agents_step confirm CommandCopied s = (s, [ToastOk ''Copied to clipboard''])"
| "agents_step confirm CommandNotCopied s =
     (s, [ToastErr (JStr (''Copy failed '' @ mdash @ '' select and copy manually''))])"
| "agents_step confirm RefreshAgents s = (s, [Refetch ''agents''])"
| "agents_step confirm (ConfirmRemove a) s =
     (s, if confirm (remove_question a) then [Call (EngineCall (DeleteAgent (row_id a)))] else [])"
| "agents_step confirm (AgentRemoved d) s = (s, [Invalidate [JStr ''agents''], ToastOk (removed_text d)])"
| "agents_step confirm (RemoveFailed e) s =
     (s, [ToastErr (jor (err_detail e) (JStr ''Failed to remove agent''))])"

section \<open>Filters and counters\<close>

definition AGENT_STATUS :: "(string \<times> string) list" where
  "AGENT_STATUS = [(''active'', ''Active''), (''disconnected'', ''Disconnected''),
     (''never'', ''Never seen''), (''pending'', ''Pending'')]"

definition agent_matches :: "string \<times> string \<Rightarrow> row \<Rightarrow> bool" where
  "agent_matches f a =
     (case f of (search, status) \<Rightarrow>
       (search = [] \<or> text_found search [''name'', ''ip'', ''os'', ''hostname''] a) \<and>
       (status = [] \<or> fld a ''status'' = JStr status))"

definition filtered_agents :: "row list \<Rightarrow> agents_state \<Rightarrow> row list" where
  "filtered_agents as s = filter (agent_matches (ag_search s, ag_status s)) as"

definition agent_count :: "row list \<Rightarrow> string \<Rightarrow> nat" where
  "agent_count as k = length (filter (\<lambda>a. fld a ''status'' = JStr k) as)"

definition agent_label :: "row \<Rightarrow> string" where
  "agent_label a =
     (case map_of AGENT_STATUS (js_string (fld a ''status'')) of Some l \<Rightarrow> l | None \<Rightarrow> ''Pending'')"

interpretation agent_filter: quick_filter agent_matches "([], [])" "Pair []"
  "\<lambda>k a. fld a ''status'' = JStr k" "\<lambda>k. k \<noteq> []"
  by unfold_locales (auto simp: agent_matches_def)

section \<open>The rendered page\<close>

definition summary_tiles :: "row list \<Rightarrow> agents_event ui list" where
  "summary_tiles as =
     map (\<lambda>(l, n). Box [Txt l, Txt (nat_dec n)])
       [(''Total agents'', length as), (''Active'', agent_count as ''active''),
        (''Disconnected'', agent_count as ''disconnected'')]"

definition is_manager :: "row \<Rightarrow> bool" where
  "is_manager a \<longleftrightarrow> js_string (fld a ''agent_id'') = ''000''"

definition dash_or :: "jsval \<Rightarrow> 'e ui" where
  "dash_or v = Val (jor v (JStr mdash))"

definition agent_row :: "bool \<Rightarrow> row \<Rightarrow> agents_event ui" where
  "agent_row isPending a = Box
     ([Txt (agent_label a), Val (jor (jor (fld a ''name'') (fld a ''hostname'')) (fld a ''id''))] @
      shown (truthy (fld a ''hostname'') \<and> fld a ''name'' \<noteq> fld a ''hostname'') [Val (fld a ''hostname'')] @
      [dash_or (jor (fld a ''ip'') (fld a ''ip_address'')), dash_or (fld a ''os''), dash_or (fld a ''version''),
       dash_or (fld a ''last_seen''), dash_or (fld a ''group'')] @
      (if is_manager a then [Txt ''Manager''] else [Btn ''Remove'' isPending (ConfirmRemove a)]))"

definition OS_LABELS :: "(string \<times> string) list" where
  "OS_LABELS = [(''linux'', ''Linux''), (''macos'', ''macOS''), (''windows'', ''Windows'')]"

text \<open>\<open>data?.[os] || ''\<close>\<close>

definition deploy_command :: "jsval \<Rightarrow> string \<Rightarrow> string" where
  "deploy_command d os = js_string (jor (opt_fld d os) (JStr []))"

definition AddAgentModal :: "bool \<Rightarrow> jsval \<Rightarrow> string \<Rightarrow> agents_event ui list" where
  "AddAgentModal isLoading d os =
     [Clickable CloseAdd [], Txt ''Add an agent'', Btn ''Close'' False CloseAdd,
      Txt (''Run the command below on the endpoint you want to onboard '' @ mdash @ '' with sudo (Linux/macOS) or in an elevated PowerShell (Windows). It installs the SocBlitz agent, enrolls it with this server, and starts reporting. The new agent appears in this list within a minute.'')] @
     shown (os = ''macos'') [Txt ''macOS installs the SIEM agent only (forensics component is Linux/Windows).''] @
     map (\<lambda>(k, l). Btn l False (PickOs k)) OS_LABELS @
     (if isLoading then [Txt (''Loading'' @ ellipsis)]
      else if \<not> truthy (opt_fld d ''configured'')
      then [Val (jor (opt_fld d ''hint'')
        (JStr ''Agent enrollment is not configured. Set AGENT_ENROLL_KEY in .env and restart the backend.''))]
      else [Txt (deploy_command d os), Btn ''Copy command'' False (CopyCommand (deploy_command d os))]) @
     shown (truthy (opt_fld d ''configured''))
       [Txt ''The endpoint must be able to reach this server on the enrollment port. Firewalled hosts need outbound access to it. After install, use Refresh to see the agent register.'']"

definition agents_view ::
  "bool \<Rightarrow> bool \<Rightarrow> bool \<Rightarrow> jsval \<Rightarrow> row list \<Rightarrow> agents_state \<Rightarrow> agents_event ui list" where
  "agents_view isLoading removing deployLoading deploy as s =
     (let rows = filtered_agents as s in
      [Txt ''Agents'', Txt ''Endpoint sensors and monitoring status'',
       Btn ''Add agent'' False OpenAdd, Btn ''Refresh'' False RefreshAgents] @
      (case add_os s of None \<Rightarrow> [] | Some os \<Rightarrow> AddAgentModal deployLoading deploy os) @
      summary_tiles as @
      [Field (''Search agents, IPs, hostnames'' @ ellipsis) (ag_search s) False TypeAgentSearch,
       Select (ag_status s) (([], ''All statuses'') # AGENT_STATUS) PickAgentStatus,
       Txt (nat_dec (length rows) @ '' of '' @ nat_dec (length as) @ '' agents'')] @
      map Txt [''Status'', ''Agent name'', ''IP address'', ''OS'', ''Version'', ''Last seen'', ''Group'', ''Actions''] @
      shown isLoading [Txt (''Loading agents'' @ ellipsis)] @
      shown (\<not> isLoading \<and> rows = []) [Txt ''No agents found''] @
      map (agent_row removing) rows)"

section \<open>Clicks\<close>

lemma clicks_agent_row: "e \<in> set (clicks (agent_row p a)) \<longleftrightarrow> e = ConfirmRemove a \<and> \<not> p \<and> \<not> is_manager a"
  by (auto simp: agent_row_def dash_or_def)

lemma clicks_modal: "e \<in> set (page_clicks (AddAgentModal l d os)) \<longleftrightarrow>
    e = CloseAdd \<or> (\<exists>k \<in> set (map fst OS_LABELS). e = PickOs k) \<or>
    e = CopyCommand (deploy_command d os) \<and> \<not> l \<and> truthy (opt_fld d ''configured'')"
  by (force simp: AddAgentModal_def page_clicks_map)

lemma clicks_agents: "e \<in> set (page_clicks (agents_view l r dl d as s)) \<longleftrightarrow>
    e = OpenAdd \<or> e = RefreshAgents \<or>
    (\<exists>os. add_os s = Some os \<and> e \<in> set (page_clicks (AddAgentModal dl d os))) \<or>
    (\<exists>a \<in> set (filtered_agents as s). e = ConfirmRemove a \<and> \<not> r \<and> \<not> is_manager a)"
proof -
  have "page_clicks (summary_tiles as) = []"
    by (simp add: summary_tiles_def page_clicks_def)
  then show ?thesis
    by (auto simp: agents_view_def Let_def page_clicks_map clicks_agent_row split: option.splits)
qed

text \<open>What can happen: typing and choosing at any time, clicks the page offers, answers.\<close>

definition agents_allowed ::
  "(bool \<times> bool \<times> bool \<times> jsval \<times> row list) \<times> agents_event \<Rightarrow> agents_state \<Rightarrow> bool" where
  "agents_allowed ce s =
     (case ce of ((l, r, dl, d, as), e) \<Rightarrow>
       (case e of OpenAdd \<Rightarrow> True | CloseAdd \<Rightarrow> e \<in> set (page_clicks (agents_view l r dl d as s))
        | PickOs k \<Rightarrow> e \<in> set (page_clicks (agents_view l r dl d as s))
        | CopyCommand c \<Rightarrow> e \<in> set (page_clicks (agents_view l r dl d as s))
        | ConfirmRemove a \<Rightarrow> e \<in> set (page_clicks (agents_view l r dl d as s))
        | _ \<Rightarrow> True))"

abbreviation agents_reach :: "(string \<Rightarrow> bool) \<Rightarrow> agents_state \<Rightarrow> bool" where
  "agents_reach confirm \<equiv>
     reach (\<lambda>s. s = init_agents) agents_allowed (\<lambda>ce s. fst (agents_step confirm (snd ce) s))"

lemma known_os:
  assumes "agents_reach confirm s"
  shows "add_os s \<in> insert None (Some ` set (map fst OS_LABELS))"
  using assms
proof (rule reach_invariant)
  fix s and ce :: "(bool \<times> bool \<times> bool \<times> jsval \<times> row list) \<times> agents_event"
  obtain l r dl d as e where ce: "ce = ((l, r, dl, d, as), e)" by (metis surj_pair)
  assume "add_os s \<in> insert None (Some ` set (map fst OS_LABELS))" "agents_allowed ce s"
  then show "add_os (fst (agents_step confirm (snd ce) s)) \<in> insert None (Some ` set (map fst OS_LABELS))"
    by (cases e; cases "add_os s")
      (auto simp: ce agents_allowed_def clicks_agents clicks_modal OS_LABELS_def)
qed (auto simp: init_agents_def)

section \<open>Properties\<close>

text \<open>C29. The manager is never removed from the page, and an agent only on purpose: a removal is sent only
  from the row of a listed agent that is not the manager, while no other removal is running, and after
  the dialog naming the agent and its id was confirmed; it is for that agent.\<close>

theorem agent_removal_guarded:
  assumes "e \<in> set (page_clicks (agents_view isLoading removing deployLoading deploy as s))"
    and "c \<in> set (calls_of (snd (agents_step confirm e s)))"
  shows "\<exists>a \<in> set (filtered_agents as s). c = EngineCall (DeleteAgent (row_id a)) \<and>
    js_string (fld a ''agent_id'') \<noteq> ''000'' \<and> \<not> removing \<and> confirm (remove_question a)"
  using assms by (auto simp: clicks_agents clicks_modal is_manager_def split: if_splits)

theorem agent_removal_guarded_witness:
  "\<exists>a \<in> set (filtered_agents [[(''id'', JStr ''a7''), (''agent_id'', JStr ''007'')]] init_agents). row_id a = ''a7''"
  using agent_removal_guarded [of "ConfirmRemove [(''id'', JStr ''a7''), (''agent_id'', JStr ''007'')]" False False False JNull
      "[[(''id'', JStr ''a7''), (''agent_id'', JStr ''007'')]]" init_agents "EngineCall (DeleteAgent ''a7'')" "\<lambda>q. True"]
  by (simp add: clicks_agents filtered_agents_def init_agents_def agent_matches_def is_manager_def row_id_def)

text \<open>The agent list shows what its filters say: an agent is listed exactly when it has the chosen
  status and a searched column contains the text in any letter case; searching for a part of a
  listed agent's name, address, system or host name keeps it; and without a search, choosing a status
  lists as many agents as have it, in their order, never more than in total.\<close>

theorem agent_filter_exact:
  assumes "k \<noteq> []" "ag_search s = []" "s1 = fst (agents_step confirm (PickAgentStatus k) s)"
    and "s2 = fst (agents_step confirm (TypeAgentSearch q) s1)"
  shows "length (filtered_agents as s1) = agent_count as k \<and> subseq (filtered_agents as s1) as \<and>
    set (filtered_agents as s2) \<subseteq> set (filtered_agents as s1) \<and>
    (\<forall>a col v. a \<in> set (filtered_agents as s1) \<and> col \<in> {''name'', ''ip'', ''os'', ''hostname''} \<and>
       fld a col = JStr v \<and> str_includes v q \<longrightarrow> a \<in> set (filtered_agents as s2))"
proof -
  have s1: "filtered_agents as s1 = filter (agent_matches ([], k)) as"
    using assms(2,3) by (simp add: filtered_agents_def)
  have s2: "filtered_agents as s2 = filter (agent_matches (q, k)) as"
    using assms(3,4) by (simp add: filtered_agents_def)
  have keep: "agent_matches (q, k) a"
    if "agent_matches ([], k) a" "col \<in> {''name'', ''ip'', ''os'', ''hostname''}" "fld a col = JStr v" "str_includes v q"
    for a col v
  proof -
    have "text_found q [''name'', ''ip'', ''os'', ''hostname''] a"
      using text_found_part [of col _ a v q] that(2-4) by simp
    with that(1) show ?thesis by (simp add: agent_matches_def)
  qed
  have "agent_matches (q, k) a \<Longrightarrow> agent_matches ([], k) a" for a by (simp add: agent_matches_def)
  then show ?thesis
    using agent_filter.counter_exact [OF assms(1), of as] agent_filter.listed_in_order [of "([], k)" as] keep
    unfolding s1 s2 agent_count_def by auto
qed

theorem agent_filter_exact_witness:
  "length (filtered_agents [[(''status'', JStr ''active'')], [(''status'', JStr ''never'')]]
     (init_agents\<lparr>ag_status := ''active''\<rparr>)) = 1"
proof -
  have a: "''active'' \<noteq> []" "ag_search init_agents = []" by (simp_all add: init_agents_def)
  show ?thesis
    using agent_filter_exact [OF a refl refl, of "[[(''status'', JStr ''active'')], [(''status'', JStr ''never'')]]"]
    by (simp add: agent_count_def)
qed

text \<open>The enrolment dialog copies what it shows: on every reachable page the dialog is closed or on one of
  the three systems, the copied text is the command shown for the chosen system, and there is
  nothing to copy while the command is loading or enrolment is not configured.\<close>

theorem enrolment_command_copied:
  assumes "agents_reach confirm s"
    and "CopyCommand c \<in> set (page_clicks (agents_view isLoading removing deployLoading deploy as s))"
  shows "\<exists>os. add_os s = Some os \<and> os \<in> {''linux'', ''macos'', ''windows''} \<and> \<not> deployLoading \<and>
    truthy (opt_fld deploy ''configured'') \<and> c = js_string (jor (opt_fld deploy os) (JStr [])) \<and>
    c \<in> set (page_texts (AddAgentModal deployLoading deploy os)) \<and>
    snd (agents_step confirm (CopyCommand c) s) = [CopyText c]"
proof -
  obtain os where os: "add_os s = Some os" "os \<in> {''linux'', ''macos'', ''windows''}" "\<not> deployLoading"
    "truthy (opt_fld deploy ''configured'')" "c = deploy_command deploy os"
    using known_os [OF assms(1)] assms(2) by (auto simp: clicks_agents clicks_modal OS_LABELS_def)
  then show ?thesis by (simp add: AddAgentModal_def deploy_command_def)
qed

theorem enrolment_command_copied_witness:
  "\<exists>os. Some ''linux'' = Some os \<and>
     ''curl x'' \<in> set (page_texts (AddAgentModal False (JObj [(''configured'', JBool True), (''linux'', JStr ''curl x'')]) os))"
proof -
  let ?s = "run (\<lambda>ce s. fst (agents_step (\<lambda>q. True) (snd ce) s)) [((False, False, False, JNull, [] :: row list), OpenAdd)] init_agents"
  have "agents_reach (\<lambda>q. True) init_agents" by (rule reach_start) simp
  then have r: "agents_reach (\<lambda>q. True) ?s" by (rule legal_reach) (simp add: agents_allowed_def)
  have "add_os init_agents = None" by (simp add: init_agents_def)
  then have s: "add_os ?s = Some ''linux''" by simp
  have "CopyCommand ''curl x'' \<in> set (page_clicks (agents_view False False False
      (JObj [(''configured'', JBool True), (''linux'', JStr ''curl x'')]) [] ?s))"
    unfolding clicks_agents s by (simp add: clicks_modal deploy_command_def jor_def)
  from enrolment_command_copied [OF r this] show ?thesis using s by auto
qed

end
