(* ===== verification/ThreatIntel.thy ===== *)
theory ThreatIntel
  imports ApiClient Async Json
begin

text \<open>
  The indicator lookup, \<open>frontend/src/pages/ThreatIntel.tsx\<close>: the search form with its handler cut at the
  \<open>await\<close>, the verdict and the table of source answers, the cell texts of \<open>formatValue\<close>, and the
  list of recent events.
\<close>

section \<open>State and handlers\<close>

record ti_state =
  iocType :: string
  ti_query :: string
  ti_result :: jsval
  ti_loading :: bool
  ti_flights :: "(string \<times> string) list"

definition init_ti :: ti_state where
  "init_ti = \<lparr>iocType = ''ip'', ti_query = [], ti_result = JNull, ti_loading = False, ti_flights = []\<rparr>"

datatype ti_event =
    PickIocType string
  | TypeIoc string
  | SubmitLookup
  | LookupLanded nat answer

definition lookup_landed :: "answer \<Rightarrow> ti_state \<Rightarrow> ti_state \<times> api_call effect list" where
  "lookup_landed a s = (case a of
     Answered data \<Rightarrow> (s\<lparr>ti_result := data, ti_loading := False\<rparr>, [])
   | Failed err \<Rightarrow> (s\<lparr>ti_loading := False\<rparr>,
       [ToastErr (JStr (''Lookup failed '' @ mdash @ '' check connector configuration''))]))"

fun ti_step :: "ti_event \<Rightarrow> ti_state \<Rightarrow> ti_state \<times> api_call effect list" where
  "ti_step (PickIocType t) s = (s\<lparr>iocType := t, ti_result := JNull\<rparr>, [])"
| "ti_step (TypeIoc v) s = (s\<lparr>ti_query := v\<rparr>, [])"
| "ti_step SubmitLookup s =
     (if trim (ti_query s) = [] then (s, [])
      else (s\<lparr>ti_loading := True, ti_result := JNull,
              ti_flights := ti_flights s @ [(trim (ti_query s), iocType s)]\<rparr>,
            [Call (IntelCall (LookupIoc (trim (ti_query s)) (iocType s)))]))"
| "ti_step (LookupLanded i a) s =
     (if i < length (ti_flights s)
      then lookup_landed a (s\<lparr>ti_flights := drop_nth i (ti_flights s)\<rparr>) else (s, []))"

section \<open>The verdict\<close>

definition IOC_META :: "(string \<times> string \<times> string) list" where
  "IOC_META =
     [(''ip'', ''IP address'', ''185.220.101.42''), (''domain'', ''Domain'', ''malicious-c2.example.com''),
      (''hash'', ''File hash'', ''MD5 / SHA1 / SHA256''), (''url'', ''URL'', ''https://evil.example/payload''),
      (''email'', ''Email'', ''phish@attacker.com'')]"

definition verdictLabel :: "row \<Rightarrow> jsval" where
  "verdictLabel r =
     jcoalesce (opt_fld (fld r ''verdict'') ''status'')
       (JStr (if \<not> truthy (fld r ''sources'') then ''unknown''
              else if truthy (opt_fld (fld r ''verdict'') ''malicious'') then ''malicious'' else ''clean''))"

text \<open>
  \<open>formatValue\<close>: \<open>typeof null\<close> is \<open>object\<close>, and joining reads null and undefined as empty texts.
\<close>

definition is_object :: "jsval \<Rightarrow> bool" where
  "is_object v = (case v of JNull \<Rightarrow> True | JArr _ \<Rightarrow> True | JObj _ \<Rightarrow> True | _ \<Rightarrow> False)"

definition join_vals :: "jsval list \<Rightarrow> string" where
  "join_vals vs = join '', '' (map (\<lambda>v. if nullish v then [] else js_string v) vs)"

definition formatValue :: "jsval \<Rightarrow> string" where
  "formatValue v = (case v of
     JNull \<Rightarrow> mdash | JUndef \<Rightarrow> mdash
   | JStr s \<Rightarrow> (if s = [] then mdash else s)
   | JBool b \<Rightarrow> (if b then ''yes'' else ''no'')
   | JArr vs \<Rightarrow>
       (if vs = [] then mdash
        else if list_all (\<lambda>x. \<not> is_object x) vs then join_vals vs
        else nat_dec (length vs) @ '' item'' @ (if length vs = 1 then [] else ''s''))
   | JObj r \<Rightarrow> json v
   | JNum n \<Rightarrow> js_string v)"

text \<open>The rows of one source: its error, or its fields, or one row of dashes.\<close>

definition source_rows :: "jsval \<Rightarrow> row" where
  "source_rows d =
     (let rows = (if truthy (opt_fld d ''error'') then [(''error'', opt_fld d ''error'')] else as_row d)
      in if rows = [] then [(mdash, JStr mdash)] else rows)"

section \<open>The rendered page\<close>

definition ti_field :: "string \<Rightarrow> jsval \<Rightarrow> ti_event ui" where
  "ti_field l v = Box [Txt l, Val v]"

definition sources_view :: "row \<Rightarrow> ti_event ui list" where
  "sources_view sources = shown (sources \<noteq> [])
     (map Txt [''Source'', ''Field'', ''Value''] @
      concat (map (\<lambda>(name, d).
        map (\<lambda>(i, field, v). Box (shown (i = 0) [Txt name] @ [Txt field, Txt (formatValue v)]))
          (zip [0..<length (source_rows d)] (source_rows d))) sources))"

definition result_view :: "row \<Rightarrow> ti_event ui list" where
  "result_view r =
     (let confidence = jcoalesce (opt_fld (fld r ''verdict'') ''confidence'') JNull;
          reasons = as_list (opt_fld (fld r ''verdict'') ''reasons'');
          skipped = as_list (fld r ''skipped'') in
      [Val (verdictLabel r)] @
      shown (\<not> nullish confidence) [Txt (''Confidence '' @ js_string confidence @ ''/100'')] @
      [ti_field ''IOC value'' (fld r ''value''), ti_field ''Type'' (fld r ''type'')] @
      shown (truthy (fld r ''note'')) [Val (fld r ''note'')] @
      shown (verdictLabel r = JStr ''unknown'')
        [Txt (''No configured intel source had data on this IOC '' @ mdash @ '' this is not a clean verdict.'')] @
      shown (skipped \<noteq> []) [Txt (''Not checked (no API key configured): '' @ join_vals skipped)] @
      map Val reasons @ sources_view (as_row (fld r ''sources'')))"

text \<open>\<open>raw?.Event ?? raw ?? {}\<close> and the names of its tags.\<close>

definition recent_item :: "jsval \<Rightarrow> row" where
  "recent_item raw = as_row (jcoalesce (opt_fld raw ''Event'') raw)"

definition tag_names :: "row \<Rightarrow> jsval list" where
  "tag_names item = filter truthy (map (\<lambda>t. opt_fld t ''name'') (as_list (fld item ''Tag'')))"

definition recent_row :: "jsval \<Rightarrow> ti_event ui" where
  "recent_row raw =
     (let item = recent_item raw; tags = tag_names item in
      Box [Val (jcoalesce (fld item ''id'') (JStr mdash)), Val (jor (fld item ''info'') (JStr mdash)),
           Val (jor (opt_fld (fld item ''Orgc'') ''name'') (JStr mdash)),
           Txt (if tags \<noteq> [] then join_vals tags else mdash), Val (jor (fld item ''date'') (JStr mdash))])"

definition recent_view :: "jsval list \<Rightarrow> ti_event ui list" where
  "recent_view recent = shown (recent \<noteq> [])
     (Txt ''Recent SocBlitz Threat Intel events'' #
      map Txt [''Event ID'', ''Info'', ''Org'', ''Tags'', ''Date''] @ map recent_row recent)"

definition ioc_placeholder :: "string \<Rightarrow> string" where
  "ioc_placeholder t = (case map_of IOC_META t of Some (l, p) \<Rightarrow> p | None \<Rightarrow> [])"

definition ti_view :: "jsval list \<Rightarrow> ti_state \<Rightarrow> ti_event ui list" where
  "ti_view recent s =
     [Txt ''Threat Intelligence'', Txt ''IOC lookup and intelligence enrichment'', Txt ''IOC lookup''] @
     map (\<lambda>(t, l, p). Btn l False (PickIocType t)) IOC_META @
     [Form SubmitLookup
        [Field (ioc_placeholder (iocType s)) (ti_query s) True TypeIoc,
         Submit (if ti_loading s then ''Searching'' @ ellipsis else ''Lookup'') (ti_loading s)]] @
     shown (truthy (ti_result s)) (result_view (as_row (ti_result s))) @
     recent_view recent"

definition ti_allowed :: "ti_event \<Rightarrow> ti_state \<Rightarrow> bool" where
  "ti_allowed e s = (case e of
     TypeIoc v \<Rightarrow> True
   | LookupLanded i a \<Rightarrow> i < length (ti_flights s)
   | _ \<Rightarrow> e \<in> set (page_clicks (ti_view [] s)))"

abbreviation ti_next :: "ti_event \<Rightarrow> ti_state \<Rightarrow> ti_state" where
  "ti_next e s \<equiv> fst (ti_step e s)"

abbreviation ti_reach :: "ti_state \<Rightarrow> bool" where
  "ti_reach \<equiv> reach (\<lambda>s. s = init_ti) ti_allowed ti_next"

section \<open>What the page offers\<close>

lemma clicks_source_rows:
  "page_clicks (map (\<lambda>(i, field, v). Box (shown (i = (0::nat)) [Txt name] @ [Txt field, Txt (formatValue v)])) xs) = []"
  by (induction xs) auto

lemma clicks_sources [simp]: "page_clicks (sources_view src) = []"
proof -
  have "page_clicks (concat (map (\<lambda>(name, d). map (\<lambda>(i, field, v). Box (shown (i = 0) [Txt name] @
      [Txt field, Txt (formatValue v)]) :: ti_event ui) (zip [0..<length (source_rows d)] (source_rows d))) src)) = []"
    by (induction src) (auto simp: clicks_source_rows)
  then show ?thesis by (simp add: sources_view_def)
qed

lemma clicks_result [simp]: "page_clicks (result_view r) = []"
  by (simp add: result_view_def Let_def ti_field_def)

lemma clicks_recent [simp]: "page_clicks (recent_view xs) = []"
proof -
  have "page_clicks (map recent_row xs) = []" for xs
    by (induction xs) (simp_all add: recent_row_def Let_def)
  then show ?thesis by (simp add: recent_view_def)
qed

lemma clicks_ti: "e \<in> set (page_clicks (ti_view recent s)) \<longleftrightarrow>
    (\<exists>t \<in> set (map fst IOC_META). e = PickIocType t) \<or>
    e = SubmitLookup \<and> \<not> ti_loading s \<and> ti_query s \<noteq> []"
  by (force simp: ti_view_def page_clicks_map submittable_def)

fun ti_launches :: "ti_event \<Rightarrow> ti_state \<Rightarrow> bool" where
  "ti_launches SubmitLookup s = (trim (ti_query s) \<noteq> [])"
| "ti_launches _ s = False"

fun ti_lands :: "ti_event \<Rightarrow> bool" where
  "ti_lands (LookupLanded i a) = True"
| "ti_lands _ = False"

lemma lookup_landed_frame [simp]:
  "ti_loading (fst (lookup_landed a s)) = False" "ti_flights (fst (lookup_landed a s)) = ti_flights s"
  "iocType (fst (lookup_landed a s)) = iocType s" "calls_of (snd (lookup_landed a s)) = []"
  by (cases a; simp add: lookup_landed_def)+

interpretation lookup: search_form "\<lambda>s. s = init_ti" ti_allowed ti_next ti_loading
  "\<lambda>s. length (ti_flights s)" ti_launches ti_lands ti_result
proof unfold_locales
  fix e and s :: ti_state
  assume a: "ti_allowed e s"
  show "ti_launches e s \<Longrightarrow> \<not> ti_loading s \<and> ti_loading (ti_next e s) \<and>
      length (ti_flights (ti_next e s)) = Suc (length (ti_flights s))"
    using a by (cases e) (simp_all add: ti_allowed_def clicks_ti)
  show "ti_lands e \<Longrightarrow> \<not> ti_loading (ti_next e s) \<and>
      Suc (length (ti_flights (ti_next e s))) = length (ti_flights s)"
    using a by (cases e) (simp_all add: ti_allowed_def length_drop_nth)
  show "\<not> ti_launches e s \<Longrightarrow> \<not> ti_lands e \<Longrightarrow> ti_loading (ti_next e s) = ti_loading s \<and>
      length (ti_flights (ti_next e s)) = length (ti_flights s)"
    by (cases e) simp_all
  show "ti_launches e s \<Longrightarrow> ti_result (ti_next e s) = JNull" by (cases e) simp_all
  show "\<not> ti_launches e s \<Longrightarrow> \<not> ti_lands e \<Longrightarrow>
      ti_result (ti_next e s) = ti_result s \<or> ti_result (ti_next e s) = JNull"
    by (cases e) simp_all
qed (simp_all add: init_ti_def)

lemma known_type: "ti_reach s \<Longrightarrow> iocType s \<in> set (map fst IOC_META)"
proof (erule reach_invariant)
  show "s = init_ti \<Longrightarrow> iocType s \<in> set (map fst IOC_META)" for s
    by (simp add: init_ti_def IOC_META_def)
  show "iocType s \<in> set (map fst IOC_META) \<Longrightarrow> ti_allowed e s \<Longrightarrow> iocType (ti_next e s) \<in> set (map fst IOC_META)" for s e
    by (cases e) (auto simp: ti_allowed_def clicks_ti)
qed

section \<open>Properties\<close>

text \<open>C30. A lookup asks for what is on the page, once: a call is sent only by submitting the form while no
  lookup runs, for the trimmed, non-blank text and one of the five indicator types; while a lookup
  runs the page shows no result and the form cannot be submitted again. The type can be changed
  while it runs, and the answer is then shown under the new type although it is for the old one.\<close>

theorem lookups_guarded:
  assumes "ti_reach s" "ti_allowed e s"
  shows "(\<forall>c \<in> set (calls_of (snd (ti_step e s))).
      e = SubmitLookup \<and> ti_flights s = [] \<and> trim (ti_query s) \<noteq> [] \<and> iocType s \<in> set (map fst IOC_META) \<and>
      c = IntelCall (LookupIoc (trim (ti_query s)) (iocType s)) \<and> ti_result (ti_next e s) = JNull \<and>
      (\<forall>t d. let s' = ti_next (LookupLanded 0 (Answered d)) (ti_next (PickIocType t) (ti_next e s)) in
         iocType s' = t \<and> ti_result s' = d \<and> ti_flights s' = [])) \<and>
    (ti_flights s \<noteq> [] \<longrightarrow> ti_result s = JNull \<and> SubmitLookup \<notin> set (page_clicks (ti_view recent s)) \<and>
      (\<forall>t \<in> set (map fst IOC_META). PickIocType t \<in> set (page_clicks (ti_view recent s))))"
proof -
  have busy: "ti_flights s \<noteq> [] \<longleftrightarrow> ti_loading s"
    using lookup.flag_exact [OF assms(1)] by (cases "ti_flights s") (auto split: if_splits)
  have "\<forall>c \<in> set (calls_of (snd (ti_step e s))). e = SubmitLookup \<and> ti_flights s = [] \<and> trim (ti_query s) \<noteq> [] \<and>
      iocType s \<in> set (map fst IOC_META) \<and> c = IntelCall (LookupIoc (trim (ti_query s)) (iocType s)) \<and>
      ti_result (ti_next e s) = JNull \<and>
      (\<forall>t d. let s' = ti_next (LookupLanded 0 (Answered d)) (ti_next (PickIocType t) (ti_next e s)) in
         iocType s' = t \<and> ti_result s' = d \<and> ti_flights s' = [])"
    using assms(2) busy known_type [OF assms(1)]
    by (cases e) (auto simp: ti_allowed_def clicks_ti lookup_landed_def drop_nth_def Let_def split: if_splits answer.splits)
  then show ?thesis using busy lookup.nothing_shown_while_busy [OF assms(1)] by (simp add: clicks_ti)
qed

theorem lookups_guarded_witness:
  "calls_of (snd (ti_step SubmitLookup (init_ti\<lparr>ti_query := '' 1.2.3.4 ''\<rparr>))) =
     [IntelCall (LookupIoc ''1.2.3.4'' ''ip'')] \<and> ti_flights (init_ti\<lparr>ti_query := '' 1.2.3.4 ''\<rparr>) = []"
proof -
  have "ti_reach init_ti" by (rule reach_start) simp
  then have r: "ti_reach (init_ti\<lparr>ti_query := '' 1.2.3.4 ''\<rparr>)"
    using reach_step [of "\<lambda>s. s = init_ti" ti_allowed ti_next init_ti "TypeIoc '' 1.2.3.4 ''"] by (simp add: ti_allowed_def)
  have a: "ti_allowed SubmitLookup (init_ti\<lparr>ti_query := '' 1.2.3.4 ''\<rparr>)"
    by (simp add: ti_allowed_def clicks_ti init_ti_def)
  from lookups_guarded [OF r a] show ?thesis by (simp add: init_ti_def trim_def is_space_def)
qed

text \<open>Without a status of the server, the label is unknown exactly when the answer has no sources, and then
  the page says in words that this is not a clean verdict. An answer whose sources are an empty
  object or only errors, and which has no verdict, would read as clean: the page relies on the
  server to send a status whenever it sends sources.\<close>

lemma verdict_without_status:
  assumes "nullish (opt_fld (fld r ''verdict'') ''status'')"
  shows "(\<not> truthy (fld r ''sources'') \<longrightarrow> verdictLabel r = JStr ''unknown'' \<and>
      ''No configured intel source had data on this IOC '' @ mdash @ '' this is not a clean verdict.''
        \<in> set (page_texts (result_view r))) \<and>
    (verdictLabel r = JStr ''clean'' \<longleftrightarrow>
      truthy (fld r ''sources'') \<and> \<not> truthy (opt_fld (fld r ''verdict'') ''malicious''))"
  using assms by (auto simp: result_view_def Let_def verdictLabel_def jcoalesce_def)

lemma js_string_visible:
  "\<not> is_object v \<Longrightarrow> (if nullish v then [] else js_string v) = [] \<longleftrightarrow> v = JUndef \<or> v = JStr []"
  by (cases v) (auto simp: is_object_def)

text \<open>A cell of the result table is never blank, whatever a source answered, except for a list whose only
  element is the empty text: missing values read as a dash, lists of objects as their number, and
  objects as JSON.\<close>

theorem cells_visible:
  "formatValue v = [] \<longleftrightarrow> v = JArr [JStr []] \<or> v = JArr [JUndef]"
proof (cases v)
  case (JArr vs)
  have "join_vals vs = [] \<longleftrightarrow> vs = [JStr []] \<or> vs = [JUndef]"
    if "vs \<noteq> []" "list_all (\<lambda>x. \<not> is_object x) vs"
  proof (cases vs)
    case (Cons x xs)
    then show ?thesis using that js_string_visible [of x] by (cases xs) (auto simp: join_vals_def)
  qed (use that in simp)
  then show ?thesis using JArr by (auto simp: formatValue_def mdash_def is_object_def)
qed (auto simp: formatValue_def mdash_def)

end
