(* ===== verification/DarkWeb.thy ===== *)
theory DarkWeb
  imports ApiClient Async
begin

text \<open>
  Dark web monitoring, \<open>frontend/src/pages/DarkWeb.tsx\<close>: the on-demand search with its handler cut at the
  \<open>await\<close>, the form and the actions of the monitored assets, the status of findings, and the rendered
  page with the branded names of the sources. The confirmation dialog is an argument.
\<close>

section \<open>State and handlers\<close>

record dw_state =
  entityType :: string
  dw_query :: string
  dw_result :: jsval
  dw_loading :: bool
  addType :: string
  addValue :: string
  dw_flights :: "(string \<times> string) list"

definition init_dw :: dw_state where
  "init_dw = \<lparr>entityType = ''domain'', dw_query = [], dw_result = JNull, dw_loading = False,
     addType = ''domain'', addValue = [], dw_flights = []\<rparr>"

datatype dw_event =
    PickEntity string
  | TypeDwQuery string
  | SubmitSearch
  | SearchLanded nat answer
  | PickAddType string
  | TypeAddValue string
  | SubmitAsset
  | AssetAdded
  | AssetRefused api_error
  | ScanAsset row
  | ScanQueued
  | ScanFailed
  | DeleteAsset row
  | AssetDeleted
  | AssetDeleteFailed
  | PickFindingStatus row string
  | FindingUpdated
  | FindingFailed

definition search_landed :: "answer \<Rightarrow> dw_state \<Rightarrow> dw_state \<times> api_call effect list" where
  "search_landed a s = (case a of
     Answered data \<Rightarrow> (s\<lparr>dw_result := data, dw_loading := False\<rparr>, [])
   | Failed err \<Rightarrow> (s\<lparr>dw_loading := False\<rparr>,
       [ToastErr (JStr (''Search failed '' @ mdash @ '' check dark web provider configuration''))]))"

definition delete_question :: string where
  "delete_question = ''Stop monitoring this asset and delete its findings?''"

fun dw_step :: "(string \<Rightarrow> bool) \<Rightarrow> dw_event \<Rightarrow> dw_state \<Rightarrow> dw_state \<times> api_call effect list" where
  "dw_step confirm (PickEntity t) s = (s\<lparr>entityType := t, dw_result := JNull\<rparr>, [])"
| "dw_step confirm (TypeDwQuery v) s = (s\<lparr>dw_query := v\<rparr>, [])"
| "dw_step confirm SubmitSearch s =
     (if trim (dw_query s) = [] then (s, [])
      else (s\<lparr>dw_loading := True, dw_result := JNull,
              dw_flights := dw_flights s @ [(trim (dw_query s), entityType s)]\<rparr>,
            [Call (IntelCall (DarkwebSearch (trim (dw_query s)) (entityType s)))]))"
| "dw_step confirm (SearchLanded i a) s =
     (if i < length (dw_flights s)
      then search_landed a (s\<lparr>dw_flights := drop_nth i (dw_flights s)\<rparr>) else (s, []))"
| "dw_step confirm (PickAddType t) s = (s\<lparr>addType := t\<rparr>, [])"
| "dw_step confirm (TypeAddValue v) s = (s\<lparr>addValue := v\<rparr>, [])"
| "dw_step confirm SubmitAsset s =
     (s, if trim (addValue s) = [] then []
         else [Call (IntelCall (DarkwebCreateAsset
                (JObj [(''value'', JStr (trim (addValue s))), (''entity_type'', JStr (addType s))])))])"
| "dw_step confirm AssetAdded s =
     (s\<lparr>addValue := []\<rparr>, [ToastOk (''Now monitoring '' @ mdash @ '' first scan queued''), Invalidate [JStr ''darkweb-assets'']])"
| "dw_step confirm (AssetRefused e) s = (s, [ToastErr (jor (err_detail e) (JStr ''Could not add asset''))])"
| "dw_step confirm (ScanAsset a) s = (s, [Call (IntelCall (DarkwebScanAsset (row_id a)))])"
| "dw_step confirm ScanQueued s = (s, [ToastOk ''Rescan queued''])"
| "dw_step confirm ScanFailed s = (s, [ToastErr (JStr ''Could not queue scan'')])"
| "dw_step confirm (DeleteAsset a) s =
     (s, if confirm delete_question then [Call (IntelCall (DarkwebDeleteAsset (row_id a)))] else [])"
| "dw_step confirm AssetDeleted s =
     (s, [Invalidate [JStr ''darkweb-assets''], Invalidate [JStr ''darkweb-findings'']])"
| "dw_step confirm AssetDeleteFailed s = (s, [ToastErr (JStr ''Could not delete asset'')])"
| "dw_step confirm (PickFindingStatus f st) s = (s, [Call (IntelCall (DarkwebUpdateFinding (row_id f) st))])"
| "dw_step confirm FindingUpdated s =
     (s, [Invalidate [JStr ''darkweb-findings''], Invalidate [JStr ''darkweb-stats'']])"
| "dw_step confirm FindingFailed s = (s, [ToastErr (JStr ''Could not update finding'')])"

section \<open>Names\<close>

definition ENTITY_META :: "(string \<times> string \<times> string) list" where
  "ENTITY_META = [(''domain'', ''Company domain'', ''acme.com''), (''email'', ''Email address'', ''ceo@acme.com''),
     (''keyword'', ''Brand / keyword'', ''Acme Corp'')]"

definition FINDING_STATUS :: "(string \<times> string) list" where
  "FINDING_STATUS = [(''new'', ''New''), (''investigating'', ''Investigating''), (''resolved'', ''Resolved''),
     (''false_positive'', ''False positive'')]"

definition SOURCE_LABEL :: "(string \<times> string) list" where
  "SOURCE_LABEL = [(''hibp'', ''Breach Index''), (''intelx'', ''Darkweb Search''), (''dehashed'', ''Credential Leaks''),
     (''leakcheck'', ''Leak Database'')]"

definition sourceLabel :: "string \<Rightarrow> string" where
  "sourceLabel k = (case map_of SOURCE_LABEL k of Some l \<Rightarrow> l | None \<Rightarrow> k)"

definition entity_placeholder :: "string \<Rightarrow> string" where
  "entity_placeholder t = (case map_of ENTITY_META t of Some (l, p) \<Rightarrow> p | None \<Rightarrow> [])"

section \<open>The rendered page\<close>

definition plural :: "nat \<Rightarrow> string" where
  "plural n = (if n = 1 then [] else ''s'')"

definition joined_with :: "string \<Rightarrow> jsval \<Rightarrow> string" where
  "joined_with sep v = join sep (map (\<lambda>x. if nullish x then [] else js_string x) (as_list v))"

definition search_finding :: "row \<Rightarrow> dw_event ui" where
  "search_finding f = Box
     ([Val (fld f ''severity''), Val (fld f ''title''), Txt (sourceLabel (js_string (fld f ''source'')))] @
      shown (truthy (fld f ''description'')) [Val (fld f ''description'')] @
      map Val (as_list (fld f ''exposed_data'')))"

definition SearchResults :: "row \<Rightarrow> dw_event ui list" where
  "SearchResults r =
     (let findings = map as_row (as_list (fld r ''findings'')); skipped = as_list (fld r ''skipped'');
          errors = as_row (fld r ''errors''); n = length findings; m = length (as_list (fld r ''sources''));
          latest = opt_fld (fld r ''summary'') ''latest_leak'' in
      [Txt (nat_dec n @ '' exposure'' @ plural n @ '' found''),
       Txt (''across '' @ nat_dec m @ '' source'' @ plural m @
            (if truthy latest then '' '' @ middot @ '' latest '' @ js_string latest else []))] @
      shown (n = 0) [Txt (''No exposures surfaced by the configured sources. This is not proof of safety '' @ mdash @
        '' coverage depends on which providers are enabled.'')] @
      map search_finding findings @
      shown (skipped \<noteq> []) [Txt (''Not checked: '' @ joined_with '', '' (fld r ''skipped''))] @
      map (\<lambda>(src, msg). Txt (sourceLabel src @ '': '' @ js_string msg)) errors)"

definition asset_line :: "row \<Rightarrow> dw_event ui" where
  "asset_line a = Box
     [Val (fld a ''value''), Val (fld a ''entity_type''), Val (fld a ''finding_count''),
      (if js_positive (fld a ''new_count'') then Val (fld a ''new_count'') else Txt mdash),
      (if truthy (fld a ''last_scanned_at'') then Val (fld a ''last_scanned_at'')
       else Txt (''Pending first scan'' @ ellipsis)),
      Btn ''Rescan now'' False (ScanAsset a), Btn ''Stop monitoring'' False (DeleteAsset a)]"

definition finding_line :: "row \<Rightarrow> dw_event ui" where
  "finding_line f = Box
     ([Val (fld f ''severity''), Val (fld f ''title'')] @
      shown (as_list (fld f ''exposed_data'') \<noteq> [])
        [Txt (joined_with ('' '' @ middot @ '' '') (fld f ''exposed_data''))] @
      [Txt (sourceLabel (js_string (fld f ''source''))), Val (fld f ''entity_value''),
       Val (jor (fld f ''leak_date'') (JStr mdash)),
       Select (js_string (fld f ''status'')) FINDING_STATUS (PickFindingStatus f)])"

definition stat_tiles :: "jsval \<Rightarrow> (string \<times> jsval) list" where
  "stat_tiles stats =
     (let sev = jor (opt_fld stats ''by_severity'') (JObj []) in
      [(''Monitored assets'', jcoalesce (opt_fld stats ''monitored_assets'') (JNum 0)),
       (''Total exposures'', jcoalesce (opt_fld stats ''total_findings'') (JNum 0)),
       (''Critical / high'', JNum (num_or_0 (opt_fld sev ''critical'') + num_or_0 (opt_fld sev ''high''))),
       (''New / untriaged'', jcoalesce (opt_fld (opt_fld stats ''by_status'') ''new'') (JNum 0))])"

definition dw_view :: "jsval \<Rightarrow> row list \<Rightarrow> row list \<Rightarrow> dw_state \<Rightarrow> dw_event ui list" where
  "dw_view stats assets findings s =
     [Txt ''Dark Web Monitoring'', Txt ''Leaked accounts & enterprise exposure across breach and dark web sources''] @
     map (\<lambda>(l, v). Box [Val v, Txt l]) (stat_tiles stats) @
     [Txt ''Dark web search''] @
     map (\<lambda>(t, l, p). Btn l False (PickEntity t)) ENTITY_META @
     [Form SubmitSearch
        [Field (entity_placeholder (entityType s)) (dw_query s) True TypeDwQuery,
         Submit (if dw_loading s then ''Searching'' @ ellipsis else ''Search'') (dw_loading s)]] @
     shown (truthy (dw_result s)) (SearchResults (as_row (dw_result s))) @
     [Txt ''Monitored assets'',
      Form SubmitAsset
        [Select (addType s) [(''domain'', ''Domain''), (''email'', ''Email''), (''keyword'', ''Keyword'')] PickAddType,
         Field (entity_placeholder (addType s)) (addValue s) False TypeAddValue, Submit ''Monitor'' False]] @
     (if assets = []
      then [Txt ''No monitored assets yet. Add a domain, email, or brand keyword to track exposures continuously.'']
      else map Txt [''Asset'', ''Type'', ''Exposures'', ''New'', ''Last scanned''] @ map asset_line assets) @
     [Txt ''Exposure findings''] @
     (if findings = []
      then [Txt ''No exposures recorded yet. Findings from monitored-asset scans appear here.'']
      else map Txt [''Severity'', ''Exposure'', ''Source'', ''Asset'', ''Leak date'', ''Status''] @ map finding_line findings)"

text \<open>Clicks the page offers over its lists, the options of its select boxes, typing and answers.\<close>

definition dw_allowed :: "row list \<Rightarrow> row list \<Rightarrow> dw_event \<Rightarrow> dw_state \<Rightarrow> bool" where
  "dw_allowed assets findings e s = (case e of
     PickAddType t \<Rightarrow> t \<in> {''domain'', ''email'', ''keyword''}
   | PickFindingStatus f st \<Rightarrow> f \<in> set findings \<and> st \<in> set (map fst FINDING_STATUS)
   | SearchLanded i a \<Rightarrow> i < length (dw_flights s)
   | PickEntity t \<Rightarrow> e \<in> set (page_clicks (dw_view JUndef assets findings s))
   | SubmitSearch \<Rightarrow> e \<in> set (page_clicks (dw_view JUndef assets findings s))
   | SubmitAsset \<Rightarrow> e \<in> set (page_clicks (dw_view JUndef assets findings s))
   | ScanAsset a \<Rightarrow> e \<in> set (page_clicks (dw_view JUndef assets findings s))
   | DeleteAsset a \<Rightarrow> e \<in> set (page_clicks (dw_view JUndef assets findings s))
   | _ \<Rightarrow> True)"

text \<open>The lists the queries hold can differ at every event: they come with it.\<close>

type_synonym dw_occurrence = "row list \<times> row list \<times> dw_event"

definition dw_ok :: "dw_occurrence \<Rightarrow> dw_state \<Rightarrow> bool" where
  "dw_ok ce s \<longleftrightarrow> dw_allowed (fst ce) (fst (snd ce)) (snd (snd ce)) s"

abbreviation dw_next :: "(string \<Rightarrow> bool) \<Rightarrow> dw_occurrence \<Rightarrow> dw_state \<Rightarrow> dw_state" where
  "dw_next confirm ce s \<equiv> fst (dw_step confirm (snd (snd ce)) s)"

abbreviation dw_reach :: "(string \<Rightarrow> bool) \<Rightarrow> dw_state \<Rightarrow> bool" where
  "dw_reach confirm \<equiv> reach (\<lambda>s. s = init_dw) dw_ok (dw_next confirm)"

section \<open>What the page offers\<close>

lemma clicks_search_results [simp]: "page_clicks (SearchResults r) = []"
proof -
  have "page_clicks (map (search_finding \<circ> g) fs) = []" for g :: "jsval \<Rightarrow> row" and fs
    by (induction fs) (simp_all add: search_finding_def)
  moreover have "page_clicks (map (\<lambda>(src, msg). Txt (sourceLabel src @ '': '' @ js_string msg) :: dw_event ui) es) = []" for es
    by (induction es) auto
  ultimately show ?thesis by (simp add: SearchResults_def Let_def)
qed

lemma clicks_dw: "e \<in> set (page_clicks (dw_view stats assets findings s)) \<longleftrightarrow>
    (\<exists>t \<in> set (map fst ENTITY_META). e = PickEntity t) \<or>
    e = SubmitSearch \<and> \<not> dw_loading s \<and> dw_query s \<noteq> [] \<or> e = SubmitAsset \<or>
    (\<exists>a \<in> set assets. e = ScanAsset a \<or> e = DeleteAsset a)"
proof -
  have "page_clicks (map (\<lambda>(l, v). Box [Val v, Txt l] :: dw_event ui) xs) = []" for xs
    by (induction xs) auto
  moreover have "page_clicks (map finding_line fs) = []" for fs
    by (induction fs) (simp_all add: finding_line_def)
  moreover have "e \<in> set (page_clicks (map asset_line xs)) \<longleftrightarrow> (\<exists>a \<in> set xs. e = ScanAsset a \<or> e = DeleteAsset a)" for xs
    by (induction xs) (auto simp: asset_line_def)
  ultimately show ?thesis
    by (auto simp: dw_view_def page_clicks_map submittable_def simp del: map_append) force+
qed

definition dw_launches :: "dw_occurrence \<Rightarrow> dw_state \<Rightarrow> bool" where
  "dw_launches ce s \<longleftrightarrow> snd (snd ce) = SubmitSearch \<and> trim (dw_query s) \<noteq> []"

definition dw_lands :: "dw_occurrence \<Rightarrow> bool" where
  "dw_lands ce \<longleftrightarrow> (\<exists>i a. snd (snd ce) = SearchLanded i a)"

lemma search_landed_frame [simp]:
  "dw_loading (fst (search_landed a s)) = False" "dw_flights (fst (search_landed a s)) = dw_flights s"
  "entityType (fst (search_landed a s)) = entityType s" "addType (fst (search_landed a s)) = addType s"
  "calls_of (snd (search_landed a s)) = []"
  by (cases a; simp add: search_landed_def)+

lemma dw_event_cases:
  obtains (search) "e = SubmitSearch" | (landed) i a where "e = SearchLanded i a"
    | (other) "e \<noteq> SubmitSearch" "\<And>i a. e \<noteq> SearchLanded i a"
  by (cases e) auto

lemma dw_other_frame:
  assumes "e \<noteq> SubmitSearch" "\<And>i a. e \<noteq> SearchLanded i a"
  shows "dw_loading (fst (dw_step confirm e s)) = dw_loading s" "dw_flights (fst (dw_step confirm e s)) = dw_flights s"
    "dw_result (fst (dw_step confirm e s)) = dw_result s \<or> dw_result (fst (dw_step confirm e s)) = JNull"
  using assms by (cases e; simp)+

interpretation darkweb: search_form "\<lambda>s. s = init_dw" dw_ok "dw_next confirm" dw_loading
  "\<lambda>s. length (dw_flights s)" dw_launches dw_lands dw_result for confirm :: "string \<Rightarrow> bool"
proof unfold_locales
  fix ce :: dw_occurrence and s :: dw_state
  assume "dw_ok ce s"
  then have a: "dw_allowed (fst ce) (fst (snd ce)) (snd (snd ce)) s" by (simp add: dw_ok_def)
  show "dw_launches ce s \<Longrightarrow> \<not> dw_loading s \<and> dw_loading (dw_next confirm ce s) \<and>
      length (dw_flights (dw_next confirm ce s)) = Suc (length (dw_flights s))"
    using a by (auto simp: dw_launches_def dw_allowed_def clicks_dw)
  show "dw_lands ce \<Longrightarrow> \<not> dw_loading (dw_next confirm ce s) \<and>
      Suc (length (dw_flights (dw_next confirm ce s))) = length (dw_flights s)"
    using a by (auto simp: dw_lands_def dw_allowed_def length_drop_nth)
  show "\<not> dw_launches ce s \<Longrightarrow> \<not> dw_lands ce \<Longrightarrow> dw_loading (dw_next confirm ce s) = dw_loading s \<and>
      length (dw_flights (dw_next confirm ce s)) = length (dw_flights s)"
    by (cases "snd (snd ce)" rule: dw_event_cases) (auto simp: dw_launches_def dw_lands_def dw_other_frame)
  show "dw_launches ce s \<Longrightarrow> dw_result (dw_next confirm ce s) = JNull" by (auto simp: dw_launches_def)
  show "\<not> dw_launches ce s \<Longrightarrow> \<not> dw_lands ce \<Longrightarrow>
      dw_result (dw_next confirm ce s) = dw_result s \<or> dw_result (dw_next confirm ce s) = JNull"
    by (cases "snd (snd ce)" rule: dw_event_cases) (auto simp: dw_launches_def dw_lands_def dw_other_frame)
qed (simp_all add: init_dw_def)

lemma known_entities:
  "dw_reach confirm s \<Longrightarrow> entityType s \<in> set (map fst ENTITY_META) \<and> addType s \<in> set (map fst ENTITY_META)"
proof (erule reach_invariant)
  show "s = init_dw \<Longrightarrow> entityType s \<in> set (map fst ENTITY_META) \<and> addType s \<in> set (map fst ENTITY_META)" for s
    by (simp add: init_dw_def ENTITY_META_def)
  fix ce and s :: dw_state
  assume "entityType s \<in> set (map fst ENTITY_META) \<and> addType s \<in> set (map fst ENTITY_META)" "dw_ok ce s"
  then show "entityType (dw_next confirm ce s) \<in> set (map fst ENTITY_META) \<and>
      addType (dw_next confirm ce s) \<in> set (map fst ENTITY_META)"
    by (cases "snd (snd ce)") (auto simp: dw_ok_def dw_allowed_def clicks_dw ENTITY_META_def)
qed

section \<open>Properties\<close>

text \<open>C28. Every request of the page is one the user asked for in full: a search for trimmed, non-blank text of
  a known type, and only while none runs; a new asset with trimmed, non-blank text of a known type; a
  rescan or, once confirmed, the removal of a listed asset; a known status for a listed finding. While
  a search runs no result is shown.\<close>

theorem darkweb_calls_guarded:
  assumes "dw_reach confirm s" "dw_allowed assets findings e s" "IntelCall c \<in> set (calls_of (snd (dw_step confirm e s)))"
  shows "((c = DarkwebSearch (trim (dw_query s)) (entityType s) \<and> trim (dw_query s) \<noteq> [] \<and> dw_flights s = [] \<and>
        entityType s \<in> {''domain'', ''email'', ''keyword''}) \<or>
      (c = DarkwebCreateAsset (JObj [(''value'', JStr (trim (addValue s))), (''entity_type'', JStr (addType s))]) \<and>
        trim (addValue s) \<noteq> [] \<and> addType s \<in> {''domain'', ''email'', ''keyword''}) \<or>
      (\<exists>a \<in> set assets. c = DarkwebScanAsset (row_id a) \<or> c = DarkwebDeleteAsset (row_id a) \<and> confirm delete_question) \<or>
      (\<exists>f \<in> set findings. \<exists>st \<in> set (map fst FINDING_STATUS). c = DarkwebUpdateFinding (row_id f) st)) \<and>
    (dw_flights s \<noteq> [] \<longrightarrow> dw_result s = JNull)"
proof -
  have busy: "dw_flights s \<noteq> [] \<longleftrightarrow> dw_loading s"
    using darkweb.flag_exact [OF assms(1)] by (cases "dw_flights s") (auto split: if_splits)
  have known: "entityType s \<in> {''domain'', ''email'', ''keyword''}" "addType s \<in> {''domain'', ''email'', ''keyword''}"
    using known_entities [OF assms(1)] by (auto simp: ENTITY_META_def)
  have "dw_flights s \<noteq> [] \<longrightarrow> dw_result s = JNull"
    using darkweb.nothing_shown_while_busy [OF assms(1)] busy by simp
  then show ?thesis using assms(2,3) busy known
    by (cases e) (auto simp: dw_allowed_def clicks_dw split: if_splits)
qed

theorem darkweb_calls_guarded_witness:
  "\<exists>a \<in> set [[(''id'', JStr ''x'')]]. DarkwebDeleteAsset ''x'' = DarkwebDeleteAsset (row_id a)"
proof -
  have "dw_reach (\<lambda>q. True) init_dw" by (rule reach_start) simp
  moreover have "dw_allowed [[(''id'', JStr ''x'')]] [] (DeleteAsset [(''id'', JStr ''x'')]) init_dw"
    by (simp add: dw_allowed_def clicks_dw)
  ultimately show ?thesis
    using darkweb_calls_guarded [of "\<lambda>q. True" init_dw "[[(''id'', JStr ''x'')]]" "[]" "DeleteAsset [(''id'', JStr ''x'')]" "DarkwebDeleteAsset ''x''"]
    by (simp add: row_id_def)
qed

text \<open>Branded names cover the findings but not the list of skipped sources: each of the four providers
  appears in the findings under a label that contains no provider's own name, whereas a skipped
  source's text, with the provider's name in it, is shown as the server sent it.\<close>

theorem skipped_sources_unbranded:
  assumes "k \<in> set (map fst SOURCE_LABEL)" "JStr t \<in> set (as_list (fld r ''skipped''))" "str_includes t k"
  shows "list_all (\<lambda>k'. \<not> str_includes (to_lower (sourceLabel k)) k') (map fst SOURCE_LABEL) \<and>
    list_ex (\<lambda>x. str_includes x k) (page_texts (SearchResults r))"
proof -
  have "list_all (\<lambda>k. list_all (\<lambda>k'. \<not> str_includes (to_lower (sourceLabel k)) k') (map fst SOURCE_LABEL)) (map fst SOURCE_LABEL)"
    by code_simp
  then have branded: "list_all (\<lambda>k'. \<not> str_includes (to_lower (sourceLabel k)) k') (map fst SOURCE_LABEL)"
    using assms(1) unfolding list_all_iff by blast
  obtain xs ys where l: "as_list (fld r ''skipped'') = xs @ JStr t # ys" using assms(2) by (meson split_list)
  have "joined_with '', '' (fld r ''skipped'') =
      join '', '' (map (\<lambda>x. if nullish x then [] else js_string x) xs @ t # map (\<lambda>x. if nullish x then [] else js_string x) ys)"
    by (simp add: joined_with_def l)
  then have "str_includes (joined_with '', '' (fld r ''skipped'')) t" by (simp only: join_part)
  then have "str_includes (joined_with '', '' (fld r ''skipped'')) k" using assms(3) str_includes_trans by blast
  then have shown_k: "str_includes (''Not checked: '' @ joined_with '', '' (fld r ''skipped'')) k"
    by (rule str_includes_append)
  have "''Not checked: '' @ joined_with '', '' (fld r ''skipped'') \<in> set (page_texts (SearchResults r))"
    by (simp add: SearchResults_def Let_def l)
  with shown_k branded show ?thesis unfolding list_ex_iff by blast
qed

theorem skipped_sources_unbranded_witness:
  "list_ex (\<lambda>x. str_includes x ''hibp'') (page_texts (SearchResults [(''skipped'', JArr [JStr ''hibp (no key)''])]))"
  using skipped_sources_unbranded [of "''hibp''" "''hibp (no key)''" "[(''skipped'', JArr [JStr ''hibp (no key)''])]"]
  by (simp add: SOURCE_LABEL_def)

end
