(* ===== verification/Engine.thy ===== *)
theory Engine
  imports ApiClient Async Json
begin

text \<open>
  Four tabs of the engine page, \<open>frontend/src/pages/SocBlitzEngine.tsx\<close>: testing a log line, normalizing
  it, generating a rule, and running a YARA-L rule, each with its handlers cut at the \<open>await\<close>. The
  parser tab is in \<open>Parsers\<close>. \<open>Number\<close>, whose fractions the integers of this model do not cover, is an
  argument.
\<close>

section \<open>Lists typed as text\<close>

text \<open>\<open>s.split(d).map((x) => x.trim()).filter(Boolean)\<close>\<close>

definition items_of :: "char \<Rightarrow> string \<Rightarrow> string list" where
  "items_of d s = filter (\<lambda>x. x \<noteq> []) (map trim (split_on d s))"

definition comma_list :: "string \<Rightarrow> string list" where
  "comma_list s = items_of (CHR '','') s"

definition sample_lines :: "string \<Rightarrow> string list" where
  "sample_lines s = items_of (CHR 0x0A) s"

lemma trim_spaces: "list_all is_space sp \<Longrightarrow> trim (sp @ x) = trim x"
proof -
  assume "list_all is_space sp"
  then have "dropWhile is_space (sp @ x) = dropWhile is_space x" by (induction sp) simp_all
  then show ?thesis by (simp add: trim_def)
qed

lemma split_join_spaced:
  assumes "d \<notin> set sp" "\<And>x. x \<in> set xs \<Longrightarrow> d \<notin> set x" "d \<notin> set x"
  shows "split_on d (join (d # sp) (x # xs)) = x # map ((@) sp) xs"
  using assms(2,3)
proof (induction xs arbitrary: x)
  case Nil
  then show ?case by (simp add: split_on_no_sep)
next
  case (Cons y ys)
  have "split_on d (sp @ join (d # sp) (y # ys)) = (sp @ y) # map ((@) sp) ys"
  proof -
    have IH: "split_on d (join (d # sp) (y # ys)) = y # map ((@) sp) ys" using Cons by simp
    have "split_on d (pre @ s) = (pre @ hd (split_on d s)) # tl (split_on d s)" if "d \<notin> set pre" for pre s
      using that
    proof (induction pre)
      case Nil
      show ?case by (simp add: list.collapse)
    next
      case (Cons c pre)
      then show ?case by auto
    qed
    from this [OF assms(1)] show ?thesis by (simp only: IH list.sel)
  qed
  then show ?case using Cons.prems by (simp add: split_on_append)
qed

lemma items_of_join:
  assumes "list_all is_space sp" "d \<notin> set sp" "\<And>x. x \<in> set xs \<Longrightarrow> trim x = x \<and> x \<noteq> [] \<and> d \<notin> set x"
  shows "items_of d (join (d # sp) xs) = xs"
proof (cases xs)
  case Nil
  then show ?thesis by (simp add: items_of_def)
next
  case (Cons x ys)
  then have "split_on d (join (d # sp) xs) = x # map ((@) sp) ys"
    using assms by (simp only: Cons, intro split_join_spaced) auto
  moreover have "map trim (map ((@) sp) ys) = ys"
    using assms(1,3) Cons by (simp add: o_def trim_spaces cong: map_cong)
  ultimately show ?thesis using assms(3) Cons by (simp add: items_of_def)
qed

lemma items_of_clean: "x \<in> set (items_of d s) \<Longrightarrow> x \<noteq> [] \<and> trim x = x"
  by (auto simp: items_of_def trim_idem)

section \<open>Shared pieces of the tabs\<close>

definition FieldsTable :: "jsval \<Rightarrow> 'e ui list" where
  "FieldsTable fs =
     (let entries = as_row (jor fs (JObj [])) in
      if entries = [] then [Txt ''No fields extracted.'']
      else map (\<lambda>(k, v). Box [Txt k, Val v]) entries)"

definition alert_box :: "row \<Rightarrow> 'e ui" where
  "alert_box a = Box
     ([Txt (CHR ''L'' # js_string (fld a ''RuleLevel'')), Val (fld a ''RuleID''), Val (fld a ''Description'')] @
      map Val (as_list (fld a ''Groups'')) @ map Val (as_list (fld a ''Techniques'')))"

definition AlertList :: "jsval list \<Rightarrow> 'e ui list" where
  "AlertList alerts =
     (if alerts = [] then [Txt ''No rule matched this line.''] else map (\<lambda>a. alert_box (as_row a)) alerts)"

definition engine_error :: "api_error \<Rightarrow> string \<Rightarrow> jsval" where
  "engine_error e fallback = jor (err_detail e) (JStr fallback)"

lemma page_clicks_quiet: "(\<And>u. u \<in> set us \<Longrightarrow> clicks u = []) \<Longrightarrow> page_clicks us = []"
  by (simp add: page_clicks_def)

lemma clicks_alert_box [simp]: "clicks (alert_box a) = []"
  by (simp add: alert_box_def)

lemma clicks_FieldsTable [simp]: "page_clicks (FieldsTable v) = []"
  by (rule page_clicks_quiet) (auto simp: FieldsTable_def Let_def split: if_splits)

lemma clicks_AlertList [simp]: "page_clicks (AlertList as) = []"
  by (rule page_clicks_quiet) (auto simp: AlertList_def split: if_splits)

section \<open>The test and normalize tabs\<close>

record run_tab =
  et_message :: string
  et_result :: jsval
  et_busy :: bool
  et_flights :: "string list"

definition SSH_SAMPLE :: string where
  "SSH_SAMPLE = ''Oct 12 18:00:01 web-01 sshd[999]: Failed password for invalid user admin from 203.0.113.5 port 22 ssh2''"

definition init_tab :: run_tab where
  "init_tab = \<lparr>et_message = SSH_SAMPLE, et_result = JNull, et_busy = False, et_flights = []\<rparr>"

datatype tab_event =
    TypeMessage string
  | UseSample string
  | RunTab
  | TabLanded nat answer

definition run_landed :: "answer \<Rightarrow> run_tab \<Rightarrow> run_tab \<times> api_call effect list" where
  "run_landed a s = (case a of
     Answered data \<Rightarrow> (s\<lparr>et_result := data, et_busy := False\<rparr>, [])
   | Failed err \<Rightarrow> (s\<lparr>et_busy := False\<rparr>, [ToastErr (engine_error err ''Engine unavailable'')]))"

fun tab_step :: "(string \<Rightarrow> engine_call) \<Rightarrow> tab_event \<Rightarrow> run_tab \<Rightarrow> run_tab \<times> api_call effect list" where
  "tab_step mk (TypeMessage v) s = (s\<lparr>et_message := v\<rparr>, [])"
| "tab_step mk (UseSample v) s = (s\<lparr>et_message := v\<rparr>, [])"
| "tab_step mk RunTab s =
     (s\<lparr>et_busy := True, et_flights := et_flights s @ [et_message s]\<rparr>, [Call (EngineCall (mk (et_message s)))])"
| "tab_step mk (TabLanded i a) s =
     (if i < length (et_flights s) then run_landed a (s\<lparr>et_flights := drop_nth i (et_flights s)\<rparr>) else (s, []))"

definition test_step :: "tab_event \<Rightarrow> run_tab \<Rightarrow> run_tab \<times> api_call effect list" where
  "test_step = tab_step (\<lambda>m. EngineTestLog m None)"

definition normalize_step :: "tab_event \<Rightarrow> run_tab \<Rightarrow> run_tab \<times> api_call effect list" where
  "normalize_step = tab_step (\<lambda>m. EngineNormalize m None)"

definition TestTab :: "run_tab \<Rightarrow> tab_event ui list" where
  "TestTab s =
     [Txt ''Raw log line'', Field [] (et_message s) False TypeMessage, Btn ''Run test'' (et_busy s) RunTab,
      Txt ''Decoded event''] @
     (if \<not> truthy (et_result s) then [Txt ''Run a line to see how the engine decodes and matches it.'']
      else
        [Txt ''program '', Val (jor (opt_fld (opt_fld (et_result s) ''event'') ''program'') (JStr mdash))] @
        FieldsTable (opt_fld (opt_fld (et_result s) ''event'') ''fields'') @
        [Txt (''Matched rules ('' @ nat_dec (length (as_list (opt_fld (et_result s) ''alerts''))) @ '')'')] @
        AlertList (as_list (opt_fld (et_result s) ''alerts'')))"

definition SAMPLES :: "(string \<times> string) list" where
  "SAMPLES =
     [(''SSH failure'', SSH_SAMPLE),
      (''SSH root success'', ''Oct 12 18:06:00 web-01 sshd[800]: Accepted password for root from 10.0.0.5 port 22 ssh2''),
      (''sudo command'', ''Oct 12 18:10:00 web-01 sudo:   alice : TTY=pts/0 ; PWD=/home/alice ; USER=root ; COMMAND=/usr/bin/apt install nmap''),
      (''iptables drop'', ''Oct 12 18:12:00 fw kernel: [UFW BLOCK] IN=eth0 OUT= SRC=198.51.100.7 DST=10.0.0.1 PROTO=TCP SPT=51000 DPT=22'')]"

definition NormalizeTab :: "run_tab \<Rightarrow> tab_event ui list" where
  "NormalizeTab s =
     [Txt ''Raw log line'', Field [] (et_message s) False TypeMessage] @
     map (\<lambda>(l, v). Btn l False (UseSample v)) SAMPLES @
     [Btn ''Normalize to UDM'' (et_busy s) RunTab,
      Txt (''CBN parsers (grok/kv/json) map the raw log onto the Unified Data Model '' @ mdash @
           '' the same normalization Chronicle applies before detection.''),
      Txt ''UDM event''] @
     (if \<not> truthy (et_result s) then [Txt ''Normalize a line to see its UDM record.'']
      else
        [Txt ''event_type'', Val (jor (opt_fld (et_result s) ''event_type'') (JStr ''GENERIC_EVENT''))] @
        shown (as_list (opt_fld (et_result s) ''parsers'') \<noteq> [])
          (Txt ''parsers'' # map Val (as_list (opt_fld (et_result s) ''parsers''))) @
        FieldsTable (opt_fld (et_result s) ''fields''))"

definition tab_allowed :: "(run_tab \<Rightarrow> tab_event ui list) \<Rightarrow> tab_event \<Rightarrow> run_tab \<Rightarrow> bool" where
  "tab_allowed view e s = (case e of
     TypeMessage v \<Rightarrow> True
   | TabLanded i a \<Rightarrow> i < length (et_flights s)
   | _ \<Rightarrow> e \<in> set (page_clicks (view s)))"

lemma clicks_TestTab: "e \<in> set (page_clicks (TestTab s)) \<longleftrightarrow> e = RunTab \<and> \<not> et_busy s"
  by (simp add: TestTab_def)

lemma clicks_NormalizeTab: "e \<in> set (page_clicks (NormalizeTab s)) \<longleftrightarrow>
    e = RunTab \<and> \<not> et_busy s \<or> (\<exists>v \<in> set (map snd SAMPLES). e = UseSample v)"
  by (force simp: NormalizeTab_def page_clicks_map)

definition tab_launches :: "tab_event \<Rightarrow> bool" where
  "tab_launches e \<longleftrightarrow> e = RunTab"

definition tab_lands :: "tab_event \<Rightarrow> bool" where
  "tab_lands e \<longleftrightarrow> (\<exists>i a. e = TabLanded i a)"

lemma run_landed_frame [simp]:
  "et_busy (fst (run_landed a s)) = False" "et_flights (fst (run_landed a s)) = et_flights s"
  "calls_of (snd (run_landed a s)) = []"
  by (cases a; simp add: run_landed_def)+

lemma tab_single_flight:
  assumes "\<And>s. RunTab \<in> set (page_clicks (view s)) \<Longrightarrow> \<not> et_busy s"
  shows "single_flight (\<lambda>s. s = init_tab) (tab_allowed view) (\<lambda>e s. fst (tab_step mk e s)) et_busy
    (\<lambda>s. length (et_flights s)) tab_launches tab_lands"
proof unfold_locales
  fix e and s :: run_tab
  assume a: "tab_allowed view e s"
  show "tab_launches e \<Longrightarrow> \<not> et_busy s \<and> et_busy (fst (tab_step mk e s)) \<and>
      length (et_flights (fst (tab_step mk e s))) = Suc (length (et_flights s))"
    using a assms by (auto simp: tab_launches_def tab_allowed_def)
  show "tab_lands e \<Longrightarrow> \<not> et_busy (fst (tab_step mk e s)) \<and>
      Suc (length (et_flights (fst (tab_step mk e s)))) = length (et_flights s)"
    using a by (auto simp: tab_lands_def tab_allowed_def length_drop_nth)
  show "\<not> tab_launches e \<Longrightarrow> \<not> tab_lands e \<Longrightarrow> et_busy (fst (tab_step mk e s)) = et_busy s \<and>
      length (et_flights (fst (tab_step mk e s))) = length (et_flights s)"
    by (cases e) (simp_all add: tab_launches_def tab_lands_def)
qed (simp_all add: init_tab_def)

interpretation test_tab: single_flight "\<lambda>s. s = init_tab" "tab_allowed TestTab" "\<lambda>e s. fst (test_step e s)" et_busy
  "\<lambda>s. length (et_flights s)" tab_launches tab_lands
  unfolding test_step_def by (rule tab_single_flight) (simp add: clicks_TestTab)

interpretation normalize_tab: single_flight "\<lambda>s. s = init_tab" "tab_allowed NormalizeTab"
  "\<lambda>e s. fst (normalize_step e s)" et_busy "\<lambda>s. length (et_flights s)" tab_launches tab_lands
  unfolding normalize_step_def by (rule tab_single_flight) (simp add: clicks_NormalizeTab)

section \<open>The rule generation tab\<close>

record rulegen =
  rg_form :: row
  rg_sample :: string
  rg_result :: jsval
  rg_busy :: bool
  rg_flights :: "jsval list"
  rg_prefills :: "string list"

definition RULE_FORM :: row where
  "RULE_FORM =
     [(''id'', JStr ''100001''), (''level'', JNum 7), (''description'', JStr ''Custom detection''),
      (''program'', JStr ''sshd''), (''match'', JStr ''Failed password''),
      (''groups'', JStr ''authentication_failed,custom''), (''mitre_techniques'', JStr ''T1110''),
      (''mitre_tactics'', JStr ''Credential Access'')]"

definition init_rulegen :: rulegen where
  "init_rulegen = \<lparr>rg_form = RULE_FORM,
     rg_sample = ''Oct 12 18:00:01 web-01 sshd[999]: Failed password for root from 203.0.113.5 port 22 ssh2'',
     rg_result = JNull, rg_busy = False, rg_flights = [], rg_prefills = []\<rparr>"

datatype rulegen_event =
    EditRule string string
  | TypeRuleSample string
  | Prefill
  | PrefillLanded nat answer
  | TestRule
  | RuleLanded nat answer
  | CopyRule

definition text_list :: "row \<Rightarrow> string \<Rightarrow> jsval" where
  "text_list f k = JArr (map JStr (comma_list (js_string (fld f k))))"

definition rule_of :: "(jsval \<Rightarrow> jsval) \<Rightarrow> row \<Rightarrow> jsval" where
  "rule_of to_number f = JObj
     [(''id'', fld f ''id''), (''level'', jor (to_number (fld f ''level'')) (JNum 0)),
      (''description'', fld f ''description''), (''program'', jor (fld f ''program'') JUndef),
      (''match'', jor (fld f ''match'') JUndef), (''groups'', text_list f ''groups''),
      (''mitre_techniques'', text_list f ''mitre_techniques''), (''mitre_tactics'', text_list f ''mitre_tactics'')]"

definition ruleJSON :: "(jsval \<Rightarrow> jsval) \<Rightarrow> row \<Rightarrow> string" where
  "ruleJSON to_number f = json_pretty 0 (rule_of to_number f)"

text \<open>The continuations; reading a missing body throws into the handler's catch.\<close>

definition prefill_landed :: "answer \<Rightarrow> rulegen \<Rightarrow> rulegen \<times> api_call effect list" where
  "prefill_landed a s = (case a of
     Failed err \<Rightarrow> (s, [ToastErr (JStr ''Could not decode sample'')])
   | Answered data \<Rightarrow>
       if nullish data then (s, [ToastErr (JStr ''Could not decode sample'')])
       else
         let p = opt_fld (opt_fld data ''event'') ''program'' in
         (if truthy p then s\<lparr>rg_form := upd (rg_form s) ''program'' p\<rparr> else s,
          [ToastOk (''Prefilled program \"'' @ js_string (jor p (JStr ''?'')) @ ''\" from sample'')]))"

definition rule_landed :: "answer \<Rightarrow> rulegen \<Rightarrow> rulegen \<times> api_call effect list" where
  "rule_landed a s = (case a of
     Failed err \<Rightarrow> (s\<lparr>rg_busy := False\<rparr>, [ToastErr (engine_error err ''Engine unavailable'')])
   | Answered data \<Rightarrow>
       (s\<lparr>rg_result := data, rg_busy := False\<rparr>,
        if nullish data then [ToastErr (JStr ''Engine unavailable'')]
        else if truthy (opt_fld data ''error'') then [ToastErr (opt_fld data ''error'')]
        else if truthy (opt_fld data ''matched'') then [ToastOk ''Rule matched the sample'']
        else [ToastInfo ''Rule did not match'']))"

fun rulegen_step ::
  "(jsval \<Rightarrow> jsval) \<Rightarrow> rulegen_event \<Rightarrow> rulegen \<Rightarrow> rulegen \<times> api_call effect list" where
  "rulegen_step to_number (EditRule k v) s = (s\<lparr>rg_form := upd (rg_form s) k (JStr v)\<rparr>, [])"
| "rulegen_step to_number (TypeRuleSample v) s = (s\<lparr>rg_sample := v\<rparr>, [])"
| "rulegen_step to_number Prefill s =
     (s\<lparr>rg_prefills := rg_prefills s @ [rg_sample s]\<rparr>, [Call (EngineCall (EngineTestLog (rg_sample s) None))])"
| "rulegen_step to_number (PrefillLanded i a) s =
     (if i < length (rg_prefills s)
      then prefill_landed a (s\<lparr>rg_prefills := drop_nth i (rg_prefills s)\<rparr>) else (s, []))"
| "rulegen_step to_number TestRule s =
     (let r = rule_of to_number (rg_form s) in
      (s\<lparr>rg_busy := True, rg_flights := rg_flights s @ [r]\<rparr>,
       [Call (EngineCall (EngineTestRule r (rg_sample s) None))]))"
| "rulegen_step to_number (RuleLanded i a) s =
     (if i < length (rg_flights s)
      then rule_landed a (s\<lparr>rg_flights := drop_nth i (rg_flights s)\<rparr>) else (s, []))"
| "rulegen_step to_number CopyRule s =
     (s, [CopyText (ruleJSON to_number (rg_form s)), ToastOk ''Rule JSON copied''])"

definition ndash :: string where
  "ndash = [CHR 0xE2, CHR 0x80, CHR 0x93]"

definition rule_field :: "rulegen \<Rightarrow> string \<Rightarrow> string \<Rightarrow> rulegen_event ui list" where
  "rule_field s label k = [Txt label, Field [] (js_string (fld (rg_form s) k)) False (EditRule k)]"

definition RuleGenTab :: "(jsval \<Rightarrow> jsval) \<Rightarrow> rulegen \<Rightarrow> rulegen_event ui list" where
  "RuleGenTab to_number s =
     [Txt ''Rule definition''] @
     rule_field s ''Rule ID'' ''id'' @ rule_field s (''Level (0'' @ ndash @ ''15)'') ''level'' @
     rule_field s ''Description'' ''description'' @ rule_field s ''Program (optional)'' ''program'' @
     rule_field s ''Match regex (optional)'' ''match'' @ rule_field s ''Groups (comma-separated)'' ''groups'' @
     rule_field s ''MITRE techniques'' ''mitre_techniques'' @ rule_field s ''MITRE tactics'' ''mitre_tactics'' @
     [Txt ''Sample log to test against'', Field [] (rg_sample s) False TypeRuleSample,
      Btn ''Test rule'' (rg_busy s) TestRule, Btn ''Prefill from sample'' False Prefill,
      Txt ''Generated rule (JSON)'', Btn ''Copy'' False CopyRule, Txt (ruleJSON to_number (rg_form s)),
      Txt ''Drop this into engine/rules/*.json and restart the engine to make it permanent.''] @
     shown (truthy (rg_result s))
       ([Val (if truthy (opt_fld (rg_result s) ''error'') then opt_fld (rg_result s) ''error''
              else if truthy (opt_fld (rg_result s) ''matched'') then JStr ''Matched the sample'' else JStr ''Did not match'')] @
        shown (truthy (opt_fld (rg_result s) ''alert'')) (AlertList [opt_fld (rg_result s) ''alert'']))"

definition rulegen_allowed :: "(jsval \<Rightarrow> jsval) \<Rightarrow> rulegen_event \<Rightarrow> rulegen \<Rightarrow> bool" where
  "rulegen_allowed to_number e s = (case e of
     EditRule k v \<Rightarrow> k \<in> set (map fst RULE_FORM)
   | TypeRuleSample v \<Rightarrow> True
   | PrefillLanded i a \<Rightarrow> i < length (rg_prefills s)
   | RuleLanded i a \<Rightarrow> i < length (rg_flights s)
   | _ \<Rightarrow> e \<in> set (page_clicks (RuleGenTab to_number s)))"

lemma clicks_RuleGenTab: "e \<in> set (page_clicks (RuleGenTab to_number s)) \<longleftrightarrow>
    e = TestRule \<and> \<not> rg_busy s \<or> e = Prefill \<or> e = CopyRule"
  by (auto simp: RuleGenTab_def rule_field_def)

definition rule_launches :: "rulegen_event \<Rightarrow> bool" where
  "rule_launches e \<longleftrightarrow> e = TestRule"

definition rule_lands :: "rulegen_event \<Rightarrow> bool" where
  "rule_lands e \<longleftrightarrow> (\<exists>i a. e = RuleLanded i a)"

lemma rule_landed_frame [simp]:
  "rg_busy (fst (rule_landed a s)) = False" "rg_flights (fst (rule_landed a s)) = rg_flights s"
  "rg_form (fst (rule_landed a s)) = rg_form s" "calls_of (snd (rule_landed a s)) = []"
  by (cases a; simp add: rule_landed_def)+

lemma prefill_landed_frame [simp]:
  "rg_busy (fst (prefill_landed a s)) = rg_busy s" "rg_flights (fst (prefill_landed a s)) = rg_flights s"
  "calls_of (snd (prefill_landed a s)) = []"
  by (cases a; simp add: prefill_landed_def Let_def)+

interpretation rulegen: single_flight "\<lambda>s. s = init_rulegen" "rulegen_allowed to_number"
  "\<lambda>e s. fst (rulegen_step to_number e s)" rg_busy "\<lambda>s. length (rg_flights s)" rule_launches rule_lands
  for to_number :: "jsval \<Rightarrow> jsval"
proof unfold_locales
  fix e and s :: rulegen
  assume a: "rulegen_allowed to_number e s"
  show "rule_launches e \<Longrightarrow> \<not> rg_busy s \<and> rg_busy (fst (rulegen_step to_number e s)) \<and>
      length (rg_flights (fst (rulegen_step to_number e s))) = Suc (length (rg_flights s))"
    using a by (auto simp: rule_launches_def rulegen_allowed_def clicks_RuleGenTab Let_def)
  show "rule_lands e \<Longrightarrow> \<not> rg_busy (fst (rulegen_step to_number e s)) \<and>
      Suc (length (rg_flights (fst (rulegen_step to_number e s)))) = length (rg_flights s)"
    using a by (auto simp: rule_lands_def rulegen_allowed_def length_drop_nth)
  show "\<not> rule_launches e \<Longrightarrow> \<not> rule_lands e \<Longrightarrow> rg_busy (fst (rulegen_step to_number e s)) = rg_busy s \<and>
      length (rg_flights (fst (rulegen_step to_number e s))) = length (rg_flights s)"
    by (cases e) (simp_all add: rule_launches_def rule_lands_def)
qed (simp_all add: init_rulegen_def)

section \<open>Properties\<close>

lemma squeeze_whole: "squeeze (json_pretty 0 v) = json v"
  using squeeze_pretty [of 0 v "[]"] by simp

text \<open>C11. The rule that is copied is the rule that is tested: the text the copy button puts on the clipboard is the text
  shown on the page, and apart from the layout white space outside its strings it is the JSON of the
  rule the test button sends to the engine, with the sample of the form. A list typed with commas,
  blanks after them or not, arrives as the list of its items.\<close>

theorem rule_copied_is_tested:
  assumes "\<And>x. x \<in> set xs \<Longrightarrow> trim x = x \<and> x \<noteq> [] \<and> CHR '','' \<notin> set x"
    and "list_all is_space pad" "k \<in> {''groups'', ''mitre_techniques'', ''mitre_tactics''}"
    and "s' = fst (rulegen_step to_number (EditRule k (join (CHR '','' # pad) xs)) s)"
  shows "\<exists>t r. snd (rulegen_step to_number CopyRule s') = [CopyText t, ToastOk ''Rule JSON copied''] \<and>
    calls_of (snd (rulegen_step to_number TestRule s')) =
      [EngineCall (EngineTestRule r (rg_sample s) None)] \<and>
    squeeze t = json r \<and> t \<in> set (page_texts (RuleGenTab to_number s')) \<and>
    opt_fld r k = JArr (map JStr xs) \<and>
    opt_fld r ''level'' = jor (to_number (fld (rg_form s) ''level'')) (JNum 0)"
proof -
  have "\<not> is_space (CHR '','')" by (simp add: is_space_def)
  then have "CHR '','' \<notin> set pad" using assms(2) by (auto simp only: list_all_iff)
  then have items: "comma_list (join (CHR '','' # pad) xs) = xs"
    using items_of_join [OF assms(2) _ assms(1)] by (simp add: comma_list_def)
  define r where "r = rule_of to_number (rg_form s')"
  have form: "rg_form s' = upd (rg_form s) k (JStr (join (CHR '','' # pad) xs))" "rg_sample s' = rg_sample s"
    by (simp_all add: assms(4))
  have k: "opt_fld r k = JArr (map JStr xs)"
    using assms(3) items by (elim insertE) (simp_all add: r_def form rule_of_def text_list_def)
  have level: "opt_fld r ''level'' = jor (to_number (fld (rg_form s) ''level'')) (JNum 0)"
    using assms(3) by (elim insertE) (simp_all add: r_def form rule_of_def)
  have shown: "ruleJSON to_number (rg_form s') \<in> set (page_texts (RuleGenTab to_number s'))"
    by (simp only: RuleGenTab_def page_texts_simps texts.simps(1) set_append list.set append_Nil) blast
  have tested: "calls_of (snd (rulegen_step to_number TestRule s')) = [EngineCall (EngineTestRule r (rg_sample s) None)]"
    by (simp add: r_def form(2) Let_def)
  show ?thesis
    by (rule exI [of _ "ruleJSON to_number (rg_form s')"], rule exI [of _ r])
      (simp add: k level shown tested ruleJSON_def [symmetric] del: rulegen_step.simps(5), simp add: ruleJSON_def r_def squeeze_whole)
qed

theorem rule_copied_is_tested_witness:
  "opt_fld (rule_of (\<lambda>v. v) (upd RULE_FORM ''groups'' (JStr ''a, b''))) ''groups'' = JArr [JStr ''a'', JStr ''b'']"
proof -
  have a: "x \<in> set [''a'', ''b''] \<Longrightarrow> trim x = x \<and> x \<noteq> [] \<and> CHR '','' \<notin> set x" for x
    by (auto simp: trim_def is_space_def)
  have b: "list_all is_space '' ''" "''groups'' \<in> {''groups'', ''mitre_techniques'', ''mitre_tactics''}"
    by (simp_all add: is_space_def)
  show ?thesis
    using rule_copied_is_tested [of "[''a'', ''b'']" "'' ''" "''groups''", OF a b refl, of "\<lambda>v. v" init_rulegen]
    by (auto simp: init_rulegen_def Let_def)
qed

text \<open>Each of the three runs of the engine page is sent once at a time: on every reachable test, normalize and
  rule tab the number of runs that wait for the engine is one when the tab is busy and none
  otherwise, so that the run button is offered exactly while none waits, and the run of a
  tab takes the text of its own field.\<close>

theorem engine_runs_guarded:
  assumes "reach (\<lambda>s. s = init_tab) (tab_allowed TestTab) (\<lambda>e s. fst (test_step e s)) t"
    and "reach (\<lambda>s. s = init_tab) (tab_allowed NormalizeTab) (\<lambda>e s. fst (normalize_step e s)) n"
    and "reach (\<lambda>s. s = init_rulegen) (rulegen_allowed to_number) (\<lambda>e s. fst (rulegen_step to_number e s)) g"
  shows "length (et_flights t) \<le> 1 \<and> (RunTab \<in> set (page_clicks (TestTab t)) \<longleftrightarrow> et_flights t = []) \<and>
    length (et_flights n) \<le> 1 \<and> (RunTab \<in> set (page_clicks (NormalizeTab n)) \<longleftrightarrow> et_flights n = []) \<and>
    length (rg_flights g) \<le> 1 \<and> (TestRule \<in> set (page_clicks (RuleGenTab to_number g)) \<longleftrightarrow> rg_flights g = []) \<and>
    calls_of (snd (test_step RunTab t)) = [EngineCall (EngineTestLog (et_message t) None)] \<and>
    calls_of (snd (normalize_step RunTab n)) = [EngineCall (EngineNormalize (et_message n) None)]"
  using test_tab.flag_exact [OF assms(1)] normalize_tab.flag_exact [OF assms(2)] rulegen.flag_exact [OF assms(3)]
  by (auto simp: clicks_TestTab clicks_NormalizeTab clicks_RuleGenTab test_step_def normalize_step_def SAMPLES_def
      split: if_splits)

theorem engine_runs_guarded_witness:
  "length (et_flights (fst (test_step RunTab init_tab))) \<le> 1 \<and>
   RunTab \<notin> set (page_clicks (TestTab (fst (test_step RunTab init_tab))))"
proof -
  have r: "reach (\<lambda>s. s = init_tab) (tab_allowed TestTab) (\<lambda>e s. fst (test_step e s)) (fst (test_step RunTab init_tab))"
    by (rule reach_step, rule reach_start) (simp_all add: tab_allowed_def clicks_TestTab init_tab_def)
  have n: "reach (\<lambda>s. s = init_tab) (tab_allowed NormalizeTab) (\<lambda>e s. fst (normalize_step e s)) init_tab"
    by (rule reach_start) simp
  have g: "reach (\<lambda>s. s = init_rulegen) (rulegen_allowed (\<lambda>v. v)) (\<lambda>e s. fst (rulegen_step (\<lambda>v. v) e s)) init_rulegen"
    by (rule reach_start) simp
  show ?thesis using engine_runs_guarded [OF r n g] by (auto simp: test_step_def)
qed

end
