(* ===== verification/YaraL.thy ===== *)
theory YaraL
  imports Engine
begin

text \<open>
  The YARA-L tab of the engine page, \<open>YaraLTab\<close> of \<open>frontend/src/pages/SocBlitzEngine.tsx\<close>: a rule and
  sample lines as text, the run of the rule over the lines, and the generation of a rule from the first
  line. The two handlers have a busy flag each, and the generation starts no call without a line.
  The list of active rules is a query of the page and an argument of the view.
\<close>

section \<open>State and handlers\<close>

record yaral =
  yl_rule :: string
  yl_lines :: string
  yl_result :: jsval
  yl_busy :: bool
  yl_genBusy :: bool
  yl_runs :: "(string \<times> string list) list"
  yl_gens :: "string list"

definition newline :: string where
  "newline = [CHR 0x0A]"

definition DEFAULT_YARAL :: string where
  "DEFAULT_YARAL = join newline
     [''rule ssh_brute_force {'',
      ''  meta:'',
      ''    author = \"socblitz\"'',
      ''    description = \"SSH brute force: 5+ failed logins from one source in 5m\"'',
      ''    severity = \"HIGH\"'',
      ''    tactic = \"credential_access\"'',
      ''    technique = \"T1110\"'',
      ''  events:'',
      ''    $e.metadata.event_type = \"USER_LOGIN\"'',
      ''    $e.security_result.action = \"BLOCK\"'',
      ''    $e.principal.ip = $srcip'',
      ''  match:'',
      ''    $srcip over 5m'',
      ''  condition:'',
      ''    #e >= 5'',
      ''}'']"

definition DEFAULT_YARAL_LINES :: string where
  "DEFAULT_YARAL_LINES = join newline
     (map (\<lambda>i. ''Oct 12 18:00:0'' @ nat_dec i @ '' web-01 sshd[70'' @ nat_dec i @
        '']: Failed password for root from 45.155.205.99 port 22 ssh2'') [0..<5])"

definition init_yaral :: yaral where
  "init_yaral = \<lparr>yl_rule = DEFAULT_YARAL, yl_lines = DEFAULT_YARAL_LINES, yl_result = JNull,
     yl_busy = False, yl_genBusy = False, yl_runs = [], yl_gens = []\<rparr>"

datatype yaral_event =
    TypeRule string
  | TypeLines string
  | GenerateRule
  | RuleGenerated nat answer
  | RunDetection
  | DetectionLanded nat answer

text \<open>The continuations; reading a missing body, or the length of a missing alert list, throws.\<close>

definition generated_landed :: "answer \<Rightarrow> yaral \<Rightarrow> yaral \<times> api_call effect list" where
  "generated_landed a s = (case a of
     Failed err \<Rightarrow> (s\<lparr>yl_genBusy := False\<rparr>, [ToastErr (engine_error err ''Generation failed'')])
   | Answered data \<Rightarrow>
       if nullish data then (s\<lparr>yl_genBusy := False\<rparr>, [ToastErr (JStr ''Generation failed'')])
       else (s\<lparr>yl_rule := js_string (jor (opt_fld data ''rule'') (JStr [])), yl_genBusy := False\<rparr>,
         [ToastOk (''Rule generated ('' @ js_string (opt_fld data ''source'') @ '') for '' @
            js_string (opt_fld data ''event_type''))]))"

definition detection_landed :: "answer \<Rightarrow> yaral \<Rightarrow> yaral \<times> api_call effect list" where
  "detection_landed a s = (case a of
     Failed err \<Rightarrow> (s\<lparr>yl_busy := False\<rparr>, [ToastErr (engine_error err ''Engine unavailable'')])
   | Answered data \<Rightarrow>
       (s\<lparr>yl_result := data, yl_busy := False\<rparr>,
        if nullish data then [ToastErr (JStr ''Engine unavailable'')]
        else if truthy (opt_fld data ''error'') then [ToastErr (opt_fld data ''error'')]
        else if truthy (opt_fld data ''matched'') then
          (if nullish (opt_fld data ''alerts'') then [ToastErr (JStr ''Engine unavailable'')]
           else [ToastOk (nat_dec (length (as_list (opt_fld data ''alerts''))) @ '' detection(s) fired'')])
        else [ToastInfo ''No detection fired'']))"

fun yaral_step :: "yaral_event \<Rightarrow> yaral \<Rightarrow> yaral \<times> api_call effect list" where
  "yaral_step (TypeRule v) s = (s\<lparr>yl_rule := v\<rparr>, [])"
| "yaral_step (TypeLines v) s = (s\<lparr>yl_lines := v\<rparr>, [])"
| "yaral_step GenerateRule s =
     (case sample_lines (yl_lines s) of
        [] \<Rightarrow> (s, [ToastErr (JStr ''Add a sample log line to generate from'')])
      | first # _ \<Rightarrow>
          (s\<lparr>yl_genBusy := True, yl_gens := yl_gens s @ [first]\<rparr>,
           [Call (EngineCall (EngineGenerateYaraL first None))]))"
| "yaral_step (RuleGenerated i a) s =
     (if i < length (yl_gens s)
      then generated_landed a (s\<lparr>yl_gens := drop_nth i (yl_gens s)\<rparr>) else (s, []))"
| "yaral_step RunDetection s =
     (let messages = sample_lines (yl_lines s) in
      (s\<lparr>yl_busy := True, yl_runs := yl_runs s @ [(yl_rule s, messages)]\<rparr>,
       [Call (EngineCall (EngineTestYaraL (yl_rule s) messages None))]))"
| "yaral_step (DetectionLanded i a) s =
     (if i < length (yl_runs s)
      then detection_landed a (s\<lparr>yl_runs := drop_nth i (yl_runs s)\<rparr>) else (s, []))"

section \<open>The rendered tab\<close>

definition times_sign :: string where
  "times_sign = [CHR 0xC3, CHR 0x97]"

text \<open>\<open>(vs || []).join(', ')\<close>\<close>

definition comma_join :: "jsval \<Rightarrow> string" where
  "comma_join vs = join '', '' (map (\<lambda>v. if nullish v then [] else js_string v) (as_list vs))"

definition rule_summary :: "jsval \<Rightarrow> 'e ui list" where
  "rule_summary summary =
     shown (truthy summary)
       ([Txt (if truthy (opt_fld summary ''windowed'') then ''windowed'' else ''single-event'')] @
        shown (truthy (opt_fld summary ''windowed''))
          [Val (opt_fld summary ''threshold''), Txt (times_sign @ '' over ''), Val (opt_fld summary ''window''),
           Txt '' by '', Txt (comma_join (opt_fld summary ''group_by''))] @
        map Val (as_list (opt_fld summary ''techniques'')))"

definition active_rule :: "row \<Rightarrow> 'e ui" where
  "active_rule r = Box
     ([Txt (CHR ''L'' # js_string (fld r ''level'')), Val (fld r ''id'')] @
      shown (fld r ''format'' = JStr ''yara-l:windowed'') [Txt ''windowed''] @
      [Val (fld r ''description'')])"

definition detection_result :: "jsval \<Rightarrow> 'e ui list" where
  "detection_result r =
     rule_summary (opt_fld r ''rule'') @
     (if \<not> truthy r then [Txt ''Run the rule to see which events it fires on.'']
      else if truthy (opt_fld r ''error'') then [Val (opt_fld r ''error'')]
      else
        [Txt (nat_dec (length (as_list (opt_fld r ''events''))) @ '' events evaluated '' @ middot @ '' '' @
              nat_dec (length (as_list (opt_fld r ''alerts''))) @ '' detection(s) fired'')] @
        AlertList (as_list (opt_fld r ''alerts'')))"

definition YaraLTab :: "jsval \<Rightarrow> yaral \<Rightarrow> yaral_event ui list" where
  "YaraLTab yaralRules s =
     [Txt ''YARA-L rule'', Field [] (yl_rule s) False TypeRule,
      Txt ''Sample log lines (one per line)'', Field [] (yl_lines s) False TypeLines,
      Btn ''Generate (AI)'' (yl_genBusy s) GenerateRule, Btn ''Run detection'' (yl_busy s) RunDetection,
      Txt ''Single-event rules match per line; windowed rules (with a match clause) aggregate across the lines and fire once the condition count is met.'',
      Txt ''Detection result''] @
     detection_result (yl_result s) @
     [Txt (''Active YARA-L rules ('' @ nat_dec (length (as_list yaralRules)) @ '')'')] @
     map (\<lambda>r. active_rule (as_row r)) (as_list yaralRules)"

definition yaral_allowed :: "jsval \<times> yaral_event \<Rightarrow> yaral \<Rightarrow> bool" where
  "yaral_allowed ce s = (case snd ce of
     TypeRule v \<Rightarrow> True
   | TypeLines v \<Rightarrow> True
   | RuleGenerated i a \<Rightarrow> i < length (yl_gens s)
   | DetectionLanded i a \<Rightarrow> i < length (yl_runs s)
   | _ \<Rightarrow> snd ce \<in> set (page_clicks (YaraLTab (fst ce) s)))"

lemma clicks_active_rule [simp]: "clicks (active_rule r) = []"
  by (simp add: active_rule_def)

lemma clicks_detection_result [simp]: "page_clicks (detection_result r) = []"
  by (simp add: detection_result_def rule_summary_def)

lemma clicks_YaraLTab: "e \<in> set (page_clicks (YaraLTab rs s)) \<longleftrightarrow>
    e = GenerateRule \<and> \<not> yl_genBusy s \<or> e = RunDetection \<and> \<not> yl_busy s"
proof -
  have "page_clicks (map (\<lambda>r. active_rule (as_row r)) rows) = ([] :: yaral_event list)" for rows
    by (rule page_clicks_quiet) auto
  then show ?thesis by (auto simp: YaraLTab_def)
qed

section \<open>The two busy flags\<close>

definition runs_detection :: "jsval \<times> yaral_event \<Rightarrow> yaral \<Rightarrow> bool" where
  "runs_detection ce s \<longleftrightarrow> snd ce = RunDetection"

definition detection_lands :: "jsval \<times> yaral_event \<Rightarrow> bool" where
  "detection_lands ce \<longleftrightarrow> (\<exists>i a. snd ce = DetectionLanded i a)"

text \<open>The generate button starts a call only when there is a line to generate from.\<close>

definition generates :: "jsval \<times> yaral_event \<Rightarrow> yaral \<Rightarrow> bool" where
  "generates ce s \<longleftrightarrow> snd ce = GenerateRule \<and> sample_lines (yl_lines s) \<noteq> []"

definition generation_lands :: "jsval \<times> yaral_event \<Rightarrow> bool" where
  "generation_lands ce \<longleftrightarrow> (\<exists>i a. snd ce = RuleGenerated i a)"

lemma generated_landed_frame [simp]:
  "yl_genBusy (fst (generated_landed a s)) = False" "yl_gens (fst (generated_landed a s)) = yl_gens s"
  "yl_busy (fst (generated_landed a s)) = yl_busy s" "yl_runs (fst (generated_landed a s)) = yl_runs s"
  by (cases a; simp add: generated_landed_def)+

lemma detection_landed_frame [simp]:
  "yl_busy (fst (detection_landed a s)) = False" "yl_runs (fst (detection_landed a s)) = yl_runs s"
  "yl_genBusy (fst (detection_landed a s)) = yl_genBusy s" "yl_gens (fst (detection_landed a s)) = yl_gens s"
  by (cases a; simp add: detection_landed_def)+

abbreviation yaral_next :: "jsval \<times> yaral_event \<Rightarrow> yaral \<Rightarrow> yaral" where
  "yaral_next ce s \<equiv> fst (yaral_step (snd ce) s)"

interpretation detection: busy_flag "\<lambda>s. s = init_yaral" yaral_allowed yaral_next yl_busy
  "\<lambda>s. length (yl_runs s)" runs_detection detection_lands
proof unfold_locales
  fix ce :: "jsval \<times> yaral_event" and s
  assume a: "yaral_allowed ce s"
  obtain rs e where ce: "ce = (rs, e)" by (cases ce)
  show "runs_detection ce s \<Longrightarrow> \<not> yl_busy s \<and> yl_busy (yaral_next ce s) \<and>
      length (yl_runs (yaral_next ce s)) = Suc (length (yl_runs s))"
    using a by (auto simp: ce runs_detection_def yaral_allowed_def clicks_YaraLTab Let_def)
  show "detection_lands ce \<Longrightarrow> \<not> yl_busy (yaral_next ce s) \<and>
      Suc (length (yl_runs (yaral_next ce s))) = length (yl_runs s)"
    using a by (auto simp: ce detection_lands_def yaral_allowed_def length_drop_nth)
  show "\<not> runs_detection ce s \<Longrightarrow> \<not> detection_lands ce \<Longrightarrow> yl_busy (yaral_next ce s) = yl_busy s \<and>
      length (yl_runs (yaral_next ce s)) = length (yl_runs s)"
    by (cases e) (auto simp: ce runs_detection_def detection_lands_def split: list.splits)
qed (simp_all add: init_yaral_def)

interpretation generation: busy_flag "\<lambda>s. s = init_yaral" yaral_allowed yaral_next yl_genBusy
  "\<lambda>s. length (yl_gens s)" generates generation_lands
proof unfold_locales
  fix ce :: "jsval \<times> yaral_event" and s
  assume a: "yaral_allowed ce s"
  obtain rs e where ce: "ce = (rs, e)" by (cases ce)
  show "generates ce s \<Longrightarrow> \<not> yl_genBusy s \<and> yl_genBusy (yaral_next ce s) \<and>
      length (yl_gens (yaral_next ce s)) = Suc (length (yl_gens s))"
    using a by (auto simp: ce generates_def yaral_allowed_def clicks_YaraLTab neq_Nil_conv)
  show "generation_lands ce \<Longrightarrow> \<not> yl_genBusy (yaral_next ce s) \<and>
      Suc (length (yl_gens (yaral_next ce s))) = length (yl_gens s)"
    using a by (auto simp: ce generation_lands_def yaral_allowed_def length_drop_nth)
  show "\<not> generates ce s \<Longrightarrow> \<not> generation_lands ce \<Longrightarrow> yl_genBusy (yaral_next ce s) = yl_genBusy s \<and>
      length (yl_gens (yaral_next ce s)) = length (yl_gens s)"
    by (cases e) (auto simp: ce generates_def generation_lands_def Let_def)
qed (simp_all add: init_yaral_def)

abbreviation yaral_reach :: "yaral \<Rightarrow> bool" where
  "yaral_reach \<equiv> reach (\<lambda>s. s = init_yaral) yaral_allowed yaral_next"

text \<open>A waiting detection has the lines the text held when it was started, none of them blank.\<close>

lemma waiting_runs_clean:
  "yaral_reach s \<Longrightarrow> list_all (\<lambda>(r, ms). list_all (\<lambda>m. m \<noteq> [] \<and> trim m = m) ms) (yl_runs s)"
proof (erule reach_invariant)
  fix s :: yaral and ce :: "jsval \<times> yaral_event"
  assume I: "list_all (\<lambda>(r, ms). list_all (\<lambda>m. m \<noteq> [] \<and> trim m = m) ms) (yl_runs s)"
  have "list_all (\<lambda>m. m \<noteq> [] \<and> trim m = m) (sample_lines t)" for t
    using items_of_clean [of _ "CHR 0x0A" t] unfolding sample_lines_def list_all_iff by blast
  with I show "list_all (\<lambda>(r, ms). list_all (\<lambda>m. m \<noteq> [] \<and> trim m = m) ms) (yl_runs (yaral_next ce s))"
    by (cases "snd ce")
      (auto simp: Let_def split: list.splits dest!: drop_nth_mem simp: list_all_iff)
qed (simp add: init_yaral_def)

section \<open>Properties\<close>

text \<open>C21. The detection run sends what the analyst typed, line by line: lines that are not blank and have no
  blanks around them reach the engine exactly as typed and in their order, with the rule of the
  editor, and blanks put after the line breaks change nothing; a generation is asked for the first
  line, and for nothing when there is none. A freshly opened tab has five lines.\<close>

theorem detection_sends_lines:
  assumes "\<And>x. x \<in> set xs \<Longrightarrow> trim x = x \<and> x \<noteq> [] \<and> CHR 0x0A \<notin> set x"
    and "list_all is_space pad" "CHR 0x0A \<notin> set pad" "s' = fst (yaral_step (TypeLines (join (CHR 0x0A # pad) xs)) s)"
  shows "calls_of (snd (yaral_step RunDetection s')) = [EngineCall (EngineTestYaraL (yl_rule s) xs None)] \<and>
    calls_of (snd (yaral_step GenerateRule s')) =
      (case xs of [] \<Rightarrow> [] | x # _ \<Rightarrow> [EngineCall (EngineGenerateYaraL x None)]) \<and>
    length (sample_lines (yl_lines init_yaral)) = 5"
proof -
  have x: "sample_lines (yl_lines s') = xs" "yl_rule s' = yl_rule s"
    using items_of_join [OF assms(2,3,1)] by (simp_all add: assms(4) sample_lines_def)
  have "sample_lines (yl_lines init_yaral) = map (\<lambda>i. ''Oct 12 18:00:0'' @ nat_dec i @ '' web-01 sshd[70'' @
      nat_dec i @ '']: Failed password for root from 45.155.205.99 port 22 ssh2'') [0..<5]"
    by code_simp
  with x show ?thesis by (simp add: Let_def split: list.splits)
qed

theorem detection_sends_lines_witness:
  "calls_of (snd (yaral_step RunDetection (init_yaral\<lparr>yl_lines := join (CHR 0x0A # '' '') [''a'', ''b'']\<rparr>))) =
     [EngineCall (EngineTestYaraL DEFAULT_YARAL [''a'', ''b''] None)]"
proof -
  have a: "x \<in> set [''a'', ''b''] \<Longrightarrow> trim x = x \<and> x \<noteq> [] \<and> CHR 0x0A \<notin> set x" for x
    by (auto simp: trim_def is_space_def)
  have b: "list_all is_space '' ''" "CHR 0x0A \<notin> set '' ''" by (simp_all add: is_space_def)
  show ?thesis using detection_sends_lines [of "[''a'', ''b'']" "'' ''", OF a b refl, of init_yaral] by (simp add: init_yaral_def)
qed

text \<open>C22. Neither button of the YARA-L tab can be answered twice: while a detection run waits for the engine, the tab
  offers no second one, and no second generation while one waits; the flags behind the buttons say
  exactly that, each on its own, whatever was typed or answered in between. An empty text starts no
  generation and leaves its button usable.\<close>

theorem yaral_runs_guarded:
  assumes "yaral_reach s"
  shows "length (yl_runs s) = (if yl_busy s then 1 else 0) \<and> length (yl_gens s) = (if yl_genBusy s then 1 else 0) \<and>
    (yl_runs s \<noteq> [] \<longrightarrow> RunDetection \<notin> set (page_clicks (YaraLTab rules s))) \<and>
    (yl_gens s \<noteq> [] \<longrightarrow> GenerateRule \<notin> set (page_clicks (YaraLTab rules s))) \<and>
    (sample_lines (yl_lines s) = [] \<longrightarrow> fst (yaral_step GenerateRule s) = s \<and>
       calls_of (snd (yaral_step GenerateRule s)) = []) \<and>
    (\<forall>r ms. (r, ms) \<in> set (yl_runs s) \<longrightarrow> (\<forall>m \<in> set ms. m \<noteq> [] \<and> trim m = m))"
  using detection.flag_exact [OF assms] generation.flag_exact [OF assms] waiting_runs_clean [OF assms]
  by (auto simp: clicks_YaraLTab list_all_iff split: if_splits)

theorem yaral_runs_guarded_witness:
  "length (yl_runs (fst (yaral_step RunDetection init_yaral))) = 1"
proof -
  have "yaral_reach init_yaral" by (rule reach_start) simp
  then have "yaral_reach (yaral_next (JNull, RunDetection) init_yaral)"
    by (rule reach_step) (simp add: yaral_allowed_def clicks_YaraLTab init_yaral_def)
  from yaral_runs_guarded [OF this] show ?thesis by (simp add: Let_def)
qed

end
