(* ===== verification/Parsers.thy ===== *)
theory Parsers
  imports YaraL
begin

text \<open>
  The parser tab of the engine page, \<open>ParsersTab\<close> and \<open>ParserGuide\<close> of
  \<open>frontend/src/pages/SocBlitzEngine.tsx\<close>, with the page's tab bar. The state holds the answer of the
  parser query beside the component's own state, because an effect of the component reads both: it
  selects the first listed parser when none is selected, after every change of the list or of the
  selection. The role of the user, the browser's \<open>confirm\<close> and the loading flag of the query are arguments.
\<close>

section \<open>State\<close>

record parsers_tab =
  ps_list :: jsval
  ps_selected :: jsval
  ps_draft :: string
  ps_sample :: string
  ps_test :: jsval
  ps_busy :: bool
  ps_genBusy :: bool
  ps_showGuide :: bool
  ps_saving :: bool
  ps_deleting :: bool
  ps_tests :: "(string \<times> string) list"
  ps_gens :: "string list"
  ps_saves :: "string list"
  ps_deletes :: "jsval list"

definition quoted :: "string \<Rightarrow> string" where
  "quoted s = CHR 0x27 # s @ [CHR 0x27]"

definition NEW_PARSER_TEMPLATE :: string where
  "NEW_PARSER_TEMPLATE = join newline
     [''name: myapp'',
      ''log_type: MYAPP'',
      ''check:'',
      ''  program: myapp'',
      ''filter:'',
      ''  - grok:'',
      ''      source: message'',
      ''      patterns:'',
      ''        - '' @ quoted ''user=%{USERNAME:user} from %{IP:src_ip} action=%{WORD:act}'',
      ''  - set:'',
      ''      metadata.event_type: '' @ quoted ''USER_LOGIN'',
      ''      metadata.vendor_name: '' @ quoted ''MyApp'',
      ''      principal.ip: '' @ quoted ''%{src_ip}'',
      ''      target.user.userid: '' @ quoted ''%{user}'',
      ''      security_result.action: '' @ quoted ''%{act}'']"

definition NEW_KEY :: jsval where
  "NEW_KEY = JStr ''__new__''"

definition init_parsers :: parsers_tab where
  "init_parsers = \<lparr>ps_list = JUndef, ps_selected = JNull, ps_draft = [],
     ps_sample = ''Oct 12 18:00:01 web-01 myapp[42]: user=alice from 203.0.113.5 action=login'',
     ps_test = JNull, ps_busy = False, ps_genBusy = False, ps_showGuide = False, ps_saving = False,
     ps_deleting = False, ps_tests = [], ps_gens = [], ps_saves = [], ps_deletes = []\<rparr>"

definition parser_list :: "parsers_tab \<Rightarrow> row list" where
  "parser_list s = map as_row (as_list (ps_list s))"

definition isNew :: "parsers_tab \<Rightarrow> bool" where
  "isNew s \<longleftrightarrow> ps_selected s = NEW_KEY"

definition current :: "parsers_tab \<Rightarrow> row option" where
  "current s = (if isNew s then None else find (\<lambda>p. fld p ''name'' = ps_selected s) (parser_list s))"

definition current_fld :: "parsers_tab \<Rightarrow> string \<Rightarrow> jsval" where
  "current_fld s k = (case current s of None \<Rightarrow> JUndef | Some p \<Rightarrow> fld p k)"

definition yaml_text :: "jsval \<Rightarrow> string" where
  "yaml_text y = js_string (jor y (JStr []))"

section \<open>Handlers\<close>

datatype parsers_event =
    ListLoaded jsval
  | ToggleGuide
  | StartNew
  | Pick jsval jsval
  | TypeDraft string
  | TypeParserSample string
  | RunParserTest
  | ParserTested nat answer
  | GenerateParser
  | ParserGenerated nat answer
  | SaveParser
  | ParserSaved nat answer
  | ConfirmDelete jsval
  | ParserDeleted nat answer

definition delete_question :: "jsval \<Rightarrow> string" where
  "delete_question name = ''Delete parser \"'' @ js_string name @ ''\"?''"

definition tested_landed :: "answer \<Rightarrow> parsers_tab \<Rightarrow> parsers_tab \<times> api_call effect list" where
  "tested_landed a s = (case a of
     Failed err \<Rightarrow> (s\<lparr>ps_busy := False\<rparr>, [ToastErr (engine_error err ''Engine unavailable'')])
   | Answered data \<Rightarrow>
       (s\<lparr>ps_test := data, ps_busy := False\<rparr>,
        if nullish data then [ToastErr (JStr ''Engine unavailable'')]
        else if truthy (opt_fld data ''error'') then [ToastErr (opt_fld data ''error'')] else []))"

text \<open>The new key is selected before the body is read.\<close>

definition parser_generated :: "answer \<Rightarrow> parsers_tab \<Rightarrow> parsers_tab \<times> api_call effect list" where
  "parser_generated a s = (case a of
     Failed err \<Rightarrow> (s\<lparr>ps_genBusy := False\<rparr>, [ToastErr (engine_error err ''Generation failed'')])
   | Answered data \<Rightarrow>
       if nullish data
       then (s\<lparr>ps_selected := NEW_KEY, ps_genBusy := False\<rparr>, [ToastErr (JStr ''Generation failed'')])
       else (s\<lparr>ps_selected := NEW_KEY, ps_draft := yaml_text (opt_fld data ''yaml''),
               ps_test := jor (opt_fld data ''tested'') JNull, ps_genBusy := False\<rparr>,
             [ToastOk (''Parser generated ('' @ js_string (opt_fld data ''source'') @ '') '' @ mdash @
                '' review, test, then Save'')]))"

definition parser_saved :: "answer \<Rightarrow> parsers_tab \<Rightarrow> parsers_tab \<times> api_call effect list" where
  "parser_saved a s = (case a of
     Failed err \<Rightarrow> (s\<lparr>ps_saving := False\<rparr>, [ToastErr (engine_error err ''Save failed'')])
   | Answered data \<Rightarrow>
       if truthy (opt_fld data ''error'') then (s\<lparr>ps_saving := False\<rparr>, [ToastErr (opt_fld data ''error'')])
       else
         let name = opt_fld (opt_fld data ''saved'') ''name'' in
         ((if truthy name then s\<lparr>ps_selected := name\<rparr> else s)\<lparr>ps_saving := False\<rparr>,
          [ToastOk (''Parser \"'' @ js_string name @ ''\" saved''), Invalidate [JStr ''engine-parsers''],
           Invalidate [JStr ''engine-rules'']]))"

definition parser_deleted :: "answer \<Rightarrow> parsers_tab \<Rightarrow> parsers_tab \<times> api_call effect list" where
  "parser_deleted a s = (case a of
     Failed err \<Rightarrow> (s\<lparr>ps_deleting := False\<rparr>, [ToastErr (engine_error err ''Delete failed'')])
   | Answered data \<Rightarrow>
       if truthy (opt_fld data ''error'') then (s\<lparr>ps_deleting := False\<rparr>, [ToastErr (opt_fld data ''error'')])
       else (s\<lparr>ps_selected := JNull, ps_deleting := False\<rparr>,
             [ToastOk ''Parser deleted'', Invalidate [JStr ''engine-parsers'']]))"

fun parsers_step ::
  "(string \<Rightarrow> bool) \<Rightarrow> parsers_event \<Rightarrow> parsers_tab \<Rightarrow> parsers_tab \<times> api_call effect list" where
  "parsers_step confirm (ListLoaded ps) s = (s\<lparr>ps_list := ps\<rparr>, [])"
| "parsers_step confirm ToggleGuide s = (s\<lparr>ps_showGuide := \<not> ps_showGuide s\<rparr>, [])"
| "parsers_step confirm StartNew s =
     (s\<lparr>ps_selected := NEW_KEY, ps_draft := NEW_PARSER_TEMPLATE, ps_test := JNull\<rparr>, [])"
| "parsers_step confirm (Pick name yaml) s =
     (s\<lparr>ps_selected := name, ps_draft := yaml_text yaml, ps_test := JNull\<rparr>, [])"
| "parsers_step confirm (TypeDraft v) s = (s\<lparr>ps_draft := v\<rparr>, [])"
| "parsers_step confirm (TypeParserSample v) s = (s\<lparr>ps_sample := v\<rparr>, [])"
| "parsers_step confirm RunParserTest s =
     (s\<lparr>ps_busy := True, ps_tests := ps_tests s @ [(ps_sample s, ps_draft s)]\<rparr>,
      [Call (EngineCall (EngineTestParser (ps_sample s) (Some (ps_draft s)) None))])"
| "parsers_step confirm (ParserTested i a) s =
     (if i < length (ps_tests s)
      then tested_landed a (s\<lparr>ps_tests := drop_nth i (ps_tests s)\<rparr>) else (s, []))"
| "parsers_step confirm GenerateParser s =
     (if trim (ps_sample s) = [] then (s, [ToastErr (JStr ''Enter a sample log line to generate from'')])
      else (s\<lparr>ps_genBusy := True, ps_gens := ps_gens s @ [ps_sample s]\<rparr>,
            [Call (EngineCall (EngineGenerateParser (ps_sample s) None))]))"
| "parsers_step confirm (ParserGenerated i a) s =
     (if i < length (ps_gens s)
      then parser_generated a (s\<lparr>ps_gens := drop_nth i (ps_gens s)\<rparr>) else (s, []))"
| "parsers_step confirm SaveParser s =
     (s\<lparr>ps_saving := True, ps_saves := ps_saves s @ [ps_draft s]\<rparr>,
      [Call (EngineCall (EngineSaveParser (ps_draft s)))])"
| "parsers_step confirm (ParserSaved i a) s =
     (if i < length (ps_saves s)
      then parser_saved a (s\<lparr>ps_saves := drop_nth i (ps_saves s)\<rparr>) else (s, []))"
| "parsers_step confirm (ConfirmDelete name) s =
     (if confirm (delete_question name)
      then (s\<lparr>ps_deleting := True, ps_deletes := ps_deletes s @ [name]\<rparr>,
            [Call (EngineCall (EngineDeleteParser (js_string name)))])
      else (s, []))"
| "parsers_step confirm (ParserDeleted i a) s =
     (if i < length (ps_deletes s)
      then parser_deleted a (s\<lparr>ps_deletes := drop_nth i (ps_deletes s)\<rparr>) else (s, []))"

text \<open>The effect on \<open>[list, selected]\<close>, and a handler followed by it.\<close>

definition select_first :: "parsers_tab \<Rightarrow> parsers_tab" where
  "select_first s =
     (case parser_list s of
        [] \<Rightarrow> s
      | p # _ \<Rightarrow>
          if truthy (ps_selected s) then s
          else s\<lparr>ps_selected := fld p ''name'', ps_draft := yaml_text (fld p ''yaml'')\<rparr>)"

definition parsers_commit :: "(string \<Rightarrow> bool) \<Rightarrow> parsers_event \<Rightarrow> parsers_tab \<Rightarrow> parsers_tab" where
  "parsers_commit confirm e s =
     (let s' = fst (parsers_step confirm e s) in
      if ps_list s' \<noteq> ps_list s \<or> ps_selected s' \<noteq> ps_selected s then select_first s' else s')"

lemma select_first_idem: "select_first (select_first s) = select_first s"
  by (auto simp: select_first_def parser_list_def split: list.splits)

section \<open>The guide\<close>

definition GROK_PATTERNS :: "string list" where
  "GROK_PATTERNS =
     [''IP'', ''NUMBER'', ''INT'', ''PORT'', ''WORD'', ''NOTSPACE'', ''USERNAME'', ''HOSTNAME'',
      ''PATH'', ''DATA'', ''GREEDYDATA'', ''QUOTEDSTRING'', ''MAC'', ''LOGLEVEL'', ''TIME'', ''SYSLOGTIMESTAMP'']"

definition UDM_PATHS :: "(string \<times> string list) list" where
  "UDM_PATHS =
     [(''metadata'', [''event_type'', ''vendor_name'', ''product_name'', ''log_type'', ''description'']),
      (''principal (who/source)'', [''principal.ip'', ''principal.port'', ''principal.hostname'', ''principal.user.userid'', ''principal.process.command_line'']),
      (''target (what/dest)'', [''target.ip'', ''target.port'', ''target.hostname'', ''target.user.userid'', ''target.url'', ''target.process.command_line'', ''target.file.full_path'']),
      (''network'', [''network.direction'', ''network.ip_protocol'', ''network.application_protocol'', ''network.http.method'', ''network.http.response_code'']),
      (''security_result'', [''security_result.action'', ''security_result.category'', ''security_result.severity'', ''security_result.summary''])]"

definition EVENT_TYPES :: "string list" where
  "EVENT_TYPES = [''USER_LOGIN'', ''PROCESS_LAUNCH'', ''NETWORK_CONNECTION'', ''FILE_MODIFICATION'',
     ''STATUS_UPDATE'', ''SCAN_HOST'', ''GENERIC_EVENT'']"

definition GUIDE_EXAMPLE :: string where
  "GUIDE_EXAMPLE = join newline
     [''name: myapp              # unique id'',
      ''log_type: MYAPP          # UDM metadata.log_type'',
      ''check:                   # gate '' @ mdash @ '' when to run'',
      ''  program: myapp         #   field: value  or  field: /regex/'',
      ''filter:'',
      ''  - grok:                # extract with patterns'',
      ''      source: message    #   field to read (default: message)'',
      ''      patterns:'',
      ''        - '' @ quoted ''user=%{USERNAME:user} from %{IP:src_ip}'',
      ''  - kv: { source: message }        # key=value pairs'',
      ''  - json: { source: message }      # parse a JSON body'',
      ''  - set:                 # map vars -> UDM paths'',
      ''      metadata.event_type: '' @ quoted ''USER_LOGIN'',
      ''      principal.ip: '' @ quoted ''%{src_ip}'',
      ''      target.user.userid: '' @ quoted ''%{user}'',
      ''  - on: '' @ quoted ''%{user} == root'' @ ''          # conditional set'',
      ''    set: { security_result.severity: '' @ quoted ''HIGH'' @ '' }'']"

definition FILTER_STEPS :: "(string \<times> string) list" where
  "FILTER_STEPS =
     [(''grok'', ''extract named fields via %{PATTERN:field}; first matching pattern wins''),
      (''kv'', ''split key=value pairs (opts: sep, kv_sep)''),
      (''json'', ''parse a JSON object; nested keys become dotted vars''),
      (''rename'', ''copy one var to another: { newvar: oldvar }''),
      (''set'', ''assign UDM paths from literals or %{vars}''),
      (''on + set'', ''apply set only when a condition holds (==, !=, =~ /re/)'')]"

definition ParserGuide :: "'e ui list" where
  "ParserGuide =
     [Txt ''How to write a parser'',
      Txt (''A parser turns a raw log into a UDM record. It runs ordered filter steps: extract raw values (grok / kv / json), then map them onto UDM fields (set). A step'' @
        [CHR 0x27] @ ''s %{var} that doesn'' @ [CHR 0x27] @ ''t resolve is skipped '' @ mdash @
        '' so partial logs never plant empty fields.''),
      Txt ''Structure'', Txt GUIDE_EXAMPLE, Txt ''Filter steps''] @
     map (\<lambda>(k, v). Box [Txt k, Txt v]) FILTER_STEPS @
     [Txt (''Grok patterns '' @ middot @ '' %{NAME:field}'')] @ map Txt GROK_PATTERNS @
     [Txt ''Common UDM fields''] @ map (\<lambda>(g, ps). Box (Txt g # map Txt ps)) UDM_PATHS @
     [Txt ''event_type values''] @ map Txt EVENT_TYPES @
     [Txt ''Tips: use Test before saving; a parser named like a built-in saves a custom override (delete it to revert); set metadata.event_type so YARA-L rules can target the log source.'']"

section \<open>The rendered tab\<close>

definition parser_item :: "row \<Rightarrow> parsers_event ui" where
  "parser_item p = Box
     [Btn (js_string (fld p ''name'')) False (Pick (fld p ''name'') (fld p ''yaml'')), Val (fld p ''source'')]"

definition parser_sidebar :: "bool \<Rightarrow> bool \<Rightarrow> parsers_tab \<Rightarrow> parsers_event ui list" where
  "parser_sidebar isAdmin isLoading s =
     [Txt (''Parsers ('' @ nat_dec (length (parser_list s)) @ '')''), Btn ''New'' (\<not> isAdmin) StartNew] @
     (if isLoading then [Txt (''Loading'' @ ellipsis)]
      else shown (isNew s) [Txt ''+ new parser (unsaved)''] @ map parser_item (parser_list s))"

definition is_custom :: "parsers_tab \<Rightarrow> bool" where
  "is_custom s \<longleftrightarrow> \<not> isNew s \<and> current_fld s ''source'' = JStr ''custom''"

definition test_outcome :: "jsval \<Rightarrow> 'e ui list" where
  "test_outcome t =
     shown (truthy t \<and> \<not> truthy (opt_fld t ''error''))
       ([Txt (if truthy (opt_fld t ''matched'') then ''Parser matched'' else ''No match'')] @
        shown (truthy (opt_fld t ''event_type'')) [Txt (middot @ '' ''), Val (opt_fld t ''event_type'')] @
        map Val (as_list (opt_fld t ''parsers'')) @ FieldsTable (opt_fld t ''fields'')) @
     shown (truthy (opt_fld t ''error'')) [Val (opt_fld t ''error'')]"

definition parser_editor :: "bool \<Rightarrow> parsers_tab \<Rightarrow> parsers_event ui list" where
  "parser_editor isAdmin s =
     (if \<not> truthy (ps_selected s)
      then [Txt ''Select a parser to view or edit, or create a new one.'']
      else
        [if isNew s then Txt ''New parser'' else Val (current_fld s ''name'')] @
        shown (current_fld s ''source'' = JStr ''builtin'')
          [Txt ('' '' @ middot @ '' built-in (editing saves a custom override)'')] @
        shown (\<not> isAdmin) [Txt ''read-only''] @
        [if isAdmin then Field [] (ps_draft s) False TypeDraft else Txt (ps_draft s),
         Txt (''Sample log line '' @ middot @ '' test against it, or generate a parser from it with AI''),
         Field [] (ps_sample s) False TypeParserSample,
         Btn ''Generate (AI)'' (ps_genBusy s) GenerateParser, Btn ''Test'' (ps_busy s) RunParserTest,
         Btn ''Save'' (\<not> isAdmin \<or> ps_saving s) SaveParser] @
        shown (is_custom s)
          [Btn ''Delete'' (\<not> isAdmin \<or> ps_deleting s) (ConfirmDelete (current_fld s ''name''))] @
        test_outcome (ps_test s))"

definition ParsersTab :: "jsval \<Rightarrow> bool \<Rightarrow> parsers_tab \<Rightarrow> parsers_event ui list" where
  "ParsersTab rl isLoading s =
     (let isAdmin = (rl = JStr ''admin'') in
      [Txt (''CBN parsers normalize raw logs into the UDM '' @ mdash @ '' the model YARA-L detections match on.''),
       Btn (if ps_showGuide s then ''Hide guide'' else ''How to write a parser'') False ToggleGuide] @
      shown (ps_showGuide s) ParserGuide @
      parser_sidebar isAdmin isLoading s @ parser_editor isAdmin s)"

text \<open>The page around the tabs: it opens on the first, and a tab starts afresh each time it is opened.\<close>

definition ENGINE_TABS :: "(string \<times> string) list" where
  "ENGINE_TABS = [(''normalize'', ''Normalize (UDM)''), (''parsers'', ''Parsers''), (''yaral'', ''YARA-L''),
     (''test'', ''Test''), (''rulegen'', ''Rule Generation'')]"

definition rarrow :: string where
  "rarrow = [CHR 0xE2, CHR 0x86, CHR 0x92]"

definition engine_header :: "jsval \<Rightarrow> string ui list" where
  "engine_header rules =
     [Txt ''SocBlitz Engine'',
      Txt (''Normalize logs to UDM and build detections with a Chronicle-style pipeline: CBN parsers '' @
        rarrow @ '' Unified Data Model '' @ rarrow @ '' YARA-L rules.'' @
        (if truthy rules then '' '' @ nat_dec (length (as_list rules)) @ '' legacy rules active.'' else []))] @
     map (\<lambda>(k, l). Btn l False k) ENGINE_TABS"

text \<open>What can happen.\<close>

definition parsers_allowed :: "jsval \<Rightarrow> bool \<times> parsers_event \<Rightarrow> parsers_tab \<Rightarrow> bool" where
  "parsers_allowed rl ce s = (case snd ce of
     ListLoaded ps \<Rightarrow> True
   | TypeDraft v \<Rightarrow> rl = JStr ''admin'' \<and> truthy (ps_selected s)
   | TypeParserSample v \<Rightarrow> truthy (ps_selected s)
   | ParserTested i a \<Rightarrow> i < length (ps_tests s)
   | ParserGenerated i a \<Rightarrow> i < length (ps_gens s)
   | ParserSaved i a \<Rightarrow> i < length (ps_saves s)
   | ParserDeleted i a \<Rightarrow> i < length (ps_deletes s)
   | _ \<Rightarrow> snd ce \<in> set (page_clicks (ParsersTab rl (fst ce) s)))"

abbreviation parsers_next :: "(string \<Rightarrow> bool) \<Rightarrow> bool \<times> parsers_event \<Rightarrow> parsers_tab \<Rightarrow> parsers_tab" where
  "parsers_next confirm ce s \<equiv> parsers_commit confirm (snd ce) s"

abbreviation parsers_reach :: "jsval \<Rightarrow> (string \<Rightarrow> bool) \<Rightarrow> parsers_tab \<Rightarrow> bool" where
  "parsers_reach rl confirm \<equiv>
     reach (\<lambda>s. s = init_parsers) (parsers_allowed rl) (parsers_next confirm)"

lemma clicks_pairs: "page_clicks (map (\<lambda>(k, v). Box [Txt k, Txt v]) kvs) = []"
  by (rule page_clicks_quiet) auto

lemma clicks_groups: "page_clicks (map (\<lambda>(g, ps). Box (Txt g # map Txt ps)) gps) = []"
  by (rule page_clicks_quiet) auto

lemma clicks_ParserGuide [simp]: "page_clicks ParserGuide = []"
  by (simp add: ParserGuide_def clicks_pairs clicks_groups)

lemma clicks_test_outcome [simp]: "page_clicks (test_outcome t) = []"
  by (simp add: test_outcome_def)

lemma clicks_sidebar: "e \<in> set (page_clicks (parser_sidebar isAdmin l s)) \<longleftrightarrow>
    e = StartNew \<and> isAdmin \<or> \<not> l \<and> (\<exists>p \<in> set (parser_list s). e = Pick (fld p ''name'') (fld p ''yaml''))"
  by (auto simp: parser_sidebar_def parser_item_def page_clicks_map)

lemma clicks_editor: "e \<in> set (page_clicks (parser_editor isAdmin s)) \<longleftrightarrow> truthy (ps_selected s) \<and>
    (e = GenerateParser \<and> \<not> ps_genBusy s \<or> e = RunParserTest \<and> \<not> ps_busy s \<or>
     e = SaveParser \<and> isAdmin \<and> \<not> ps_saving s \<or>
     e = ConfirmDelete (current_fld s ''name'') \<and> is_custom s \<and> isAdmin \<and> \<not> ps_deleting s)"
  by (auto simp: parser_editor_def)

lemma clicks_ParsersTab: "e \<in> set (page_clicks (ParsersTab rl l s)) \<longleftrightarrow>
    e = ToggleGuide \<or> e \<in> set (page_clicks (parser_sidebar (rl = JStr ''admin'') l s)) \<or>
    e \<in> set (page_clicks (parser_editor (rl = JStr ''admin'') s))"
  by (auto simp: ParsersTab_def Let_def)

section \<open>The calls in flight\<close>

definition saves :: "bool \<times> parsers_event \<Rightarrow> bool" where
  "saves ce \<longleftrightarrow> snd ce = SaveParser"

definition save_lands :: "bool \<times> parsers_event \<Rightarrow> bool" where
  "save_lands ce \<longleftrightarrow> (\<exists>i a. snd ce = ParserSaved i a)"

text \<open>The delete button starts a call only when the dialog was confirmed.\<close>

definition deletes :: "(string \<Rightarrow> bool) \<Rightarrow> bool \<times> parsers_event \<Rightarrow> parsers_tab \<Rightarrow> bool" where
  "deletes confirm ce s \<longleftrightarrow> (\<exists>n. snd ce = ConfirmDelete n \<and> confirm (delete_question n))"

definition delete_lands :: "bool \<times> parsers_event \<Rightarrow> bool" where
  "delete_lands ce \<longleftrightarrow> (\<exists>i a. snd ce = ParserDeleted i a)"

lemma select_first_frame [simp]:
  "ps_saving (select_first s) = ps_saving s" "ps_saves (select_first s) = ps_saves s"
  "ps_deleting (select_first s) = ps_deleting s" "ps_deletes (select_first s) = ps_deletes s"
  "ps_list (select_first s) = ps_list s"
  by (simp_all add: select_first_def split: list.splits)

lemma commit_frame:
  "ps_saving (parsers_commit c e s) = ps_saving (fst (parsers_step c e s))"
  "ps_saves (parsers_commit c e s) = ps_saves (fst (parsers_step c e s))"
  "ps_deleting (parsers_commit c e s) = ps_deleting (fst (parsers_step c e s))"
  "ps_deletes (parsers_commit c e s) = ps_deletes (fst (parsers_step c e s))"
  "ps_list (parsers_commit c e s) = ps_list (fst (parsers_step c e s))"
  by (simp_all add: parsers_commit_def Let_def)

lemma landed_frames [simp]:
  "ps_saving (fst (tested_landed a s)) = ps_saving s" "ps_saves (fst (tested_landed a s)) = ps_saves s"
  "ps_deleting (fst (tested_landed a s)) = ps_deleting s" "ps_deletes (fst (tested_landed a s)) = ps_deletes s"
  "ps_saving (fst (parser_generated a s)) = ps_saving s" "ps_saves (fst (parser_generated a s)) = ps_saves s"
  "ps_deleting (fst (parser_generated a s)) = ps_deleting s" "ps_deletes (fst (parser_generated a s)) = ps_deletes s"
  "ps_saving (fst (parser_saved a s)) = False" "ps_saves (fst (parser_saved a s)) = ps_saves s"
  "ps_deleting (fst (parser_saved a s)) = ps_deleting s" "ps_deletes (fst (parser_saved a s)) = ps_deletes s"
  "ps_saving (fst (parser_deleted a s)) = ps_saving s" "ps_saves (fst (parser_deleted a s)) = ps_saves s"
  "ps_deleting (fst (parser_deleted a s)) = False" "ps_deletes (fst (parser_deleted a s)) = ps_deletes s"
  by (cases a; simp add: tested_landed_def parser_generated_def parser_saved_def parser_deleted_def Let_def)+

lemma allowed_click:
  assumes "parsers_allowed rl (l, e) s" "e = SaveParser \<or> e = ConfirmDelete n"
  shows "rl = JStr ''admin'' \<and> truthy (ps_selected s) \<and>
    (e = SaveParser \<longrightarrow> \<not> ps_saving s) \<and> (e = ConfirmDelete n \<longrightarrow> \<not> ps_deleting s)"
  using assms by (auto simp: parsers_allowed_def clicks_ParsersTab clicks_sidebar clicks_editor)

interpretation save_flight: single_flight "\<lambda>s. s = init_parsers" "parsers_allowed rl" "parsers_next confirm" ps_saving
  "\<lambda>s. length (ps_saves s)" saves save_lands for rl :: jsval and confirm :: "string \<Rightarrow> bool"
proof unfold_locales
  fix ce :: "bool \<times> parsers_event" and s
  assume a: "parsers_allowed rl ce s"
  obtain l e where ce: "ce = (l, e)" by (cases ce)
  show "saves ce \<Longrightarrow> \<not> ps_saving s \<and> ps_saving (parsers_next confirm ce s) \<and>
      length (ps_saves (parsers_next confirm ce s)) = Suc (length (ps_saves s))"
    using a allowed_click [of rl l e s] by (auto simp: ce saves_def commit_frame)
  show "save_lands ce \<Longrightarrow> \<not> ps_saving (parsers_next confirm ce s) \<and>
      Suc (length (ps_saves (parsers_next confirm ce s))) = length (ps_saves s)"
    using a by (auto simp: ce save_lands_def commit_frame parsers_allowed_def length_drop_nth)
  show "\<not> saves ce \<Longrightarrow> \<not> save_lands ce \<Longrightarrow> ps_saving (parsers_next confirm ce s) = ps_saving s \<and>
      length (ps_saves (parsers_next confirm ce s)) = length (ps_saves s)"
    by (cases e) (auto simp: ce saves_def save_lands_def commit_frame)
qed (simp_all add: init_parsers_def)

interpretation delete_flight: busy_flag "\<lambda>s. s = init_parsers" "parsers_allowed rl" "parsers_next confirm" ps_deleting
  "\<lambda>s. length (ps_deletes s)" "deletes confirm" delete_lands for rl :: jsval and confirm :: "string \<Rightarrow> bool"
proof unfold_locales
  fix ce :: "bool \<times> parsers_event" and s
  assume a: "parsers_allowed rl ce s"
  obtain l e where ce: "ce = (l, e)" by (cases ce)
  show "deletes confirm ce s \<Longrightarrow> \<not> ps_deleting s \<and> ps_deleting (parsers_next confirm ce s) \<and>
      length (ps_deletes (parsers_next confirm ce s)) = Suc (length (ps_deletes s))"
    using a allowed_click [of rl l e s] by (auto simp: ce deletes_def commit_frame)
  show "delete_lands ce \<Longrightarrow> \<not> ps_deleting (parsers_next confirm ce s) \<and>
      Suc (length (ps_deletes (parsers_next confirm ce s))) = length (ps_deletes s)"
    using a by (auto simp: ce delete_lands_def commit_frame parsers_allowed_def length_drop_nth)
  show "\<not> deletes confirm ce s \<Longrightarrow> \<not> delete_lands ce \<Longrightarrow> ps_deleting (parsers_next confirm ce s) = ps_deleting s \<and>
      length (ps_deletes (parsers_next confirm ce s)) = length (ps_deletes s)"
    by (cases e) (auto simp: ce deletes_def delete_lands_def commit_frame)
qed (simp_all add: init_parsers_def)

section \<open>The selection\<close>

definition names_listed :: "parsers_tab \<Rightarrow> bool" where
  "names_listed s \<longleftrightarrow> list_all (\<lambda>p. truthy (fld p ''name'')) (parser_list s)"

text \<open>After the effect has run, something is selected whenever there is a parser with a name.\<close>

lemma select_first_selects: "names_listed s \<Longrightarrow> parser_list s \<noteq> [] \<Longrightarrow> truthy (ps_selected (select_first s))"
  by (auto simp: select_first_def names_listed_def split: list.splits)

lemma always_selected:
  assumes "parsers_reach rl confirm s" "names_listed s" "parser_list s \<noteq> []"
  shows "truthy (ps_selected s)"
proof -
  let ?P = "\<lambda>s. names_listed s \<and> parser_list s \<noteq> [] \<longrightarrow> truthy (ps_selected s)"
  have "?P s"
    using assms(1)
  proof (rule reach_invariant)
    fix s and ce :: "bool \<times> parsers_event"
    assume I: "?P s"
    let ?s' = "fst (parsers_step confirm (snd ce) s)"
    show "?P (parsers_next confirm ce s)"
    proof (cases "ps_list ?s' \<noteq> ps_list s \<or> ps_selected ?s' \<noteq> ps_selected s")
      case True
      then have "parsers_next confirm ce s = select_first ?s'" by (simp add: parsers_commit_def Let_def)
      then show ?thesis
        using select_first_selects [of ?s'] by (simp add: names_listed_def parser_list_def)
    next
      case False
      with I show ?thesis by (simp add: parsers_commit_def Let_def names_listed_def parser_list_def)
    qed
  qed (simp add: init_parsers_def parser_list_def)
  with assms show ?thesis by simp
qed

lemma current_listed: "current s = Some p \<Longrightarrow> p \<in> set (parser_list s) \<and> fld p ''name'' = ps_selected s"
  by (auto simp: current_def find_Some_iff split: if_splits)

lemma custom_current: "is_custom s \<Longrightarrow>
    \<exists>p. current s = Some p \<and> p \<in> set (parser_list s) \<and> fld p ''source'' = JStr ''custom'' \<and>
      fld p ''name'' = ps_selected s"
  using current_listed [of s] by (auto simp: is_custom_def current_fld_def split: option.splits)

section \<open>Properties\<close>

lemma change_guarded:
  assumes "parsers_reach rl confirm s" "e \<in> set (page_clicks (ParsersTab rl isLoading s))"
    and "EngineCall c \<in> set (calls_of (snd (parsers_step confirm e s)))"
    and "c = EngineSaveParser y \<or> c = EngineDeleteParser n"
  shows "rl = JStr ''admin'' \<and> truthy (ps_selected s) \<and>
    (c = EngineSaveParser y \<longrightarrow> y = ps_draft s \<and> ps_saves s = []) \<and>
    (c = EngineDeleteParser n \<longrightarrow> ps_deletes s = [] \<and>
       (\<exists>p \<in> set (parser_list s). fld p ''name'' = ps_selected s \<and> fld p ''source'' = JStr ''custom'' \<and>
          n = js_string (fld p ''name'') \<and> confirm (delete_question (fld p ''name''))))"
proof -
  have flags: "ps_saves s = [] \<longleftrightarrow> \<not> ps_saving s" "ps_deletes s = [] \<longleftrightarrow> \<not> ps_deleting s"
    using save_flight.flag_exact [OF assms(1)] delete_flight.flag_exact [OF assms(1)] by (auto split: if_splits)
  from assms(2,3) consider
      (quiet) "e = StartNew \<or> e = ToggleGuide \<or> (\<exists>a b. e = Pick a b) \<or> e = GenerateParser \<or> e = RunParserTest"
    | (save) "e = SaveParser" "rl = JStr ''admin''" "\<not> ps_saving s" "truthy (ps_selected s)"
    | (del) "e = ConfirmDelete (current_fld s ''name'')" "is_custom s" "rl = JStr ''admin''" "\<not> ps_deleting s"
        "truthy (ps_selected s)"
    by (auto simp: clicks_ParsersTab clicks_sidebar clicks_editor)
  then show ?thesis
  proof cases
    case quiet
    with assms(3,4) show ?thesis by (auto split: if_splits)
  next
    case save
    with assms(3,4) flags show ?thesis by auto
  next
    case del
    from custom_current [OF del(2)] obtain p where p: "current s = Some p" "p \<in> set (parser_list s)"
      "fld p ''source'' = JStr ''custom''" "fld p ''name'' = ps_selected s" by blast
    then have "current_fld s ''name'' = fld p ''name''" by (simp add: current_fld_def)
    with del assms(3,4) flags p show ?thesis by (auto split: if_splits)
  qed
qed

text \<open>C7. The parsers of the engine are changed only by an administrator and one at a time: on every reachable tab, a
  save is offered to administrators only, while none is running, and sends the text of the
  editor; a deletion likewise, of the selected parser, which is a listed custom one, and only after
  the dialog naming it was confirmed; no other button of the tab sends either. And on every reachable
  tab with parsers listed, all of them named, one is selected.\<close>

theorem parser_changes_guarded:
  assumes "parsers_reach rl confirm s"
  shows "(names_listed s \<and> parser_list s \<noteq> [] \<longrightarrow> truthy (ps_selected s)) \<and>
    (\<forall>e c y n. e \<in> set (page_clicks (ParsersTab rl isLoading s)) \<and>
       EngineCall c \<in> set (calls_of (snd (parsers_step confirm e s))) \<and>
       (c = EngineSaveParser y \<or> c = EngineDeleteParser n) \<longrightarrow>
       rl = JStr ''admin'' \<and> truthy (ps_selected s) \<and>
       (c = EngineSaveParser y \<longrightarrow> y = ps_draft s \<and> ps_saves s = []) \<and>
       (c = EngineDeleteParser n \<longrightarrow> ps_deletes s = [] \<and>
          (\<exists>p \<in> set (parser_list s). fld p ''name'' = ps_selected s \<and> fld p ''source'' = JStr ''custom'' \<and>
             n = js_string (fld p ''name'') \<and> confirm (delete_question (fld p ''name'')))))"
proof (intro conjI allI)
  show "names_listed s \<and> parser_list s \<noteq> [] \<longrightarrow> truthy (ps_selected s)"
    using always_selected [OF assms] by blast
qed (use change_guarded [OF assms] in blast)

abbreviation demo_parser :: row where
  "demo_parser \<equiv> [(''name'', JStr ''a''), (''source'', JStr ''custom''), (''yaml'', JStr ''y'')]"

theorem parser_changes_guarded_witness:
  "\<exists>s. parsers_reach (JStr ''admin'') (\<lambda>q. True) s \<and> current s = Some demo_parser \<and> ps_deletes s = [] \<and>
     truthy (ps_selected s)"
proof -
  let ?s = "parsers_next (\<lambda>q. True) (False, ListLoaded (JArr [JObj demo_parser])) init_parsers"
  have "parsers_reach (JStr ''admin'') (\<lambda>q. True) init_parsers" by (rule reach_start) simp
  then have r: "parsers_reach (JStr ''admin'') (\<lambda>q. True) ?s"
    by (rule reach_step) (simp add: parsers_allowed_def)
  have s: "ps_selected ?s = JStr ''a''" "current ?s = Some demo_parser" "\<not> ps_deleting ?s" "is_custom ?s"
    by (simp_all add: parsers_commit_def Let_def select_first_def parser_list_def init_parsers_def current_def
        isNew_def NEW_KEY_def is_custom_def current_fld_def)
  then have c: "ConfirmDelete (JStr ''a'') \<in> set (page_clicks (ParsersTab (JStr ''admin'') False ?s))"
    by (simp add: clicks_ParsersTab clicks_editor current_fld_def)
  have "EngineCall (EngineDeleteParser ''a'') \<in>
      set (calls_of (snd (parsers_step (\<lambda>q. True) (ConfirmDelete (JStr ''a'')) ?s)))"
    by simp
  with parser_changes_guarded [OF r, of False] c have "ps_deletes ?s = [] \<and> truthy (ps_selected ?s)" by blast
  with r s show ?thesis by blast
qed

text \<open>A parser that is loaded, picked or saved is the one on screen: with named parsers listed one is always
  selected; picking a listed one shows its text and its name; and after a save the parser of the
  answered name is the selected one, the text of the editor stays, and as soon as the list has it
  the editor is titled with it.\<close>

theorem saved_parser_selected:
  assumes "parsers_reach rl confirm s" "i < length (ps_saves s)"
    and "\<not> truthy (opt_fld data ''error'')" "opt_fld (opt_fld data ''saved'') ''name'' = JStr name"
    and "name \<noteq> []" "name \<noteq> ''__new__''"
    and "s1 = parsers_commit confirm (ParserSaved i (Answered data)) s"
    and "p \<in> set (map as_row (as_list ps))" "fld p ''name'' = JStr name"
    and "s2 = parsers_commit confirm (ListLoaded ps) s1"
  shows "ps_selected s1 = JStr name \<and> ps_draft s1 = ps_draft s \<and> ps_draft s2 = ps_draft s \<and>
    current_fld s2 ''name'' = JStr name \<and> \<not> isNew s2 \<and>
    (names_listed s \<and> parser_list s \<noteq> [] \<longrightarrow> truthy (ps_selected s))"
proof -
  have sel: "truthy (JStr name)" using assms(5) by simp
  have s1: "ps_selected s1 = JStr name" "ps_draft s1 = ps_draft s"
    using assms(2-5) sel by (auto simp: assms(7) parsers_commit_def Let_def parser_saved_def select_first_def split: list.splits)
  then have s2: "ps_selected s2 = JStr name" "ps_draft s2 = ps_draft s" "ps_list s2 = ps"
    using sel by (auto simp: assms(10) parsers_commit_def Let_def select_first_def split: list.splits)
  have new: "\<not> isNew s2" using s2(1) assms(6) by (simp add: isNew_def NEW_KEY_def)
  have "p \<in> set (parser_list s2)" using assms(8) by (simp add: parser_list_def s2(3))
  then obtain q where q: "current s2 = Some q"
    using assms(9) s2(1) new by (cases "current s2") (auto simp: current_def find_None_iff)
  then have "current_fld s2 ''name'' = JStr name"
    using current_listed [OF q] s2(1) by (simp add: current_fld_def)
  with s1 s2 new always_selected [OF assms(1)] show ?thesis by simp
qed

theorem saved_parser_selected_witness:
  "\<exists>s2. current_fld s2 ''name'' = JStr ''a'' \<and> ps_draft s2 = NEW_PARSER_TEMPLATE"
proof -
  let ?n = "parsers_next (\<lambda>q. True)"
  let ?s1 = "?n (False, StartNew) init_parsers"
  let ?s = "?n (False, SaveParser) ?s1"
  have "parsers_reach (JStr ''admin'') (\<lambda>q. True) init_parsers" by (rule reach_start) simp
  then have "parsers_reach (JStr ''admin'') (\<lambda>q. True) ?s1"
    by (rule reach_step) (simp add: parsers_allowed_def clicks_ParsersTab clicks_sidebar)
  moreover have s1: "ps_selected ?s1 = NEW_KEY" "\<not> ps_saving ?s1" "ps_draft ?s1 = NEW_PARSER_TEMPLATE" "ps_saves ?s1 = []"
    by (simp_all add: parsers_commit_def Let_def select_first_def parser_list_def init_parsers_def)
  ultimately have r: "parsers_reach (JStr ''admin'') (\<lambda>q. True) ?s"
    by (intro reach_step [where e = "(False, SaveParser)"])
      (simp_all add: parsers_allowed_def clicks_ParsersTab clicks_editor NEW_KEY_def)
  have s: "0 < length (ps_saves ?s)" "ps_draft ?s = NEW_PARSER_TEMPLATE"
    using s1 by (simp_all add: parsers_commit_def Let_def)
  have d: "\<not> truthy (opt_fld (JObj [(''saved'', JObj demo_parser)]) ''error'')"
    "opt_fld (opt_fld (JObj [(''saved'', JObj demo_parser)]) ''saved'') ''name'' = JStr ''a''"
    "''a'' \<noteq> []" "''a'' \<noteq> ''__new__''" "demo_parser \<in> set (map as_row (as_list (JArr [JObj demo_parser])))"
    "fld demo_parser ''name'' = JStr ''a''" by simp_all
  show ?thesis
    using saved_parser_selected [OF r s(1) d(1-4) refl d(5,6) refl] s(2) by metis
qed

text \<open>C19. A deleted parser that was the first of the list stays in the editor: when the engine confirms
  the deletion, the effect selects again the first parser of the list that is still cached, which is
  the deleted one. When the list without it arrives the selection is left dangling: nothing in the
  list is selected, the editor has no title and no delete button, but the text of the deleted parser,
  and the save button of an administrator sends exactly this text to the engine.\<close>

theorem deleted_parser_reselected:
  assumes "parser_list s = p # ps" "ps_selected s = JStr name" "fld p ''name'' = JStr name"
    and "name \<noteq> []" "name \<noteq> ''__new__''"
    and "i < length (ps_deletes s)" "\<not> truthy (opt_fld data ''error'')"
    and "s1 = parsers_commit confirm (ParserDeleted i (Answered data)) s"
    and "\<And>q. q \<in> set (map as_row (as_list rest)) \<Longrightarrow> fld q ''name'' \<noteq> JStr name"
    and "s2 = parsers_commit confirm (ListLoaded rest) s1"
  shows "ps_selected s1 = JStr name \<and> ps_draft s1 = yaml_text (fld p ''yaml'') \<and>
    ps_selected s2 = JStr name \<and> current s2 = None \<and> ps_draft s2 = yaml_text (fld p ''yaml'') \<and>
    calls_of (snd (parsers_step confirm SaveParser s2)) = [EngineCall (EngineSaveParser (yaml_text (fld p ''yaml'')))] \<and>
    (\<not> ps_saving s \<longrightarrow> SaveParser \<in> set (page_clicks (ParsersTab (JStr ''admin'') isLoading s2)))"
proof -
  have s1: "ps_selected s1 = JStr name" "ps_draft s1 = yaml_text (fld p ''yaml'')" "ps_saving s1 = ps_saving s"
    using assms(1-3,6,7)
    by (simp_all add: assms(8) parsers_commit_def Let_def parser_deleted_def select_first_def parser_list_def)
  have s2: "ps_selected s2 = JStr name" "ps_draft s2 = ps_draft s1" "ps_list s2 = rest" "ps_saving s2 = ps_saving s1"
    using s1(1) assms(4) by (auto simp: assms(10) parsers_commit_def Let_def select_first_def split: list.splits)
  have "current s2 = None"
    using assms(9) by (auto simp: current_def find_None_iff parser_list_def s2)
  with s1 s2 assms(4) show ?thesis by (simp add: clicks_ParsersTab clicks_editor)
qed

theorem deleted_parser_reselected_witness:
  "\<exists>s2. current s2 = None \<and> ps_list s2 = JArr [] \<and> ps_draft s2 = ''y''"
proof -
  let ?s = "init_parsers\<lparr>ps_list := JArr [JObj demo_parser], ps_selected := JStr ''a'', ps_deletes := [JStr ''a'']\<rparr>"
  have l: "parser_list ?s = demo_parser # []" by (simp add: parser_list_def)
  have a: "ps_selected ?s = JStr ''a''" "fld demo_parser ''name'' = JStr ''a''" "''a'' \<noteq> []" "''a'' \<noteq> ''__new__''"
    "0 < length (ps_deletes ?s)" "\<not> truthy (opt_fld (JObj []) ''error'')" by simp_all
  let ?s2 = "parsers_commit (\<lambda>q. True) (ListLoaded (JArr [])) (parsers_commit (\<lambda>q. True) (ParserDeleted 0 (Answered (JObj []))) ?s)"
  have "ps_list ?s2 = JArr []" by (simp add: commit_frame)
  moreover have "yaml_text (fld demo_parser ''yaml'') = ''y''" by (simp add: yaml_text_def jor_def)
  ultimately show ?thesis
    using deleted_parser_reselected [where rest = "JArr []" and confirm = "\<lambda>q. True", OF l a refl _ refl]
    by (intro exI [of _ ?s2]) simp
qed

end
