(* ===== verification/Settings.thy ===== *)
theory Settings
  imports ApiClient Async
begin

text \<open>
  The settings page, \<open>frontend/src/pages/Settings.tsx\<close>: the profile, the administrator's forms for users
  and organizations, the reset of a user's second factor behind the browser's confirmation, and the
  system status. The answers of the page's queries, the role and the confirmation are arguments; the
  three mutations are the calls in flight with their pending flags. The browser's check that the
  email has the form of an address is left out: the model submits a little more than the page.
\<close>

section \<open>State and handlers\<close>

record settings_state =
  showUserForm :: bool
  newUser :: row
  showTenantForm :: bool
  newTenant :: row
  creatingUser :: bool
  resetting :: bool
  creatingTenant :: bool
  user_calls :: "jsval list"
  reset_calls :: "string list"
  tenant_calls :: "jsval list"

definition BLANK_USER :: row where
  "BLANK_USER = [(''email'', JStr []), (''password'', JStr []), (''full_name'', JStr []), (''role'', JStr ''analyst'')]"

definition BLANK_TENANT :: row where
  "BLANK_TENANT = [(''code'', JStr []), (''name'', JStr []), (''description'', JStr [])]"

definition init_settings :: settings_state where
  "init_settings = \<lparr>showUserForm = False, newUser = BLANK_USER, showTenantForm = False, newTenant = BLANK_TENANT,
     creatingUser = False, resetting = False, creatingTenant = False,
     user_calls = [], reset_calls = [], tenant_calls = []\<rparr>"

datatype settings_event =
    GoAccount
  | ToggleUserForm
  | CancelUser
  | EditUser string string
  | SubmitUser
  | UserLanded nat answer
  | ResetMfa row
  | ResetLanded nat answer
  | ToggleTenantForm
  | CancelTenant
  | EditTenant string string
  | SubmitTenant
  | TenantLanded nat answer

definition reset_question :: "row \<Rightarrow> string" where
  "reset_question u = ''Reset MFA for '' @ js_string (fld u ''email'') @ ''?''"

definition failed_or :: "api_error \<Rightarrow> string \<Rightarrow> api_call effect list" where
  "failed_or e fallback = [ToastErr (jor (err_detail e) (JStr fallback))]"

definition user_landed :: "answer \<Rightarrow> settings_state \<Rightarrow> settings_state \<times> api_call effect list" where
  "user_landed a s = (case a of
     Answered d \<Rightarrow> (s\<lparr>newUser := BLANK_USER, showUserForm := False, creatingUser := False\<rparr>,
       [ToastOk ''User created'', Invalidate [JStr ''users'']])
   | Failed e \<Rightarrow> (s\<lparr>creatingUser := False\<rparr>, failed_or e ''Failed to create user''))"

definition reset_landed :: "answer \<Rightarrow> settings_state \<Rightarrow> settings_state \<times> api_call effect list" where
  "reset_landed a s = (s\<lparr>resetting := False\<rparr>, case a of
     Answered d \<Rightarrow> [ToastOk (''MFA reset '' @ mdash @ '' user can re-enroll at next sign-in''), Invalidate [JStr ''users'']]
   | Failed e \<Rightarrow> failed_or e ''Failed to reset MFA'')"

definition tenant_landed :: "answer \<Rightarrow> settings_state \<Rightarrow> settings_state \<times> api_call effect list" where
  "tenant_landed a s = (case a of
     Answered d \<Rightarrow> (s\<lparr>newTenant := BLANK_TENANT, showTenantForm := False, creatingTenant := False\<rparr>,
       [ToastOk ''Organization created'', Invalidate [JStr ''tenants'']])
   | Failed e \<Rightarrow> (s\<lparr>creatingTenant := False\<rparr>, failed_or e ''Failed to create organization''))"

fun settings_step ::
  "(string \<Rightarrow> bool) \<Rightarrow> settings_event \<Rightarrow> settings_state \<Rightarrow> settings_state \<times> api_call effect list" where
  "settings_step confirm GoAccount s = (s, [Navigate ''/account''])"
| "settings_step confirm ToggleUserForm s = (s\<lparr>showUserForm := \<not> showUserForm s\<rparr>, [])"
| "settings_step confirm CancelUser s = (s\<lparr>showUserForm := False\<rparr>, [])"
| "settings_step confirm (EditUser k v) s = (s\<lparr>newUser := upd (newUser s) k (JStr v)\<rparr>, [])"
| "settings_step confirm SubmitUser s =
     (s\<lparr>creatingUser := True, user_calls := user_calls s @ [JObj (newUser s)]\<rparr>,
      [Call (AuthCall (CreateUser (JObj (newUser s))))])"
| "settings_step confirm (UserLanded i a) s =
     (if i < length (user_calls s)
      then user_landed a (s\<lparr>user_calls := drop_nth i (user_calls s)\<rparr>) else (s, []))"
| "settings_step confirm (ResetMfa u) s =
     (if confirm (reset_question u)
      then (s\<lparr>resetting := True, reset_calls := reset_calls s @ [row_id u]\<rparr>,
            [Call (AuthCall (MfaResetUser (row_id u)))])
      else (s, []))"
| "settings_step confirm (ResetLanded i a) s =
     (if i < length (reset_calls s)
      then reset_landed a (s\<lparr>reset_calls := drop_nth i (reset_calls s)\<rparr>) else (s, []))"
| "settings_step confirm ToggleTenantForm s = (s\<lparr>showTenantForm := \<not> showTenantForm s\<rparr>, [])"
| "settings_step confirm CancelTenant s = (s\<lparr>showTenantForm := False\<rparr>, [])"
| "settings_step confirm (EditTenant k v) s = (s\<lparr>newTenant := upd (newTenant s) k (JStr v)\<rparr>, [])"
| "settings_step confirm SubmitTenant s =
     (s\<lparr>creatingTenant := True, tenant_calls := tenant_calls s @ [JObj (newTenant s)]\<rparr>,
      [Call (IntelCall (CreateTenant (JObj (newTenant s))))])"
| "settings_step confirm (TenantLanded i a) s =
     (if i < length (tenant_calls s)
      then tenant_landed a (s\<lparr>tenant_calls := drop_nth i (tenant_calls s)\<rparr>) else (s, []))"

text \<open>The queries of the page; those on users and organizations are enabled for administrators only.\<close>

definition isAdmin :: "jsval \<Rightarrow> bool" where
  "isAdmin rl \<longleftrightarrow> rl = JStr ''admin''"

definition settings_queries :: "jsval \<Rightarrow> (string \<times> api_call) list" where
  "settings_queries rl =
     [(''me'', AuthCall Me), (''health'', AuthCall Health)] @
     (if isAdmin rl then [(''users'', AuthCall ListUsers), (''tenants'', IntelCall ListTenants)] else [])"

section \<open>The rendered page\<close>

definition RoleBadge :: "jsval \<Rightarrow> 'e ui" where
  "RoleBadge r = Txt (replace_first (CHR ''_'') (CHR '' '') (js_string r))"

definition profile_view :: "jsval \<Rightarrow> settings_event ui list" where
  "profile_view me =
     [Txt ''Profile'', Val (jor (opt_fld me ''full_name'') (JStr ''Analyst''))] @
     shown (truthy (opt_fld me ''role'')) [RoleBadge (opt_fld me ''role'')] @
     [Val (opt_fld me ''email''), Txt (if truthy (opt_fld me ''mfa_enabled'') then ''2FA on'' else ''2FA off''),
      Btn ''Manage account security'' False GoAccount]"

definition ROLE_OPTIONS :: "(string \<times> string) list" where
  "ROLE_OPTIONS = [(''admin'', ''Admin''), (''analyst'', ''Analyst''), (''customer_user'', ''Customer user''),
     (''viewer'', ''Viewer'')]"

definition row_text :: "row \<Rightarrow> string \<Rightarrow> string" where
  "row_text f k = js_string (fld f k)"

definition user_form :: "settings_state \<Rightarrow> settings_event ui" where
  "user_form s = Form SubmitUser
     [Field ''Full name'' (row_text (newUser s) ''full_name'') False (EditUser ''full_name''),
      Field ''Email'' (row_text (newUser s) ''email'') True (EditUser ''email''),
      Field ''Temporary password'' (row_text (newUser s) ''password'') True (EditUser ''password''),
      Select (row_text (newUser s) ''role'') ROLE_OPTIONS (EditUser ''role''),
      Btn ''Cancel'' False CancelUser, Submit ''Create user'' (creatingUser s)]"

definition user_row :: "jsval \<Rightarrow> settings_state \<Rightarrow> row \<Rightarrow> settings_event ui" where
  "user_row me s u = Box
     ([Val (jor (fld u ''full_name'') (fld u ''email''))] @
      shown (\<not> truthy (fld u ''is_active'')) [Txt ''(disabled)''] @
      [Val (fld u ''email''), RoleBadge (fld u ''role'')] @
      shown (truthy (fld u ''mfa_enabled'') \<and> fld u ''id'' \<noteq> opt_fld me ''id'')
        [Btn ''Reset MFA'' (resetting s) (ResetMfa u)])"

definition team_view :: "jsval \<Rightarrow> row list \<Rightarrow> settings_state \<Rightarrow> settings_event ui list" where
  "team_view me users s =
     [Txt (''Team members ('' @ nat_dec (length users) @ '')''), Btn ''Add user'' False ToggleUserForm] @
     shown (showUserForm s) [user_form s] @
     map (user_row me s) users @ shown (users = []) [Txt ''No users yet.'']"

definition tenant_form :: "settings_state \<Rightarrow> settings_event ui" where
  "tenant_form s = Form SubmitTenant
     [Field ''Code (e.g. acme)'' (row_text (newTenant s) ''code'') True (EditTenant ''code''),
      Field ''Name'' (row_text (newTenant s) ''name'') True (EditTenant ''name''),
      Field ''Description (optional)'' (row_text (newTenant s) ''description'') False (EditTenant ''description''),
      Btn ''Cancel'' False CancelTenant, Submit ''Create'' (creatingTenant s)]"

definition tenant_row :: "row \<Rightarrow> 'e ui" where
  "tenant_row t = Box [Val (fld t ''name''), Val (jor (fld t ''description'') (fld t ''code'')), Val (fld t ''code'')]"

definition tenants_view :: "row list \<Rightarrow> settings_state \<Rightarrow> settings_event ui list" where
  "tenants_view tenants s =
     [Txt (''Organizations ('' @ nat_dec (length tenants) @ '')''), Btn ''Add organization'' False ToggleTenantForm] @
     shown (showTenantForm s) [tenant_form s] @
     map tenant_row tenants @ shown (tenants = []) [Txt ''No organizations yet.'']"

definition health_check :: "string \<times> jsval \<Rightarrow> 'e ui" where
  "health_check c = Box [Txt (fst c), Txt (if snd c = JStr ''ok'' then ''OK'' else ''Error'')]"

definition status_panel :: "jsval \<Rightarrow> 'e ui list" where
  "status_panel health =
     [Txt ''System status'', Val (jor (opt_fld health ''status'') (JStr (''checking'' @ ellipsis)))] @
     map health_check (as_row (jor (opt_fld health ''checks'') (JObj [])))"

definition settings_view ::
  "jsval \<Rightarrow> jsval \<Rightarrow> row list \<Rightarrow> row list \<Rightarrow> jsval \<Rightarrow> settings_state \<Rightarrow> settings_event ui list" where
  "settings_view rl me users tenants health s =
     [Txt ''Settings'', Txt ''Profile, team access, organizations, and system status''] @
     profile_view me @
     shown (isAdmin rl) (team_view me users s) @
     shown (isAdmin rl) (tenants_view tenants s) @
     status_panel health"

section \<open>Clicks\<close>

type_synonym settings_data = "jsval \<times> row list \<times> row list \<times> jsval"

definition shown_settings :: "jsval \<Rightarrow> settings_data \<Rightarrow> settings_state \<Rightarrow> settings_event ui list" where
  "shown_settings rl d s = (case d of (me, users, tenants, health) \<Rightarrow> settings_view rl me users tenants health s)"

lemma clicks_RoleBadge [simp]: "clicks (RoleBadge r) = []"
  by (simp add: RoleBadge_def)

lemma clicks_quiet_rows: "page_clicks (map tenant_row ts) = []" "page_clicks (map health_check hs) = []"
  by (simp_all add: page_clicks_def tenant_row_def health_check_def o_def)

lemma clicks_user_form: "e \<in> set (clicks (user_form s)) \<longleftrightarrow> e = CancelUser \<or>
    e = SubmitUser \<and> \<not> creatingUser s \<and> row_text (newUser s) ''email'' \<noteq> [] \<and> row_text (newUser s) ''password'' \<noteq> []"
  by (auto simp: user_form_def submittable_def)

lemma clicks_tenant_form: "e \<in> set (clicks (tenant_form s)) \<longleftrightarrow> e = CancelTenant \<or>
    e = SubmitTenant \<and> \<not> creatingTenant s \<and> row_text (newTenant s) ''code'' \<noteq> [] \<and> row_text (newTenant s) ''name'' \<noteq> []"
  by (auto simp: tenant_form_def submittable_def)

lemma clicks_user_row: "e \<in> set (clicks (user_row me s u)) \<longleftrightarrow>
    e = ResetMfa u \<and> \<not> resetting s \<and> truthy (fld u ''mfa_enabled'') \<and> fld u ''id'' \<noteq> opt_fld me ''id''"
  by (auto simp: user_row_def)

lemma clicks_settings: "e \<in> set (page_clicks (settings_view rl me users tenants health s)) \<longleftrightarrow>
    e = GoAccount \<or> isAdmin rl \<and>
     (e = ToggleUserForm \<or> showUserForm s \<and> e \<in> set (clicks (user_form s)) \<or>
      (\<exists>u \<in> set users. e \<in> set (clicks (user_row me s u))) \<or>
      e = ToggleTenantForm \<or> showTenantForm s \<and> e \<in> set (clicks (tenant_form s)))"
  by (auto simp: settings_view_def profile_view_def team_view_def tenants_view_def status_panel_def
      clicks_quiet_rows page_clicks_map)

definition settings_allowed :: "jsval \<Rightarrow> settings_data \<times> settings_event \<Rightarrow> settings_state \<Rightarrow> bool" where
  "settings_allowed rl ce s = (case snd ce of
     EditUser k v \<Rightarrow> isAdmin rl \<and> showUserForm s \<and>
       (k \<in> {''full_name'', ''email'', ''password''} \<or> k = ''role'' \<and> v \<in> set (map fst ROLE_OPTIONS))
   | EditTenant k v \<Rightarrow> isAdmin rl \<and> showTenantForm s \<and> k \<in> {''code'', ''name'', ''description''}
   | UserLanded i a \<Rightarrow> i < length (user_calls s)
   | ResetLanded i a \<Rightarrow> i < length (reset_calls s)
   | TenantLanded i a \<Rightarrow> i < length (tenant_calls s)
   | _ \<Rightarrow> snd ce \<in> set (page_clicks (shown_settings rl (fst ce) s)))"

abbreviation settings_next ::
  "(string \<Rightarrow> bool) \<Rightarrow> settings_data \<times> settings_event \<Rightarrow> settings_state \<Rightarrow> settings_state" where
  "settings_next confirm ce s \<equiv> fst (settings_step confirm (snd ce) s)"

abbreviation settings_reach :: "jsval \<Rightarrow> (string \<Rightarrow> bool) \<Rightarrow> settings_state \<Rightarrow> bool" where
  "settings_reach rl confirm \<equiv>
     reach (\<lambda>s. s = init_settings) (settings_allowed rl) (settings_next confirm)"

lemma landed_settings [simp]:
  "creatingUser (fst (user_landed a s)) = False" "user_calls (fst (user_landed a s)) = user_calls s"
  "resetting (fst (user_landed a s)) = resetting s" "reset_calls (fst (user_landed a s)) = reset_calls s"
  "creatingTenant (fst (user_landed a s)) = creatingTenant s" "tenant_calls (fst (user_landed a s)) = tenant_calls s"
  "newTenant (fst (user_landed a s)) = newTenant s"
  "creatingTenant (fst (tenant_landed a s)) = False" "tenant_calls (fst (tenant_landed a s)) = tenant_calls s"
  "resetting (fst (tenant_landed a s)) = resetting s" "reset_calls (fst (tenant_landed a s)) = reset_calls s"
  "creatingUser (fst (tenant_landed a s)) = creatingUser s" "user_calls (fst (tenant_landed a s)) = user_calls s"
  "newUser (fst (tenant_landed a s)) = newUser s"
  "fst (reset_landed a s) = s\<lparr>resetting := False\<rparr>"
  "newUser (fst (user_landed a s)) \<in> {newUser s, BLANK_USER}"
  "newTenant (fst (tenant_landed a s)) \<in> {newTenant s, BLANK_TENANT}"
  by (cases a; simp add: user_landed_def tenant_landed_def reset_landed_def)+

section \<open>One call of a kind at a time\<close>

datatype admin_call = CreatesUser | ResetsMfa | CreatesTenant

fun pending_flag :: "admin_call \<Rightarrow> settings_state \<Rightarrow> bool" where
  "pending_flag CreatesUser s = creatingUser s"
| "pending_flag ResetsMfa s = resetting s"
| "pending_flag CreatesTenant s = creatingTenant s"

fun pending_calls :: "admin_call \<Rightarrow> settings_state \<Rightarrow> nat" where
  "pending_calls CreatesUser s = length (user_calls s)"
| "pending_calls ResetsMfa s = length (reset_calls s)"
| "pending_calls CreatesTenant s = length (tenant_calls s)"

definition settings_launches ::
  "(string \<Rightarrow> bool) \<Rightarrow> admin_call \<Rightarrow> settings_data \<times> settings_event \<Rightarrow> settings_state \<Rightarrow> bool" where
  "settings_launches confirm k ce s \<longleftrightarrow> (case snd ce of
     SubmitUser \<Rightarrow> k = CreatesUser | ResetMfa u \<Rightarrow> k = ResetsMfa \<and> confirm (reset_question u)
   | SubmitTenant \<Rightarrow> k = CreatesTenant | _ \<Rightarrow> False)"

definition settings_lands :: "admin_call \<Rightarrow> settings_data \<times> settings_event \<Rightarrow> bool" where
  "settings_lands k ce \<longleftrightarrow> (case snd ce of
     UserLanded i a \<Rightarrow> k = CreatesUser | ResetLanded i a \<Rightarrow> k = ResetsMfa
   | TenantLanded i a \<Rightarrow> k = CreatesTenant | _ \<Rightarrow> False)"

lemma allowed_not_busy:
  assumes "settings_allowed rl ce s" "settings_launches confirm k ce s"
  shows "\<not> pending_flag k s"
  using assms
  by (cases "snd ce"; cases k)
    (auto simp: settings_launches_def settings_allowed_def shown_settings_def clicks_settings clicks_user_form
      clicks_tenant_form clicks_user_row split: prod.splits)

interpretation admin_flight: busy_flag "\<lambda>s. s = init_settings" "settings_allowed rl" "settings_next confirm"
  "pending_flag k" "pending_calls k" "settings_launches confirm k" "settings_lands k"
  for rl :: jsval and confirm :: "string \<Rightarrow> bool" and k :: admin_call
proof unfold_locales
  fix ce :: "settings_data \<times> settings_event" and s
  assume a: "settings_allowed rl ce s"
  show "settings_launches confirm k ce s \<Longrightarrow> \<not> pending_flag k s \<and> pending_flag k (settings_next confirm ce s) \<and>
      pending_calls k (settings_next confirm ce s) = Suc (pending_calls k s)"
    using allowed_not_busy [OF a, of confirm k] by (cases "snd ce"; cases k) (simp_all add: settings_launches_def)
  show "settings_lands k ce \<Longrightarrow> \<not> pending_flag k (settings_next confirm ce s) \<and>
      Suc (pending_calls k (settings_next confirm ce s)) = pending_calls k s"
    using a by (cases "snd ce"; cases k) (simp_all add: settings_lands_def settings_allowed_def length_drop_nth)
  show "\<not> settings_launches confirm k ce s \<Longrightarrow> \<not> settings_lands k ce \<Longrightarrow>
      pending_flag k (settings_next confirm ce s) = pending_flag k s \<and>
      pending_calls k (settings_next confirm ce s) = pending_calls k s"
    by (cases "snd ce"; cases k) (simp_all add: settings_launches_def settings_lands_def)
qed (cases k; simp add: init_settings_def)+

lemma pending_exact:
  assumes "settings_reach rl confirm s"
  shows "user_calls s = [] \<longleftrightarrow> \<not> creatingUser s" "reset_calls s = [] \<longleftrightarrow> \<not> resetting s"
    "tenant_calls s = [] \<longleftrightarrow> \<not> creatingTenant s" "length (user_calls s) \<le> 1"
  using admin_flight.flag_exact [OF assms, of CreatesUser] admin_flight.flag_exact [OF assms, of ResetsMfa]
    admin_flight.flag_exact [OF assms, of CreatesTenant]
  by (auto split: if_splits)

section \<open>The shape of the forms\<close>

definition is_user_body :: "row \<Rightarrow> bool" where
  "is_user_body f \<longleftrightarrow> (\<exists>e p n r. f = [(''email'', JStr e), (''password'', JStr p), (''full_name'', JStr n), (''role'', JStr r)] \<and>
     r \<in> set (map fst ROLE_OPTIONS))"

definition is_tenant_body :: "row \<Rightarrow> bool" where
  "is_tenant_body f \<longleftrightarrow> (\<exists>c n d. f = [(''code'', JStr c), (''name'', JStr n), (''description'', JStr d)])"

lemma blank_bodies [simp]: "is_user_body BLANK_USER" "is_tenant_body BLANK_TENANT"
  by (simp_all add: is_user_body_def is_tenant_body_def BLANK_USER_def BLANK_TENANT_def ROLE_OPTIONS_def)

lemma user_body_upd:
  assumes "is_user_body f" "k \<in> {''full_name'', ''email'', ''password''} \<or> k = ''role'' \<and> v \<in> set (map fst ROLE_OPTIONS)"
  shows "is_user_body (upd f k (JStr v))"
  using assms unfolding is_user_body_def by (elim exE conjE disjE insertE) simp_all

lemma tenant_body_upd:
  assumes "is_tenant_body f" "k \<in> {''code'', ''name'', ''description''}"
  shows "is_tenant_body (upd f k (JStr v))"
  using assms unfolding is_tenant_body_def by (elim exE insertE) simp_all

lemma bodies_kept:
  assumes "settings_reach rl confirm s"
  shows "is_user_body (newUser s) \<and> is_tenant_body (newTenant s)"
  using assms
proof (rule reach_invariant)
  fix s and ce :: "settings_data \<times> settings_event"
  assume I: "is_user_body (newUser s) \<and> is_tenant_body (newTenant s)" and a: "settings_allowed rl ce s"
  show "is_user_body (newUser (settings_next confirm ce s)) \<and> is_tenant_body (newTenant (settings_next confirm ce s))"
  proof (cases "snd ce")
    case (EditUser k v)
    with I a user_body_upd [of "newUser s" k v] show ?thesis by (simp add: settings_allowed_def)
  next
    case (EditTenant k v)
    with I a tenant_body_upd [of "newTenant s" k v] show ?thesis by (simp add: settings_allowed_def)
  next
    case (UserLanded i ans)
    with I landed_settings(16) [of ans "s\<lparr>user_calls := drop_nth i (user_calls s)\<rparr>"] show ?thesis by auto
  next
    case (TenantLanded i ans)
    with I landed_settings(17) [of ans "s\<lparr>tenant_calls := drop_nth i (tenant_calls s)\<rparr>"] show ?thesis by auto
  qed (use I in simp_all)
qed (simp add: init_settings_def)

section \<open>Properties\<close>

text \<open>C25. The administration calls of the settings page are well formed: whatever was typed, a created user is
  sent as email, password, full name and one of the four roles, an organization as code, name and
  description, in this order and all of them texts, the fields the browser requires not empty.\<close>

theorem settings_bodies_typed:
  assumes "settings_reach rl confirm s" "e \<in> set (page_clicks (settings_view rl me users tenants health s))"
    and "c \<in> set (calls_of (snd (settings_step confirm e s)))"
  shows "(\<exists>em pw n r. em \<noteq> [] \<and> pw \<noteq> [] \<and> r \<in> {''admin'', ''analyst'', ''customer_user'', ''viewer''} \<and>
      c = AuthCall (CreateUser (JObj [(''email'', JStr em), (''password'', JStr pw), (''full_name'', JStr n), (''role'', JStr r)]))) \<or>
    (\<exists>u \<in> set users. c = AuthCall (MfaResetUser (row_id u))) \<or>
    (\<exists>cd n d. cd \<noteq> [] \<and> n \<noteq> [] \<and>
      c = IntelCall (CreateTenant (JObj [(''code'', JStr cd), (''name'', JStr n), (''description'', JStr d)])))"
proof -
  obtain em pw n r where u: "newUser s = [(''email'', JStr em), (''password'', JStr pw), (''full_name'', JStr n), (''role'', JStr r)]"
    "r \<in> {''admin'', ''analyst'', ''customer_user'', ''viewer''}"
    using bodies_kept [OF assms(1)] by (auto simp: is_user_body_def ROLE_OPTIONS_def)
  obtain cd tn d where t: "newTenant s = [(''code'', JStr cd), (''name'', JStr tn), (''description'', JStr d)]"
    using bodies_kept [OF assms(1)] by (auto simp: is_tenant_body_def)
  from assms(2,3) consider "e = SubmitUser" "em \<noteq> []" "pw \<noteq> []"
    | x where "e = ResetMfa x" "x \<in> set users" | "e = SubmitTenant" "cd \<noteq> []" "tn \<noteq> []"
    by (auto simp: clicks_settings clicks_user_form clicks_tenant_form clicks_user_row row_text_def u t)
  then show ?thesis
    by cases (use assms(3) u t in \<open>auto split: if_splits\<close>)
qed

definition filled_page :: settings_state where
  "filled_page = init_settings\<lparr>showUserForm := True,
     newUser := upd (upd BLANK_USER ''email'' (JStr ''a'')) ''password'' (JStr ''b'')\<rparr>"

lemma filled_page_reached: "settings_reach (JStr ''admin'') confirm filled_page"
proof -
  let ?es = "map (Pair (JNull, [], [], JNull)) [ToggleUserForm, EditUser ''email'' ''a'', EditUser ''password'' ''b'']"
  have "settings_reach (JStr ''admin'') confirm init_settings" by (rule reach_start) simp
  then have "settings_reach (JStr ''admin'') confirm (run (settings_next confirm) ?es init_settings)"
    by (rule legal_reach) (simp add: settings_allowed_def shown_settings_def clicks_settings isAdmin_def init_settings_def)
  then show ?thesis by (simp add: filled_page_def init_settings_def)
qed

lemma filled_page_submit:
  "SubmitUser \<in> set (page_clicks (settings_view (JStr ''admin'') JNull [] [] JNull filled_page))"
  unfolding clicks_settings clicks_user_form
  by (simp add: filled_page_def init_settings_def isAdmin_def row_text_def)

theorem settings_bodies_typed_witness:
  "\<exists>em pw n r. JObj (newUser filled_page) =
     JObj [(''email'', JStr em), (''password'', JStr pw), (''full_name'', JStr n), (''role'', JStr r)] \<and> em \<noteq> []"
proof -
  have l: "AuthCall (CreateUser (JObj (newUser filled_page))) \<in>
      set (calls_of (snd (settings_step (\<lambda>q. True) SubmitUser filled_page)))"
    by simp
  from settings_bodies_typed [OF filled_page_reached filled_page_submit l] show ?thesis by auto
qed

text \<open>C8. Only an administrator administers from the settings page, one call of a kind at a time: on a reachable
  page of another role no click sends anything, and users and organizations are not even asked for;
  an administrator's second click on a form or a reset is not offered while the first is
  unanswered; the second factor is reset only of a listed user who has one, never of the user whose
  profile the page has (\<open>me\<close>), and only after the dialog naming the email was confirmed. As
  long as the profile is missing, unanswered or refused, the reset is offered on every listed user
  with a second factor and an id, the administrator's own row included.\<close>

theorem settings_admin_only:
  assumes "settings_reach rl confirm s" "e \<in> set (page_clicks (settings_view rl me users tenants health s))"
    and "c \<in> set (calls_of (snd (settings_step confirm e s)))"
  shows "rl = JStr ''admin'' \<and>
    (c = AuthCall (CreateUser d) \<longrightarrow> user_calls s = []) \<and>
    (c = IntelCall (CreateTenant d) \<longrightarrow> tenant_calls s = []) \<and>
    (c = AuthCall (MfaResetUser i) \<longrightarrow> reset_calls s = [] \<and>
       (\<exists>u \<in> set users. i = row_id u \<and> truthy (fld u ''mfa_enabled'') \<and> fld u ''id'' \<noteq> opt_fld me ''id'' \<and>
          confirm (reset_question u))) \<and>
    (rl' \<noteq> JStr ''admin'' \<longrightarrow> map snd (settings_queries rl') = [AuthCall Me, AuthCall Health]) \<and>
    (\<forall>u \<in> set users. truthy (fld u ''mfa_enabled'') \<and> fld u ''id'' \<noteq> JUndef \<and> reset_calls s = [] \<longrightarrow>
       ResetMfa u \<in> set (page_clicks (settings_view (JStr ''admin'') JUndef users tenants health s)))"
proof -
  have own: "\<forall>u \<in> set users. truthy (fld u ''mfa_enabled'') \<and> fld u ''id'' \<noteq> JUndef \<and> reset_calls s = [] \<longrightarrow>
      ResetMfa u \<in> set (page_clicks (settings_view (JStr ''admin'') JUndef users tenants health s))"
    using pending_exact [OF assms(1)] by (auto simp: clicks_settings clicks_user_row isAdmin_def)
  note flags = pending_exact [OF assms(1)]
  have q: "rl' \<noteq> JStr ''admin'' \<longrightarrow> map snd (settings_queries rl') = [AuthCall Me, AuthCall Health]"
    by (simp add: settings_queries_def isAdmin_def)
  from assms(2,3) consider "e = SubmitUser" "isAdmin rl" "\<not> creatingUser s"
    | u where "e = ResetMfa u" "isAdmin rl" "u \<in> set users" "\<not> resetting s" "truthy (fld u ''mfa_enabled'')"
        "fld u ''id'' \<noteq> opt_fld me ''id''"
    | "e = SubmitTenant" "isAdmin rl" "\<not> creatingTenant s"
    by (auto simp: clicks_settings clicks_user_form clicks_tenant_form clicks_user_row)
  then show ?thesis
    by cases (use assms(3) q own flags in \<open>auto simp: isAdmin_def split: if_splits\<close>)
qed

theorem settings_admin_only_witness:
  "\<exists>u \<in> set [[(''id'', JStr ''u7''), (''mfa_enabled'', JBool True)]]. ''u7'' = row_id u \<and> truthy (fld u ''mfa_enabled'')"
proof -
  let ?u = "[(''id'', JStr ''u7''), (''mfa_enabled'', JBool True)]"
  have r: "settings_reach (JStr ''admin'') (\<lambda>q. True) init_settings" by (rule reach_start) simp
  have c: "ResetMfa ?u \<in> set (page_clicks (settings_view (JStr ''admin'') (JObj [(''id'', JStr ''u1'')]) [?u] [] JNull init_settings))"
    unfolding clicks_settings by (simp add: clicks_user_row isAdmin_def init_settings_def)
  have l: "AuthCall (MfaResetUser ''u7'') \<in> set (calls_of (snd (settings_step (\<lambda>q. True) (ResetMfa ?u) init_settings)))"
    by (simp add: row_id_def)
  show ?thesis using settings_admin_only [OF r c l, of JNull "''u7''"] by blast
qed

text \<open>A created user's temporary password does not stay on the page: when the server accepts the user,
  the form is blank and closed and the list is asked for again; when it refuses, everything typed is
  kept in the open form, the server's reason is shown if it gives one, and the form can be
  submitted again.\<close>

theorem user_form_settled:
  assumes "settings_reach rl confirm s" "i < length (user_calls s)"
    and "s1 = fst (settings_step confirm (UserLanded i (Answered d)) s)"
    and "s2 = fst (settings_step confirm (UserLanded i (Failed err)) s)"
  shows "newUser s1 = BLANK_USER \<and> \<not> showUserForm s1 \<and> fld (newUser s1) ''password'' = JStr [] \<and>
    Invalidate [JStr ''users''] \<in> set (snd (settings_step confirm (UserLanded i (Answered d)) s)) \<and>
    newUser s2 = newUser s \<and> showUserForm s2 = showUserForm s \<and> \<not> creatingUser s2 \<and> user_calls s2 = [] \<and>
    snd (settings_step confirm (UserLanded i (Failed err)) s) =
      [ToastErr (if truthy (err_detail err) then err_detail err else JStr ''Failed to create user'')]"
proof -
  have "length (user_calls s) \<le> 1" using pending_exact(4) [OF assms(1)] .
  with length_drop_nth [OF assms(2)] have "length (drop_nth i (user_calls s)) = 0" by linarith
  then have "drop_nth i (user_calls s) = []" by simp
  with assms(2) show ?thesis
    by (simp add: assms(3,4) user_landed_def failed_or_def jor_def BLANK_USER_def)
qed

theorem user_form_settled_witness:
  "newUser (fst (settings_step (\<lambda>q. True) (UserLanded 0 (Answered JNull))
     (fst (settings_step (\<lambda>q. True) SubmitUser filled_page)))) = BLANK_USER"
proof -
  have "settings_allowed (JStr ''admin'') ((JNull, [], [], JNull), SubmitUser) filled_page"
    using filled_page_submit by (simp add: settings_allowed_def shown_settings_def)
  with filled_page_reached
  have "settings_reach (JStr ''admin'') (\<lambda>q. True)
      (settings_next (\<lambda>q. True) ((JNull, [], [], JNull), SubmitUser) filled_page)"
    by (rule reach_step)
  then have r: "settings_reach (JStr ''admin'') (\<lambda>q. True) (fst (settings_step (\<lambda>q. True) SubmitUser filled_page))"
    by (simp only: snd_conv)
  have "0 < length (user_calls (fst (settings_step (\<lambda>q. True) SubmitUser filled_page)))" by simp
  from user_form_settled [OF r this refl refl, of JNull] show ?thesis by blast
qed

end
