(* ===== verification/Forensics.thy ===== *)
theory Forensics
  imports ApiClient Async Json
begin

text \<open>
  The forensics page, \<open>frontend/src/pages/Forensics.tsx\<close>: the enrolled endpoints with the age of their
  last contact, the collection of an artifact from the selected one, and the rows a finished flow has
  collected. The answers of the queries and the clock are one record; \<open>Number\<close> and the browser's date
  texts are arguments. Ages are computed exactly, in microseconds, where the page computes in doubles.
\<close>

section \<open>State and handlers\<close>

record flow_view =
  flowId :: jsval
  artifactShown :: jsval
  artifactChoices :: "jsval list"

record forensics_state =
  fx_selected :: jsval
  fx_artifact :: string
  fx_collecting :: bool
  fx_showDeploy :: bool
  fx_viewFlow :: "flow_view option"
  fx_calls :: "(jsval \<times> string) list"

definition init_forensics :: forensics_state where
  "init_forensics = \<lparr>fx_selected = JNull, fx_artifact = [], fx_collecting = False, fx_showDeploy = False,
     fx_viewFlow = None, fx_calls = []\<rparr>"

datatype forensics_event =
    ToggleDeploy
  | CopyDeploy string
  | RefreshClients
  | SelectClient row
  | TypeArtifact string
  | PickArtifact string
  | SubmitCollect
  | CollectLanded nat answer
  | OpenFlow jsval jsval "jsval list"
  | PickResult jsval

definition client_id :: "forensics_state \<Rightarrow> jsval" where
  "client_id s = opt_fld (fx_selected s) ''client_id''"

definition collect_landed :: "jsval \<times> string \<Rightarrow> answer \<Rightarrow> forensics_state \<Rightarrow> forensics_state \<times> api_call effect list" where
  "collect_landed c a s = (case a of
     Answered d \<Rightarrow> (s\<lparr>fx_artifact := [], fx_collecting := False\<rparr>,
       [ToastOk (''Collection started: '' @ snd c), Invalidate [JStr ''forensics-flows'', fst c]])
   | Failed e \<Rightarrow> (s\<lparr>fx_collecting := False\<rparr>, [ToastErr (jor (err_detail e) (JStr ''Collection failed''))]))"

fun forensics_step :: "forensics_event \<Rightarrow> forensics_state \<Rightarrow> forensics_state \<times> api_call effect list" where
  "forensics_step ToggleDeploy s = (s\<lparr>fx_showDeploy := \<not> fx_showDeploy s\<rparr>, [])"
| "forensics_step (CopyDeploy cmd) s = (s, [CopyText cmd, ToastOk ''Command copied to clipboard''])"
| "forensics_step RefreshClients s = (s, [Refetch ''forensics-clients''])"
| "forensics_step (SelectClient c) s = (s\<lparr>fx_selected := JObj c, fx_viewFlow := None\<rparr>, [])"
| "forensics_step (TypeArtifact v) s = (s\<lparr>fx_artifact := v\<rparr>, [])"
| "forensics_step (PickArtifact v) s = (s\<lparr>fx_artifact := v\<rparr>, [])"
| "forensics_step SubmitCollect s =
     (if \<not> truthy (fx_selected s) \<or> trim (fx_artifact s) = [] then (s, [])
      else (s\<lparr>fx_collecting := True, fx_calls := fx_calls s @ [(client_id s, trim (fx_artifact s))]\<rparr>,
            [Call (IntelCall (ForensicsCollect (js_string (client_id s)) (trim (fx_artifact s)) JUndef))]))"
| "forensics_step (CollectLanded i a) s =
     (if i < length (fx_calls s)
      then collect_landed (fx_calls s ! i) a (s\<lparr>fx_calls := drop_nth i (fx_calls s)\<rparr>) else (s, []))"
| "forensics_step (OpenFlow i a as) s =
     (if truthy a then (s\<lparr>fx_viewFlow := Some \<lparr>flowId = i, artifactShown = a, artifactChoices = as\<rparr>\<rparr>, [])
      else (s, []))"
| "forensics_step (PickResult a) s =
     (s\<lparr>fx_viewFlow := map_option (\<lambda>vf. vf\<lparr>artifactShown := a\<rparr>) (fx_viewFlow s)\<rparr>, [])"

text \<open>The enabled queries with their keys.\<close>

definition forensics_queries :: "forensics_state \<Rightarrow> (jsval list \<times> api_call) list" where
  "forensics_queries s =
     [([JStr ''forensics-clients''], IntelCall ForensicsClients)] @
     (if fx_showDeploy s then [([JStr ''agent-deploy-command''], IntelCall AgentDeployCommand)] else []) @
     (if truthy (fx_selected s)
      then [([JStr ''forensics-flows'', client_id s], IntelCall (ForensicsFlows (js_string (client_id s))))] else []) @
     (case fx_viewFlow s of
        Some vf \<Rightarrow>
          if truthy (fx_selected s)
          then [([JStr ''forensics-results'', client_id s, flowId vf, artifactShown vf],
                 IntelCall (ForensicsResults (js_string (client_id s)) (js_string (flowId vf)) (js_string (artifactShown vf))))]
          else []
      | None \<Rightarrow> [])"

section \<open>Texts\<close>

definition SUGGESTED_ARTIFACTS :: "(string \<times> string list) list" where
  "SUGGESTED_ARTIFACTS =
     [(''windows'', [''Windows.System.Pstree'', ''Windows.Network.Netstat'', ''Windows.Sys.Users'',
        ''Windows.KapeFiles.Targets'', ''Windows.Forensics.Timeline'']),
      (''linux'', [''Linux.Sys.Pslist'', ''Linux.Network.Netstat'', ''Linux.Sys.Users'', ''Linux.Sys.Crontab'',
        ''Linux.Search.FileFinder''])]"

definition os_of :: "jsval \<Rightarrow> string" where
  "os_of selected =
     (if str_includes (to_lower (js_string (jor (opt_fld (opt_fld selected ''os_info'') ''system'') (JStr [])))) ''win''
      then ''windows'' else ''linux'')"

definition suggestions :: "jsval \<Rightarrow> string list" where
  "suggestions selected = (case map_of SUGGESTED_ARTIFACTS (os_of selected) of Some as \<Rightarrow> as | None \<Rightarrow> [])"

text \<open>The age in microseconds of a contact, and the label with the online flag; the clock is in milliseconds.\<close>

definition age_us :: "int \<Rightarrow> int \<Rightarrow> int" where
  "age_us now n = 1000 * now - n"

definition lastSeen :: "(int \<Rightarrow> string) \<Rightarrow> int \<Rightarrow> int \<Rightarrow> string \<times> bool" where
  "lastSeen date_text now n =
     (if n = 0 then (''never'', False)
      else
        let age = age_us now n in
        if age < 2 * 60000000 then (''online'', True)
        else if age < 60 * 60000000 then (int_dec ((age + 30000000) div 60000000) @ '' min ago'', False)
        else if age < 1440 * 60000000 then (int_dec ((age + 1800000000) div 3600000000) @ '' h ago'', False)
        else (date_text n, False))"

fun renderCell :: "jsval \<Rightarrow> string" where
  "renderCell JUndef = []"
| "renderCell JNull = []"
| "renderCell (JArr vs) = json (JArr vs)"
| "renderCell (JObj r) = json (JObj r)"
| "renderCell v = js_string v"

section \<open>The rendered page\<close>

record forensics_ctx =
  fx_isLoading :: bool
  fx_isFetching :: bool
  fx_clients :: jsval
  fx_flows :: jsval
  fx_deploy :: jsval
  fx_results :: jsval
  fx_resultsLoading :: bool
  fx_now :: int
  fx_number :: "jsval \<Rightarrow> int"
  fx_date :: "int \<Rightarrow> string"
  fx_time :: "jsval \<Rightarrow> string"

definition deploy_block :: "jsval \<Rightarrow> string \<Rightarrow> forensics_event ui" where
  "deploy_block d p = Box
     [Txt (if p = ''windows'' then ''Windows (elevated PowerShell)'' else ''Linux''),
      Val (jor (opt_fld d p) (JStr (''Loading'' @ ellipsis))),
      Btn ''Copy'' (\<not> truthy (opt_fld d p)) (CopyDeploy (js_string (opt_fld d p)))]"

definition deploy_view :: "jsval \<Rightarrow> forensics_event ui list" where
  "deploy_view d =
     [Txt ''Deploy SocBlitz Agent'',
      Txt (''One command installs and enrolls both endpoint components '' @ mdash @
        '' the Wazuh agent (SIEM telemetry) and the Velociraptor client (forensics). Run it as root / Administrator on each endpoint.'')] @
     (if truthy d \<and> \<not> truthy (opt_fld d ''configured'') then [Val (opt_fld d ''hint'')]
      else map (deploy_block d) [''linux'', ''windows''])"

definition client_row :: "forensics_ctx \<Rightarrow> row \<Rightarrow> forensics_event ui" where
  "client_row cx c =
     (let seen = lastSeen (fx_date cx) (fx_now cx) (fx_number cx (fld c ''last_seen_at''));
          os = fld c ''os_info'' in
      Clickable (SelectClient c)
        [Val (jor (jor (opt_fld os ''hostname'') (opt_fld os ''fqdn'')) (JStr mdash)), Val (fld c ''client_id''),
         Val (jor (opt_fld os ''system'') (JStr mdash)), Txt '' '', Val (jor (opt_fld os ''release'') (JStr [])),
         Txt (fst seen)])"

definition clients_view :: "forensics_ctx \<Rightarrow> forensics_event ui list" where
  "clients_view cx =
     (let cs = as_list (fx_clients cx) in
      [Txt (''Enrolled endpoints '' @ (if truthy (fx_clients cx) then ''('' @ nat_dec (length cs) @ '')'' else []))] @
      (if fx_isLoading cx then [Txt (''Loading'' @ ellipsis)]
       else if cs = []
       then [Txt ''No endpoints enrolled yet'',
             Txt (''Click Deploy agent above to get a one-command installer that enrolls the unified SocBlitz Agent (Wazuh + Velociraptor) '' @
               mdash @ '' enrolled hosts appear here within a minute.'')]
       else map Txt [''Hostname'', ''Client ID'', ''OS'', ''Last seen''] @ map (\<lambda>c. client_row cx (as_row c)) cs))"

definition flow_ctx :: "jsval \<Rightarrow> jsval" where
  "flow_ctx f = jcoalesce (opt_fld f ''context'') f"

definition request_artifacts :: "jsval \<Rightarrow> jsval list" where
  "request_artifacts ctx = as_list (opt_fld (opt_fld ctx ''request'') ''artifacts'')"

definition result_artifacts :: "jsval \<Rightarrow> jsval list" where
  "result_artifacts ctx =
     (if as_list (opt_fld ctx ''artifacts_with_results'') \<noteq> []
      then as_list (opt_fld ctx ''artifacts_with_results'') else request_artifacts ctx)"

text \<open>\<open>xs[0]\<close>\<close>

definition first_val :: "jsval list \<Rightarrow> jsval" where
  "first_val vs = (case vs of [] \<Rightarrow> JUndef | v # _ \<Rightarrow> v)"

definition comma_vals :: "jsval list \<Rightarrow> string" where
  "comma_vals vs = join '', '' (map (\<lambda>v. if nullish v then [] else js_string v) vs)"

definition flow_row :: "forensics_ctx \<Rightarrow> jsval \<Rightarrow> forensics_event ui" where
  "flow_row cx f =
     (let ctx = flow_ctx f; arts = result_artifacts ctx in
      Clickable (OpenFlow (opt_fld ctx ''session_id'') (first_val arts) arts)
        [Val (opt_fld ctx ''session_id''), Val (jor (JStr (comma_vals (request_artifacts ctx))) (JStr mdash)),
         Val (jor (opt_fld ctx ''state'') (JStr mdash)),
         Txt (if truthy (opt_fld ctx ''create_time'') then fx_time cx (opt_fld ctx ''create_time'') else mdash)])"

definition artifact_label :: "jsval \<Rightarrow> string" where
  "artifact_label a =
     (let name = js_string a in
      if str_includes name ''/'' then last (split_on (CHR ''/'') name) else name)"

definition results_view :: "forensics_ctx \<Rightarrow> flow_view \<Rightarrow> forensics_event ui list" where
  "results_view cx vf =
     (let r = fx_results cx; rows = as_list (opt_fld r ''rows'') in
      [Txt (''Collected data '' @ mdash @ '' '' @ js_string (artifactShown vf) @
         (if truthy r then '' ('' @ nat_dec (length rows) @ '' of '' @ js_string (opt_fld r ''total_rows'') @ '' rows)'' else []))] @
      shown (1 < length (artifactChoices vf))
        (map (\<lambda>a. Btn (artifact_label a) False (PickResult a)) (artifactChoices vf)) @
      (if fx_resultsLoading cx then [Txt (''Loading results'' @ ellipsis)]
       else if \<not> truthy r \<or> rows = [] then [Txt ''No result rows for this artifact.'']
       else map Val (as_list (opt_fld r ''columns'')) @
            map (\<lambda>cells. Box (map (\<lambda>v. Txt (renderCell v)) (as_list cells))) rows))"

definition selected_endpoint :: "forensics_ctx \<Rightarrow> forensics_state \<Rightarrow> forensics_event ui list" where
  "selected_endpoint cx s =
     (let sel = fx_selected s; fs = as_list (fx_flows cx) in
      [Txt (''Collect artifact '' @ mdash @ '' '' @
         js_string (jor (opt_fld (opt_fld sel ''os_info'') ''hostname'') (opt_fld sel ''client_id''))),
       Form SubmitCollect
         [Field ''Artifact name, e.g. Windows.System.Pstree'' (fx_artifact s) True TypeArtifact,
          Submit (if fx_collecting s then ''Starting'' @ ellipsis else ''Collect'') (fx_collecting s)]] @
      map (\<lambda>a. Btn a False (PickArtifact a)) (suggestions sel) @
      [Txt ''Recent flows''] @
      (if fs = [] then [Txt ''No collections yet for this endpoint.'']
       else map Txt [''Flow ID'', ''Artifacts'', ''State'', ''Started''] @ map (flow_row cx) fs) @
      (case fx_viewFlow s of None \<Rightarrow> [] | Some vf \<Rightarrow> results_view cx vf))"

text \<open>\<open>results.rows.length\<close> throws when an answer has no rows; React then takes the page down.\<close>

definition results_throw :: "forensics_ctx \<Rightarrow> forensics_state \<Rightarrow> bool" where
  "results_throw cx s \<longleftrightarrow> truthy (fx_selected s) \<and> fx_viewFlow s \<noteq> None \<and>
     truthy (fx_results cx) \<and> nullish (opt_fld (fx_results cx) ''rows'')"

definition forensics_view :: "forensics_ctx \<Rightarrow> forensics_state \<Rightarrow> forensics_event ui list" where
  "forensics_view cx s = shown (\<not> results_throw cx s)
     ([Txt ''Forensics'', Txt (''Velociraptor endpoint forensics '' @ mdash @ '' artifact collection and flow history''),
      Btn ''Deploy agent'' False ToggleDeploy, Link ''Velociraptor GUI'' ''https://localhost:8889'',
      Btn ''Refresh'' (fx_isFetching cx) RefreshClients] @
     shown (fx_showDeploy s) (deploy_view (fx_deploy cx)) @
     clients_view cx @
     shown (truthy (fx_selected s)) (selected_endpoint cx s))"

section \<open>Clicks\<close>

lemma clicks_deploy: "e \<in> set (page_clicks (deploy_view d)) \<longleftrightarrow>
    (\<not> truthy d \<or> truthy (opt_fld d ''configured'')) \<and>
    (\<exists>p \<in> {''linux'', ''windows''}. truthy (opt_fld d p) \<and> e = CopyDeploy (js_string (opt_fld d p)))"
  by (auto simp: deploy_view_def deploy_block_def)

lemma clicks_clients: "e \<in> set (page_clicks (clients_view cx)) \<Longrightarrow> \<exists>c \<in> set (as_list (fx_clients cx)). e = SelectClient (as_row c)"
  by (auto simp: clients_view_def Let_def client_row_def page_clicks_map split: if_splits)

lemma clicks_flow_row: "e \<in> set (clicks (flow_row cx f)) \<longleftrightarrow>
    e = OpenFlow (opt_fld (flow_ctx f) ''session_id'') (first_val (result_artifacts (flow_ctx f))) (result_artifacts (flow_ctx f))"
  by (auto simp: flow_row_def Let_def)

lemma clicks_cells: "page_clicks (map (\<lambda>cells. Box (map (\<lambda>v. Txt (renderCell v)) (as_list cells))) rows) = []"
  by (simp add: page_clicks_def o_def)

lemma clicks_results: "e \<in> set (page_clicks (results_view cx vf)) \<longleftrightarrow>
    1 < length (artifactChoices vf) \<and> (\<exists>a \<in> set (artifactChoices vf). e = PickResult a)"
  by (auto simp: results_view_def Let_def page_clicks_map clicks_cells)

lemma clicks_endpoint: "e \<in> set (page_clicks (selected_endpoint cx s)) \<longleftrightarrow>
    e = SubmitCollect \<and> \<not> fx_collecting s \<and> fx_artifact s \<noteq> [] \<or>
    (\<exists>a \<in> set (suggestions (fx_selected s)). e = PickArtifact a) \<or>
    (\<exists>f \<in> set (as_list (fx_flows cx)). e \<in> set (clicks (flow_row cx f))) \<or>
    (\<exists>vf. fx_viewFlow s = Some vf \<and> e \<in> set (page_clicks (results_view cx vf)))"
  by (auto simp: selected_endpoint_def Let_def page_clicks_map submittable_def split: option.splits)

lemma clicks_forensics: "e \<in> set (page_clicks (forensics_view cx s)) \<longleftrightarrow> \<not> results_throw cx s \<and>
   (e = ToggleDeploy \<or> e = RefreshClients \<and> \<not> fx_isFetching cx \<or>
    fx_showDeploy s \<and> e \<in> set (page_clicks (deploy_view (fx_deploy cx))) \<or>
    e \<in> set (page_clicks (clients_view cx)) \<or>
    truthy (fx_selected s) \<and> e \<in> set (page_clicks (selected_endpoint cx s)))"
  by (auto simp: forensics_view_def)

definition forensics_allowed :: "forensics_ctx \<times> forensics_event \<Rightarrow> forensics_state \<Rightarrow> bool" where
  "forensics_allowed ce s = (case snd ce of
     TypeArtifact v \<Rightarrow> truthy (fx_selected s)
   | CollectLanded i a \<Rightarrow> i < length (fx_calls s)
   | _ \<Rightarrow> snd ce \<in> set (page_clicks (forensics_view (fst ce) s)))"

abbreviation forensics_next :: "forensics_ctx \<times> forensics_event \<Rightarrow> forensics_state \<Rightarrow> forensics_state" where
  "forensics_next ce s \<equiv> fst (forensics_step (snd ce) s)"

abbreviation forensics_reach :: "forensics_state \<Rightarrow> bool" where
  "forensics_reach \<equiv> reach (\<lambda>s. s = init_forensics) forensics_allowed forensics_next"

section \<open>The collection in flight\<close>

definition starts_collection :: "forensics_ctx \<times> forensics_event \<Rightarrow> forensics_state \<Rightarrow> bool" where
  "starts_collection ce s \<longleftrightarrow> snd ce = SubmitCollect \<and> truthy (fx_selected s) \<and> trim (fx_artifact s) \<noteq> []"

definition collection_lands :: "forensics_ctx \<times> forensics_event \<Rightarrow> bool" where
  "collection_lands ce \<longleftrightarrow> (\<exists>i a. snd ce = CollectLanded i a)"

lemma collect_landed_frame [simp]:
  "fx_collecting (fst (collect_landed c a s)) = False" "fx_calls (fst (collect_landed c a s)) = fx_calls s"
  "fx_viewFlow (fst (collect_landed c a s)) = fx_viewFlow s" "fx_selected (fst (collect_landed c a s)) = fx_selected s"
  by (cases a; simp add: collect_landed_def)+

lemma collect_allowed: "forensics_allowed (cx, SubmitCollect) s \<Longrightarrow> \<not> fx_collecting s"
  by (auto simp: forensics_allowed_def clicks_forensics clicks_deploy clicks_endpoint clicks_flow_row clicks_results
      dest: clicks_clients)

interpretation collection: busy_flag "\<lambda>s. s = init_forensics" forensics_allowed forensics_next fx_collecting
  "\<lambda>s. length (fx_calls s)" starts_collection collection_lands
proof unfold_locales
  fix ce :: "forensics_ctx \<times> forensics_event" and s
  assume a: "forensics_allowed ce s"
  obtain cx e where ce: "ce = (cx, e)" by (cases ce)
  show "starts_collection ce s \<Longrightarrow> \<not> fx_collecting s \<and> fx_collecting (forensics_next ce s) \<and>
      length (fx_calls (forensics_next ce s)) = Suc (length (fx_calls s))"
    using a collect_allowed [of cx s] by (auto simp: ce starts_collection_def)
  show "collection_lands ce \<Longrightarrow> \<not> fx_collecting (forensics_next ce s) \<and>
      Suc (length (fx_calls (forensics_next ce s))) = length (fx_calls s)"
    using a by (auto simp: ce collection_lands_def forensics_allowed_def length_drop_nth)
  show "\<not> starts_collection ce s \<Longrightarrow> \<not> collection_lands ce \<Longrightarrow>
      fx_collecting (forensics_next ce s) = fx_collecting s \<and>
      length (fx_calls (forensics_next ce s)) = length (fx_calls s)"
    by (cases e) (auto simp: ce starts_collection_def collection_lands_def)
qed (simp_all add: init_forensics_def)

section \<open>The flow on display\<close>

definition flow_ok :: "forensics_state \<Rightarrow> bool" where
  "flow_ok s \<longleftrightarrow> (case fx_viewFlow s of
     Some vf \<Rightarrow> truthy (fx_selected s) \<and> artifactShown vf \<in> set (artifactChoices vf) | None \<Rightarrow> True)"

lemma first_val_mem: "truthy (first_val vs) \<Longrightarrow> first_val vs \<in> set vs"
  by (cases vs) (simp_all add: first_val_def)

lemma open_flow_allowed:
  assumes "forensics_allowed (cx, OpenFlow i a as) s" "truthy a"
  shows "truthy (fx_selected s) \<and> a \<in> set as"
  using assms first_val_mem
  by (auto simp: forensics_allowed_def clicks_forensics clicks_deploy clicks_endpoint clicks_flow_row clicks_results
      dest: clicks_clients)

lemma pick_result_allowed:
  assumes "forensics_allowed (cx, PickResult a) s"
  shows "\<exists>vf. fx_viewFlow s = Some vf \<and> a \<in> set (artifactChoices vf)"
  using assms
  by (auto simp: forensics_allowed_def clicks_forensics clicks_deploy clicks_endpoint clicks_flow_row clicks_results
      dest: clicks_clients)

lemma flow_ok_reached: "forensics_reach s \<Longrightarrow> flow_ok s"
proof (erule reach_invariant)
  fix s and ce :: "forensics_ctx \<times> forensics_event"
  assume I: "flow_ok s" and a: "forensics_allowed ce s"
  obtain cx e where ce: "ce = (cx, e)" by (cases ce)
  show "flow_ok (forensics_next ce s)"
  proof (cases e)
    case (OpenFlow i b as)
    with I a open_flow_allowed [of cx i b as s] show ?thesis by (auto simp: ce flow_ok_def split: option.splits)
  next
    case (PickResult b)
    with I a pick_result_allowed [of cx b s] show ?thesis by (auto simp: ce flow_ok_def)
  qed (use I in \<open>auto simp: ce flow_ok_def split: option.splits\<close>)
qed (simp add: flow_ok_def init_forensics_def)

section \<open>Properties\<close>

lemma forensics_queries_read: "(k, c) \<in> set (forensics_queries s) \<Longrightarrow> req_method (api_request c) = GET"
  by (auto simp: forensics_queries_def get_def get_with_def mk_request_def split: if_splits option.splits)

text \<open>C24. A collection is started deliberately and once: on every reachable page the only click that posts
  anything is the submission of a filled-in form while no collection is waiting; it asks for the artifact
  typed, without the blanks around it, on the selected endpoint, and a form of blanks sends nothing. Every
  other click at most reads: Refresh fetches the list of endpoints again, no click invalidates a query,
  and the queries of the page, whatever is selected or opened, are GET requests. The flows that are
  reloaded after the answer are those of the endpoint the call was for, also when another one was
  selected in between.\<close>

theorem collect_guarded:
  assumes "forensics_reach s" "e \<in> set (page_clicks (forensics_view cx s))"
    and "es = snd (forensics_step e s)"
  shows "(calls_of es = [] \<or>
      e = SubmitCollect \<and> fx_calls s = [] \<and> truthy (fx_selected s) \<and> trim (fx_artifact s) \<noteq> [] \<and>
      calls_of es = [IntelCall (ForensicsCollect (js_string (client_id s)) (trim (fx_artifact s)) JUndef)] \<and>
      (\<forall>d c. Invalidate [JStr ''forensics-flows'', client_id s] \<in> set (snd (forensics_step (CollectLanded 0 (Answered d))
         (fst (forensics_step (SelectClient c) (fst (forensics_step e s)))))))) \<and>
    (\<forall>q. Refetch q \<in> set es \<longleftrightarrow> e = RefreshClients \<and> q = ''forensics-clients'') \<and> (\<forall>k. Invalidate k \<notin> set es) \<and>
    (\<forall>(k, c) \<in> set (forensics_queries (fst (forensics_step e s))). req_method (api_request c) = GET)"
proof -
  have f: "fx_calls s = [] \<longleftrightarrow> \<not> fx_collecting s"
    using collection.flag_exact [OF assms(1)] by (auto split: if_splits)
  have nl: "e \<noteq> CollectLanded i b" for i b
    using assms(2) by (auto simp: clicks_forensics clicks_deploy clicks_endpoint clicks_flow_row clicks_results
        dest: clicks_clients)
  have reads: "(\<forall>q. Refetch q \<in> set es \<longleftrightarrow> e = RefreshClients \<and> q = ''forensics-clients'') \<and> (\<forall>k. Invalidate k \<notin> set es)"
    using nl by (cases e) (auto simp: assms(3))
  have "calls_of es = [] \<or>
      e = SubmitCollect \<and> fx_calls s = [] \<and> truthy (fx_selected s) \<and> trim (fx_artifact s) \<noteq> [] \<and>
      calls_of es = [IntelCall (ForensicsCollect (js_string (client_id s)) (trim (fx_artifact s)) JUndef)] \<and>
      (\<forall>d c. Invalidate [JStr ''forensics-flows'', client_id s] \<in> set (snd (forensics_step (CollectLanded 0 (Answered d))
         (fst (forensics_step (SelectClient c) (fst (forensics_step e s)))))))"
  proof (cases "calls_of es = []")
    case False
    then have "e = SubmitCollect" "truthy (fx_selected s)" "trim (fx_artifact s) \<noteq> []"
      by (cases e; simp add: assms(3) collect_landed_def split: if_splits answer.splits)+
    moreover from this(1) assms(2) have "\<not> fx_collecting s"
      using collect_allowed [of cx s] by (simp add: forensics_allowed_def)
    ultimately show ?thesis using f by (auto simp: assms(3) collect_landed_def)
  qed simp
  moreover have "\<forall>(k, c) \<in> set (forensics_queries (fst (forensics_step e s))). req_method (api_request c) = GET"
    by (auto dest: forensics_queries_read)
  ultimately show ?thesis using reads by blast
qed

abbreviation demo_ctx :: forensics_ctx where
  "demo_ctx \<equiv> \<lparr>fx_isLoading = False, fx_isFetching = False, fx_clients = JArr [JObj [(''client_id'', JStr ''C.1'')]],
     fx_flows = JArr [], fx_deploy = JUndef, fx_results = JUndef, fx_resultsLoading = False, fx_now = 0,
     fx_number = (\<lambda>v. 0), fx_date = (\<lambda>n. []), fx_time = (\<lambda>v. [])\<rparr>"

definition typed_page :: forensics_state where
  "typed_page = init_forensics\<lparr>fx_selected := JObj [(''client_id'', JStr ''C.1'')], fx_artifact := ''A ''\<rparr>"

lemma typed_page_reached: "forensics_reach typed_page"
proof -
  have "forensics_reach init_forensics" by (rule reach_start) simp
  moreover have "legal forensics_allowed forensics_next
      (map (Pair demo_ctx) [SelectClient [(''client_id'', JStr ''C.1'')], TypeArtifact ''A '']) init_forensics"
    by (simp add: forensics_allowed_def clicks_forensics clients_view_def Let_def client_row_def init_forensics_def results_throw_def)
  ultimately have "forensics_reach (run forensics_next
      (map (Pair demo_ctx) [SelectClient [(''client_id'', JStr ''C.1'')], TypeArtifact ''A '']) init_forensics)"
    by (rule legal_reach)
  then show ?thesis by (simp add: typed_page_def init_forensics_def)
qed

lemma typed_page_submit: "SubmitCollect \<in> set (page_clicks (forensics_view demo_ctx typed_page))"
  by (simp add: clicks_forensics clicks_endpoint typed_page_def init_forensics_def results_throw_def)

theorem collect_guarded_witness:
  "calls_of (snd (forensics_step SubmitCollect typed_page)) = [IntelCall (ForensicsCollect ''C.1'' ''A'' JUndef)]"
proof -
  have "trim ''A '' = ''A''" by (simp add: trim_def is_space_def)
  then show ?thesis
    using collect_guarded [OF typed_page_reached typed_page_submit refl]
    by (simp add: typed_page_def client_id_def)
qed

text \<open>C23. The rows on display belong to what is selected: on every reachable page with a flow open an
  endpoint is selected, the artifact shown is one of those the flow has, and the page asks for exactly
  one set of rows, of this endpoint, flow and artifact, under a key that names all three; selecting an
  endpoint closes the flow, so rows of another endpoint are never asked for.\<close>

theorem results_match_selection:
  assumes "forensics_reach s" "fx_viewFlow s = Some vf"
  shows "truthy (fx_selected s) \<and> artifactShown vf \<in> set (artifactChoices vf) \<and>
    filter (\<lambda>(k, c). hd k = JStr ''forensics-results'') (forensics_queries s) =
      [([JStr ''forensics-results'', client_id s, flowId vf, artifactShown vf],
        IntelCall (ForensicsResults (js_string (client_id s)) (js_string (flowId vf)) (js_string (artifactShown vf))))] \<and>
    filter (\<lambda>(k, c). hd k = JStr ''forensics-results'') (forensics_queries (forensics_next (cx, SelectClient c) s)) = []"
proof -
  have "truthy (fx_selected s)" "artifactShown vf \<in> set (artifactChoices vf)"
    using flow_ok_reached [OF assms(1)] assms(2) by (simp_all add: flow_ok_def)
  then show ?thesis using assms(2) by (simp add: forensics_queries_def)
qed

theorem results_match_selection_witness:
  "\<exists>s vf. forensics_reach s \<and> fx_viewFlow s = Some vf \<and> artifactShown vf \<in> set (artifactChoices vf)"
proof -
  let ?f = "JObj [(''session_id'', JStr ''F.1''), (''artifacts_with_results'', JArr [JStr ''A''])]"
  let ?cx = "demo_ctx\<lparr>fx_flows := JArr [?f]\<rparr>"
  let ?s = "forensics_next (?cx, OpenFlow (JStr ''F.1'') (JStr ''A'') [JStr ''A'']) typed_page"
  have a: "forensics_allowed (?cx, OpenFlow (JStr ''F.1'') (JStr ''A'') [JStr ''A'']) typed_page"
    by (simp add: forensics_allowed_def clicks_forensics clicks_endpoint clicks_flow_row flow_ctx_def jcoalesce_def
        result_artifacts_def first_val_def typed_page_def results_throw_def init_forensics_def)
  have r: "forensics_reach ?s" using typed_page_reached a by (rule reach_step)
  have v: "fx_viewFlow ?s = Some \<lparr>flowId = JStr ''F.1'', artifactShown = JStr ''A'', artifactChoices = [JStr ''A'']\<rparr>" by simp
  from results_match_selection [OF r v] r v show ?thesis by blast
qed

text \<open>C35. The age of the last contact is told within its unit: an endpoint is online exactly when it was seen less
  than two minutes ago, the minutes told are from 2 to 60 and half a minute off at most, the hours told from
  1 to 24 and half an hour off at most, and an endpoint that was never seen is never online.\<close>

theorem last_seen_bounds:
  fixes now n :: int
  defines "age \<equiv> 1000 * now - n"
  shows "(snd (lastSeen date_text now n) \<longleftrightarrow> n \<noteq> 0 \<and> age < 120000000) \<and>
    fst (lastSeen date_text now 0) = ''never'' \<and>
    (n = 0 \<or> age < 120000000 \<or> 3600000000 \<le> age \<or>
       (\<exists>m. fst (lastSeen date_text now n) = int_dec m @ '' min ago'' \<and> 2 \<le> m \<and> m \<le> 60 \<and>
          \<bar>m * 60000000 - age\<bar> \<le> 30000000)) \<and>
    (n = 0 \<or> age < 3600000000 \<or> 86400000000 \<le> age \<or>
       (\<exists>h. fst (lastSeen date_text now n) = int_dec h @ '' h ago'' \<and> 1 \<le> h \<and> h \<le> 24 \<and>
          \<bar>h * 3600000000 - age\<bar> \<le> 1800000000))"
proof -
  have online: "snd (lastSeen date_text now n) \<longleftrightarrow> n \<noteq> 0 \<and> age < 120000000"
    by (simp add: lastSeen_def Let_def age_us_def age_def)
  have minutes: "\<exists>m. fst (lastSeen date_text now n) = int_dec m @ '' min ago'' \<and> 2 \<le> m \<and> m \<le> 60 \<and>
      \<bar>m * 60000000 - age\<bar> \<le> 30000000" if "n \<noteq> 0" "\<not> age < 120000000" "age < 3600000000"
    by (rule exI [of _ "(age + 30000000) div 60000000"])
      (use that in \<open>auto simp: lastSeen_def Let_def age_us_def age_def\<close>)
  have hours: "\<exists>h. fst (lastSeen date_text now n) = int_dec h @ '' h ago'' \<and> 1 \<le> h \<and> h \<le> 24 \<and>
      \<bar>h * 3600000000 - age\<bar> \<le> 1800000000" if "n \<noteq> 0" "\<not> age < 3600000000" "age < 86400000000"
    by (rule exI [of _ "(age + 1800000000) div 3600000000"])
      (use that in \<open>auto simp: lastSeen_def Let_def age_us_def age_def\<close>)
  have "fst (lastSeen date_text now 0) = ''never''" by (simp add: lastSeen_def)
  with online minutes hours show ?thesis by (metis not_less)
qed

theorem last_seen_bounds_witness:
  "\<exists>m. fst (lastSeen (\<lambda>n. []) 300000 60000000) = int_dec m @ '' min ago'' \<and> 2 \<le> m \<and> m \<le> 60"
  using last_seen_bounds [of "\<lambda>n. []" 300000 60000000] by auto

text \<open>C40. The artifacts suggested for an endpoint are those of its system for Linux and Windows. An endpoint
  whose system is darwin, as that of a Mac, is offered the Windows artifacts: its name contains the text
  the page looks for.\<close>

theorem suggested_artifacts_for_system:
  assumes "opt_fld (opt_fld c ''os_info'') ''system'' = JStr sys" "opt_fld (opt_fld m ''os_info'') ''system'' = JStr ''darwin''"
  shows "(to_lower sys = ''linux'' \<longrightarrow> suggestions c \<noteq> [] \<and> (\<forall>a \<in> set (suggestions c). prefix ''Linux.'' a)) \<and>
    (to_lower sys = ''windows'' \<longrightarrow> suggestions c \<noteq> [] \<and> (\<forall>a \<in> set (suggestions c). prefix ''Windows.'' a)) \<and>
    suggestions m \<noteq> [] \<and> (\<forall>a \<in> set (suggestions m). prefix ''Windows.'' a)"
proof -
  have d: "to_lower ''darwin'' = ''darwin''" by code_simp
  show ?thesis
    using assms d
    by (auto simp: suggestions_def os_of_def SUGGESTED_ARTIFACTS_def jor_def split: if_splits)
qed

theorem suggested_artifacts_for_system_witness:
  "suggestions (JObj [(''os_info'', JObj [(''system'', JStr ''darwin'')])]) \<noteq> []"
  using suggested_artifacts_for_system
    [of "JObj [(''os_info'', JObj [(''system'', JStr ''darwin'')])]" "''darwin''" "JObj [(''os_info'', JObj [(''system'', JStr ''darwin'')])]"]
  by simp

end
