(* ===== verification/Overview.thy ===== *)
theory Overview
  imports Connectors Routes
begin

text \<open>
  The landing page, \<open>frontend/src/pages/Dashboard.tsx\<close>: the threat level computed from the alert counts,
  the tiles, the severity breakdown, the recent critical alerts and the connectors. Quotients are
  doubles in the page; the rounding of a real result to a double is the argument \<open>rnd\<close>, of which
  only monotony and exactness on integers up to \<open>2^53\<close> are used. The sine and the random numbers of the trend
  chart are arguments too. Colours, icons and relative dates are left out.
\<close>

section \<open>The threat level\<close>

datatype threat = Normal | Guarded | Elevated | Critical

text \<open>The levels in the order of their severity.\<close>

instantiation threat :: linorder
begin

definition threat_rank :: "threat \<Rightarrow> nat" where
  "threat_rank t = (case t of Normal \<Rightarrow> 0 | Guarded \<Rightarrow> 1 | Elevated \<Rightarrow> 2 | Critical \<Rightarrow> 3)"

definition less_eq_threat :: "threat \<Rightarrow> threat \<Rightarrow> bool" where
  "less_eq_threat a b = (threat_rank a \<le> threat_rank b)"

definition less_threat :: "threat \<Rightarrow> threat \<Rightarrow> bool" where
  "less_threat a b = (threat_rank a < threat_rank b)"

instance
proof
  fix a b :: threat
  show "a \<le> b \<Longrightarrow> b \<le> a \<Longrightarrow> a = b"
    by (cases a; cases b) (simp_all add: less_eq_threat_def threat_rank_def)
qed (auto simp: less_eq_threat_def less_threat_def)

end

definition threat_label :: "threat \<Rightarrow> string" where
  "threat_label t = (case t of Normal \<Rightarrow> ''Normal'' | Guarded \<Rightarrow> ''Guarded'' | Elevated \<Rightarrow> ''Elevated'' | Critical \<Rightarrow> ''Critical'')"

definition double_rounding :: "(rat \<Rightarrow> rat) \<Rightarrow> bool" where
  "double_rounding rnd \<longleftrightarrow> mono rnd \<and> (\<forall>n::int. \<bar>n\<bar> \<le> 2 ^ 53 \<longrightarrow> rnd (of_int n) = of_int n)"

definition threat_score :: "(rat \<Rightarrow> rat) \<Rightarrow> int \<Rightarrow> int \<Rightarrow> int \<Rightarrow> rat" where
  "threat_score rnd crit high tot =
     rnd (rnd (of_int (crit * 4 + high * 2) / of_int (tot * 4)) * 100)"

definition getThreatLevel :: "(rat \<Rightarrow> rat) \<Rightarrow> int \<Rightarrow> int \<Rightarrow> int \<Rightarrow> threat \<times> rat" where
  "getThreatLevel rnd crit high tot =
     (if tot = 0 then (Normal, 8)
      else
        let score = threat_score rnd crit high tot in
        if score > 60 then (Critical, min score 95)
        else if score > 30 then (Elevated, score)
        else if score > 10 then (Guarded, score)
        else (Normal, max score 8))"

section \<open>Counts\<close>

definition SEV_ORDER :: "string list" where
  "SEV_ORDER = [''critical'', ''high'', ''medium'', ''low'', ''info'']"

definition sev_count :: "jsval \<Rightarrow> string \<Rightarrow> int" where
  "sev_count alertStats s = num_or_0 (opt_fld (opt_fld alertStats ''severity'') s)"

definition totalAlerts :: "jsval \<Rightarrow> int" where
  "totalAlerts alertStats = sum_list (map (\<lambda>(k, v). num_or_0 v) (as_row (opt_fld alertStats ''severity'')))"

definition newCount :: "jsval \<Rightarrow> int" where
  "newCount alertStats = num_or_0 (opt_fld (opt_fld alertStats ''status'') ''new'')"

definition sevData :: "jsval \<Rightarrow> (string \<times> int) list" where
  "sevData alertStats = filter (\<lambda>(s, n). 0 < n) (map (\<lambda>s. (s, sev_count alertStats s)) SEV_ORDER)"

text \<open>The segments of the bar: those of at least half a percent, with their tooltip.\<close>

definition sev_pct :: "(rat \<Rightarrow> rat) \<Rightarrow> jsval \<Rightarrow> string \<Rightarrow> rat" where
  "sev_pct rnd alertStats s =
     (let count = sev_count alertStats s; tot = totalAlerts alertStats in
      if 0 < tot then rnd (rnd (of_int count / of_int tot) * 100) else 0)"

definition sev_segments :: "(rat \<Rightarrow> rat) \<Rightarrow> jsval \<Rightarrow> (string \<times> rat) list" where
  "sev_segments rnd alertStats =
     map (\<lambda>s. (s @ '': '' @ int_dec (sev_count alertStats s), sev_pct rnd alertStats s))
       (filter (\<lambda>s. \<not> sev_pct rnd alertStats s < 1 / 2) SEV_ORDER)"

definition is_critical :: "row \<Rightarrow> bool" where
  "is_critical a \<longleftrightarrow> fld a ''severity'' = JStr ''critical'' \<or> fld a ''severity'' = JStr ''high''"

definition criticalAlerts :: "row list \<Rightarrow> row list" where
  "criticalAlerts alerts = take 8 (filter is_critical alerts)"

definition activeAgents :: "row list \<Rightarrow> nat" where
  "activeAgents as = length (filter (\<lambda>a. fld a ''status'' = JStr ''active'') as)"

section \<open>The trend chart\<close>

text \<open>\<open>wave i\<close> is \<open>Math.sin(i * 0.9)\<close>, \<open>rand i\<close> the random number drawn for day \<open>i\<close>; the height is computed exactly.\<close>

definition trend_height :: "(nat \<Rightarrow> rat) \<Rightarrow> (nat \<Rightarrow> rat) \<Rightarrow> int \<Rightarrow> nat \<Rightarrow> int" where
  "trend_height wave rand peak i =
     max 0 \<lfloor>of_int peak * (4 / 10 + wave i * (35 / 100) + rand i * (25 / 100)) + 1 / 2\<rfloor>"

definition WEEKDAYS :: "string list" where
  "WEEKDAYS = [''Mon'', ''Tue'', ''Wed'', ''Thu'', ''Fri'', ''Sat'', ''Sun'']"

definition makeTrend :: "(nat \<Rightarrow> rat) \<Rightarrow> (nat \<Rightarrow> rat) \<Rightarrow> int \<Rightarrow> (string \<times> int) list" where
  "makeTrend wave rand peak = map (\<lambda>i. (WEEKDAYS ! i, trend_height wave rand peak i)) [0..<7]"

definition trend :: "(nat \<Rightarrow> rat) \<Rightarrow> (nat \<Rightarrow> rat) \<Rightarrow> jsval \<Rightarrow> (string \<times> int) list" where
  "trend wave rand alertStats = makeTrend wave rand (max (totalAlerts alertStats) 20)"

section \<open>The rendered page\<close>

datatype overview_event = Go string

fun overview_step :: "overview_event \<Rightarrow> api_call effect list" where
  "overview_step (Go path) = [Navigate path]"

record overview_ctx =
  ov_rnd :: "rat \<Rightarrow> rat"
  ov_wave :: "nat \<Rightarrow> rat"
  ov_rand :: "nat \<Rightarrow> rat"
  ov_stats :: jsval
  ov_alerts :: "row list"
  ov_agents :: "row list"
  ov_connectors :: "row list"

definition MetricCard :: "string \<Rightarrow> string \<Rightarrow> string \<Rightarrow> string \<Rightarrow> overview_event ui" where
  "MetricCard label value sub target =
     Clickable (Go target) ([Txt label, Txt value] @ shown (sub \<noteq> []) [Txt sub])"

definition ConnectorPill :: "row \<Rightarrow> 'e ui" where
  "ConnectorPill c = Box [Val (shown_label (connectorMeta (fld c ''connector_type'')))]"

definition posture_view :: "overview_ctx \<Rightarrow> overview_event ui list" where
  "posture_view cx =
     (let st = ov_stats cx; crit = sev_count st ''critical''; high = sev_count st ''high'' in
      [Txt ''Threat Posture'',
       Txt (threat_label (fst (getThreatLevel (ov_rnd cx) crit high (totalAlerts st)))),
       Txt (int_dec crit @ '' critical '' @ middot @ '' '' @ int_dec high @ '' high '' @ middot @ '' '' @
            int_dec (newCount st) @ '' unacknowledged''),
       Btn ''View all alerts'' False (Go ''/alerts'')] @
      map (\<lambda>(t, p). Txt t) (sev_segments (ov_rnd cx) st))"

definition metrics_view :: "overview_ctx \<Rightarrow> overview_event ui list" where
  "metrics_view cx =
     (let st = ov_stats cx; active = activeAgents (ov_agents cx); agents = length (ov_agents cx);
          healthy = online_count (ov_connectors cx); conns = length (ov_connectors cx);
          online = \<lfloor>ov_rnd cx (ov_rnd cx (of_nat active / of_nat agents) * 100) + 1 / 2\<rfloor> in
      [MetricCard ''Total Alerts'' (int_dec (totalAlerts st)) (int_dec (newCount st) @ '' new'') ''/alerts'',
       MetricCard ''Critical'' (int_dec (sev_count st ''critical'')) (int_dec (sev_count st ''high'') @ '' high severity'') ''/alerts'',
       MetricCard ''Active Agents'' (if 0 < agents then nat_dec active @ ''/'' @ nat_dec agents else mdash)
         (if 0 < agents then int_dec online @ ''% online'' else ''No agents'') ''/agents'',
       MetricCard ''Connectors'' (nat_dec healthy @ ''/'' @ nat_dec conns)
         (if healthy = conns then ''All systems nominal'' else nat_dec (conns - healthy) @ '' offline'') ''/connectors''])"

definition charts_view :: "overview_ctx \<Rightarrow> overview_event ui list" where
  "charts_view cx =
     [Txt (''Alert volume '' @ mdash @ '' 7 days'')] @
     map (\<lambda>(d, n). Box [Txt d, Txt (int_dec n)]) (trend (ov_wave cx) (ov_rand cx) (ov_stats cx)) @
     [Txt ''By severity''] @
     (if sevData (ov_stats cx) \<noteq> [] then map (\<lambda>(s, n). Box [Txt s, Txt (int_dec n)]) (sevData (ov_stats cx))
      else [Txt ''No alerts''])"

definition plain_status :: "jsval \<Rightarrow> jsval" where
  "plain_status v = (if nullish v then JUndef else JStr (replace_first (CHR ''_'') (CHR '' '') (js_string v)))"

definition critical_row :: "row \<Rightarrow> overview_event ui" where
  "critical_row a = Clickable (Go ''/alerts'')
     ([Val (jor (fld a ''rule_name'') (JStr ''(no rule name)'')), Val (jor (fld a ''description'') (JStr [])),
       Val (jor (fld a ''agent_name'') (JStr mdash))] @
      shown (truthy (fld a ''agent_ip'')) [Val (fld a ''agent_ip'')] @
      [Val (jor (fld a ''mitre_id'') (JStr mdash)), Val (plain_status (fld a ''status'')), Val (fld a ''alert_time'')])"

definition bottom_view :: "overview_ctx \<Rightarrow> overview_event ui list" where
  "bottom_view cx =
     (let rows = criticalAlerts (ov_alerts cx); cs = ov_connectors cx in
      [Txt ''Recent critical alerts'', Btn ''View all'' False (Go ''/alerts'')] @
      map Txt [''Rule'', ''Agent'', ''MITRE'', ''Status'', ''Time''] @
      map critical_row rows @ shown (rows = []) [Txt ''No critical alerts''] @
      [Txt ''Connectors'', Txt (nat_dec (online_count cs) @ ''/'' @ nat_dec (length cs) @ '' online'')] @
      map ConnectorPill cs @ shown (cs = []) [Txt ''No connectors configured''] @
      [Btn ''Manage connectors'' False (Go ''/connectors'')])"

definition overview_view :: "overview_ctx \<Rightarrow> overview_event ui list" where
  "overview_view cx = posture_view cx @ metrics_view cx @ charts_view cx @ bottom_view cx"

section \<open>Lemmas\<close>

lemma clicks_named_pairs: "page_clicks (map (\<lambda>(a, b). Box [Txt (f a), Txt (g b)]) xs) = []"
  by (auto simp: page_clicks_def)

lemma clicks_segments: "page_clicks (map (\<lambda>(t, p). Txt (f t)) xs) = []"
  by (auto simp: page_clicks_def)

lemma clicks_landing: "e \<in> set (page_clicks (overview_view cx)) \<Longrightarrow>
    e \<in> {Go ''/alerts'', Go ''/agents'', Go ''/connectors''}"
proof -
  have p: "page_clicks (map (\<lambda>(t, p). Txt t) xs) = []" for xs :: "(string \<times> rat) list"
    using clicks_segments [of "\<lambda>t. t" xs] by simp
  have q: "page_clicks (map (\<lambda>(s, n). Box [Txt s, Txt (int_dec n)]) xs) = []" for xs :: "(string \<times> int) list"
    using clicks_named_pairs [of "\<lambda>s. s" int_dec xs] by simp
  have r: "page_clicks (map ConnectorPill cs) = []" for cs
    by (simp add: page_clicks_def ConnectorPill_def o_def)
  assume "e \<in> set (page_clicks (overview_view cx))"
  then show ?thesis
    by (auto simp: overview_view_def posture_view_def metrics_view_def charts_view_def bottom_view_def Let_def
        MetricCard_def critical_row_def page_clicks_map p q r split: if_splits)
qed

lemma targets_shown:
  "nav_shows (nav ''/alerts'' []) AlertsPage" "nav_shows (nav ''/agents'' []) AgentsPage"
  "nav_shows (nav ''/connectors'' []) ConnectorsPage"
  by code_simp+

text \<open>The level is a threshold of the score.\<close>

definition level_at :: "rat \<Rightarrow> threat" where
  "level_at score = (if score > 60 then Critical else if score > 30 then Elevated else if score > 10 then Guarded else Normal)"

lemma level_at_mono: "x \<le> y \<Longrightarrow> level_at x \<le> level_at y"
  by (auto simp: level_at_def less_eq_threat_def threat_rank_def)

lemma level_of_score: "tot \<noteq> 0 \<Longrightarrow> fst (getThreatLevel rnd crit high tot) = level_at (threat_score rnd crit high tot)"
  by (simp add: getThreatLevel_def level_at_def Let_def)

lemma threat_score_mono:
  assumes "mono rnd" "0 < tot" "crit * 4 + high * 2 \<le> crit' * 4 + high' * 2"
  shows "threat_score rnd crit high tot \<le> threat_score rnd crit' high' tot"
proof -
  have "(of_int (crit * 4 + high * 2) :: rat) \<le> of_int (crit' * 4 + high' * 2)" using assms(3) by (simp only: of_int_le_iff)
  then have "(of_int (crit * 4 + high * 2) / of_int (tot * 4) :: rat) \<le> of_int (crit' * 4 + high' * 2) / of_int (tot * 4)"
    using assms(2) by (intro divide_right_mono) simp_all
  then show ?thesis using assms(1) by (simp add: threat_score_def monoD)
qed

lemma threat_score_whole:
  assumes "double_rounding rnd" "tot \<noteq> 0" "\<bar>k\<bar> \<le> 100" "crit * 4 + high * 2 = k * (tot * 4)"
  shows "threat_score rnd crit high tot = of_int (k * 100)"
proof -
  have "(of_int (crit * 4 + high * 2) / of_int (tot * 4) :: rat) = of_int k"
    using assms(2) by (simp only: assms(4) of_int_mult) simp
  moreover have "\<bar>k\<bar> \<le> 2 ^ 53" "\<bar>k * 100\<bar> \<le> 2 ^ 53" using assms(3) by auto
  then have "rnd (of_int k) = of_int k" "rnd (of_int (k * 100)) = of_int (k * 100)"
    using assms(1) unfolding double_rounding_def by blast+
  ultimately show ?thesis by (simp add: threat_score_def)
qed

section \<open>Properties\<close>

text \<open>C27. The threat level never falls when the alerts get worse: for the same number of alerts, turning some into
  high or critical ones gives a level at least as severe, in the order normal, guarded, elevated,
  critical. Without critical and high alerts the level is normal, with nothing but critical alerts
  it is critical, with nothing but high ones elevated, and the gauge is always between 8 and 95.\<close>

theorem threat_level_monotone:
  assumes "double_rounding rnd" "0 < tot" "0 \<le> high" "crit \<le> crit'" "crit + high \<le> crit' + high'"
  shows "fst (getThreatLevel rnd crit high tot) \<le> fst (getThreatLevel rnd crit' high' tot) \<and>
    fst (getThreatLevel rnd 0 0 tot) = Normal \<and> fst (getThreatLevel rnd tot 0 tot) = Critical \<and>
    (rnd (1 / 2) = 1 / 2 \<longrightarrow> fst (getThreatLevel rnd 0 tot tot) = Elevated) \<and>
    8 \<le> snd (getThreatLevel rnd crit high n) \<and> snd (getThreatLevel rnd crit high n) \<le> 95"
proof -
  have m: "mono rnd" using assms(1) by (simp add: double_rounding_def)
  have tot: "tot \<noteq> 0" using assms(2) by simp
  have "threat_score rnd crit high tot \<le> threat_score rnd crit' high' tot"
    using m assms(2-5) by (intro threat_score_mono) simp_all
  then have mono: "fst (getThreatLevel rnd crit high tot) \<le> fst (getThreatLevel rnd crit' high' tot)"
    using tot by (simp add: level_of_score level_at_mono)
  have "threat_score rnd 0 0 tot = 0" "threat_score rnd tot 0 tot = 100"
    using threat_score_whole [OF assms(1) tot, of 0 0 0] threat_score_whole [OF assms(1) tot, of 1 tot 0] by simp_all
  then have ends: "fst (getThreatLevel rnd 0 0 tot) = Normal" "fst (getThreatLevel rnd tot 0 tot) = Critical"
    using tot by (simp_all add: level_of_score level_at_def)
  have half: "fst (getThreatLevel rnd 0 tot tot) = Elevated" if "rnd (1 / 2) = 1 / 2"
  proof -
    have "(of_int (0 * 4 + tot * 2) / of_int (tot * 4) :: rat) = 1 / 2" using tot by simp
    then have e: "threat_score rnd 0 tot tot = rnd (rnd (1 / 2) * 100)" by (simp only: threat_score_def)
    have "\<bar>50 :: int\<bar> \<le> 2 ^ 53" by simp
    then have "rnd (of_int 50) = of_int 50"
      using assms(1) unfolding double_rounding_def by blast
    then have "threat_score rnd 0 tot tot = 50" unfolding e that by simp
    then show ?thesis using tot by (simp add: level_of_score level_at_def)
  qed
  have "8 \<le> snd (getThreatLevel rnd crit high n) \<and> snd (getThreatLevel rnd crit high n) \<le> 95"
    by (simp add: getThreatLevel_def Let_def)
  with mono ends half show ?thesis by simp
qed

lemma exact_rounding: "double_rounding (\<lambda>x. x)"
  by (simp add: double_rounding_def mono_def)

theorem threat_level_monotone_witness:
  "fst (getThreatLevel (\<lambda>x. x) 1 2 10) \<le> fst (getThreatLevel (\<lambda>x. x) 2 1 10)"
  using threat_level_monotone [OF exact_rounding, of 10 2 1 2 1] by simp

text \<open>The chart titled as the alert volume of the last seven days does not show alerts: its numbers come from a
  sine and random numbers, scaled by the total but by no less than 20, so two servers with the same total
  get the same chart, and with no alert at all Monday shows at least eight. Every day stays
  between 0 and the scale.\<close>

theorem trend_is_invented:
  assumes "wave 0 = 0" "\<And>i. - 1 \<le> wave i" "\<And>i. wave i \<le> 1" "\<And>i. 0 \<le> rand i" "\<And>i. rand i \<le> 1"
    and "totalAlerts stats = totalAlerts stats'" "(d, n) \<in> set (trend wave rand stats)"
  shows "trend wave rand stats = trend wave rand stats' \<and> 0 \<le> n \<and> n \<le> max (totalAlerts stats) 20 \<and>
    8 \<le> snd (hd (trend wave rand (JObj [(''severity'', JObj [])])))"
proof -
  have same: "trend wave rand stats = trend wave rand stats'" by (simp add: trend_def assms(6))
  define peak where "peak = max (totalAlerts stats) 20"
  have pk: "0 \<le> peak" by (simp add: peak_def)
  obtain i where i: "n = trend_height wave rand peak i"
    using assms(7) by (auto simp: trend_def makeTrend_def peak_def)
  have "(4 / 10 + wave i * (35 / 100) + rand i * (25 / 100) :: rat) \<le> 1"
    using assms(3) [of i] assms(5) [of i] by linarith
  then have "of_int peak * (4 / 10 + wave i * (35 / 100) + rand i * (25 / 100)) \<le> (of_int peak * 1 :: rat)"
    using pk by (intro mult_left_mono) simp_all
  then have "of_int peak * (4 / 10 + wave i * (35 / 100) + rand i * (25 / 100)) + 1 / 2 < (of_int (peak + 1) :: rat)"
    by simp
  then have "\<lfloor>of_int peak * (4 / 10 + wave i * (35 / 100) + rand i * (25 / 100)) + 1 / 2 :: rat\<rfloor> \<le> peak"
    by (simp add: floor_le_iff)
  then have "0 \<le> n" "n \<le> peak" using pk by (simp_all add: i trend_height_def)
  moreover have "8 \<le> trend_height wave rand 20 0"
  proof -
    have "(8 :: rat) \<le> of_int 20 * (4 / 10 + wave 0 * (35 / 100) + rand 0 * (25 / 100)) + 1 / 2"
      using assms(1) assms(4) [of 0] by simp
    then show ?thesis by (simp only: trend_height_def le_max_iff_disj le_floor_iff) simp
  qed
  then have "8 \<le> snd (hd (trend wave rand (JObj [(''severity'', JObj [])])))"
    by (simp add: trend_def totalAlerts_def makeTrend_def upt_rec)
  ultimately show ?thesis using same by (simp add: peak_def)
qed

theorem trend_is_invented_witness:
  "8 \<le> snd (hd (trend (\<lambda>i. 0) (\<lambda>i. 0) (JObj [(''severity'', JObj [])])))"
  using trend_is_invented [of "\<lambda>i. 0" "\<lambda>i. 0" JNull JNull "''Mon''" "trend_height (\<lambda>i. 0) (\<lambda>i. 0) 20 0"]
  by (simp add: trend_def totalAlerts_def makeTrend_def upt_rec WEEKDAYS_def)

text \<open>The overview lists the urgent alerts and counts consistently: the table has the first eight critical
  or high alerts of the recent ones, in their order, and says that there are none exactly when none is
  recent; of a total of counts that are not negative no severity has more; and every click leads
  to a page that a signed-in user is shown.\<close>

theorem overview_consistent:
  assumes "router_ok pick" "signed_in st"
    and "\<And>k v. (k, v) \<in> set (as_row (opt_fld stats ''severity'')) \<Longrightarrow> 0 \<le> num_or_0 v"
    and "e \<in> set (page_clicks (overview_view cx))"
  shows "prefix (criticalAlerts alerts) (filter is_critical alerts) \<and> length (criticalAlerts alerts) \<le> 8 \<and>
    (criticalAlerts alerts = [] \<longleftrightarrow> list_all (\<lambda>a. \<not> is_critical a) alerts) \<and>
    sev_count stats s \<le> totalAlerts stats \<and>
    (\<exists>path page. overview_step e = [Navigate path] \<and> settle pick st 3 path = Some page \<and>
       page \<in> {AlertsPage, AgentsPage, ConnectorsPage})"
proof -
  have rows: "prefix (criticalAlerts alerts) (filter is_critical alerts)" "length (criticalAlerts alerts) \<le> 8"
    "criticalAlerts alerts = [] \<longleftrightarrow> list_all (\<lambda>a. \<not> is_critical a) alerts"
    by (auto simp: criticalAlerts_def take_is_prefix filter_empty_conv list_all_iff)
  have le: "num_or_0 (fld r s) \<le> sum_list (map (\<lambda>(k, v). num_or_0 v) r)"
    if "\<And>k v. (k, v) \<in> set r \<Longrightarrow> 0 \<le> num_or_0 v" for r
    using that
  proof (induction r)
    case Nil
    then show ?case by (simp add: num_or_0_def)
  next
    case (Cons kv r)
    obtain k v where kv: "kv = (k, v)" by (cases kv)
    have "0 \<le> sum_list (map (\<lambda>(k, v). num_or_0 v) r)"
      using Cons.prems by (intro sum_list_nonneg) auto
    moreover have "0 \<le> num_or_0 v" "num_or_0 (fld r s) \<le> sum_list (map (\<lambda>(k, v). num_or_0 v) r)"
      using Cons kv by auto
    ultimately show ?case by (simp add: kv)
  qed
  have cnt: "sev_count stats s \<le> totalAlerts stats"
    using le [of "as_row (opt_fld stats ''severity'')", OF assms(3)]
    by (cases "opt_fld stats ''severity''") (simp_all add: sev_count_def totalAlerts_def num_or_0_def)
  have "settle pick st 3 ''/alerts'' = Some AlertsPage" "settle pick st 3 ''/agents'' = Some AgentsPage"
    "settle pick st 3 ''/connectors'' = Some ConnectorsPage"
    using settle_guarded_page [OF assms(1,2) targets_shown(1), of 2] settle_guarded_page [OF assms(1,2) targets_shown(2), of 2]
      settle_guarded_page [OF assms(1,2) targets_shown(3), of 2]
    by (simp_all add: nav_def numeral_3_eq_3 numeral_2_eq_2)
  then show ?thesis using rows cnt clicks_landing [OF assms(4)] by auto
qed

theorem overview_consistent_witness:
  "\<exists>path page. overview_step (Go ''/alerts'') = [Navigate path] \<and>
     settle first_match (setAuth (JStr ''t'') JNull JNull JNull initAuth) 3 path = Some page"
proof -
  let ?cx = "\<lparr>ov_rnd = (\<lambda>x. x), ov_wave = (\<lambda>i. 0), ov_rand = (\<lambda>i. 0), ov_stats = JNull, ov_alerts = [],
     ov_agents = [], ov_connectors = []\<rparr>"
  have s: "signed_in (setAuth (JStr ''t'') JNull JNull JNull initAuth)" by (simp add: signed_in_def setAuth_def)
  have e: "Go ''/alerts'' \<in> set (page_clicks (overview_view ?cx))"
    by (simp add: overview_view_def posture_view_def Let_def)
  show ?thesis using overview_consistent [OF router_ok_first_match s _ e, of JNull] by auto
qed

end
