(* ===== verification/Spec2Isabelle.thy ===== *)
theory Spec2Isabelle
  imports Routes Login Session TimeRange Connectors Cases CaseDetail SoarList CustomDashboard Alerts Account
    Agents ThreatIntel DarkWeb Parsers Settings Forensics Overview
begin

text \<open>
  Verification of the web client of SocBlitz, a security operations centre: the TypeScript code under
  \<open>frontend/src\<close>. The client is a React application over one HTTP API. Its parts are the session store
  with the HTTP client and its interceptors (\<open>stores/auth.ts\<close>), the route table with the authentication
  guard (\<open>App.tsx\<close>), the layout with its sidebar (\<open>layouts/DashboardLayout.tsx\<close>), one component per
  page (\<open>pages\<close>), two shared components (\<open>components\<close>) and the names of the connectors
  (\<open>lib/connectors.ts\<close>). A page keeps its own state, reads the server through cached queries, and changes
  it through calls of the client whose answers arrive later. All calls pass the interceptors: a
  request gets the stored token, and an answer 401 ends the session.

  \<^bold>\<open>How the model corresponds to the code.\<close>
  A component is a record of its state hooks together with its calls in flight. Its handlers are one
  \<open>step\<close> function on an event type: a handler is cut at its \<open>await\<close>, so that pressing a button and the arrival of the
  answer are two events, and a step returns the new state with the effects in their order (API calls, toasts,
  navigation, invalidated queries, copied text). The rendered page is a function from the state and the
  answers of the queries to a list of elements (\<open>Ui\<close>); \<open>page_clicks\<close> gives the events a user can
  trigger on it, so guards that the code states as \<open>disabled\<close> or as a condition around a button are part of
  the model. A predicate \<open>allowed\<close> adds typing and the answers to calls in flight, and \<open>reach\<close>
  (\<open>Async\<close>) closes the initial state under it. Values of the API, of type any in the code, are
  \<open>jsval\<close> with the truthiness, the operators and the property access of JavaScript (\<open>Prelude\<close>).

  \<^bold>\<open>The theories.\<close>
  \<open>Prelude\<close>: JavaScript values and strings. \<open>Ui\<close>: elements, clicks, effects, answers. \<open>Async\<close>: reachable states, and the
  locales \<open>busy_flag\<close>, \<open>single_flight\<close> (a sublocale of the first) and \<open>search_form\<close>, the contracts of a
  page that runs one call at a time and of one that shows its result. \<open>Filters\<close>: the locale \<open>quick_filter\<close> of
  lists with counting filter buttons. \<open>Json\<close>: \<open>JSON.stringify\<close>, plain and indented, which differ in white space
  outside strings only. Each locale is interpreted on the pages that rely on it.
  \<open>AuthStore\<close>, \<open>ApiClient\<close>: the store with its interceptors, and every helper of the client as a call
  with its request; which requests count as sign-in attempts is decided on the segments of their address.
  \<open>Routes\<close>: route table, guard, redirects, sidebar. \<open>Login\<close>, \<open>Account\<close>: sign-in with its second factor, and the
  management of that factor. \<open>Session\<close>: sign-in page, guard, layout and interceptor composed into one application with
  page loads and calls whose page was left, the machine of two states it refines, and the origin of
  every token. \<open>TimeRange\<close>: the calendar and the time filter. \<open>Connectors\<close>, \<open>Cases\<close>, \<open>CaseDetail\<close>,
  \<open>Workflow\<close>, \<open>SoarList\<close>, \<open>DashboardWidget\<close>, \<open>CustomDashboard\<close>, \<open>Events\<close>, \<open>Alerts\<close> (with the alert page),
  \<open>Agents\<close>, \<open>ThreatIntel\<close>, \<open>DarkWeb\<close>, \<open>Settings\<close>, \<open>Forensics\<close>, \<open>Overview\<close> (\<open>Dashboard.tsx\<close>): the pages of these names.
  \<open>Engine\<close>, \<open>YaraL\<close>, \<open>Parsers\<close>: the tabs of \<open>SocBlitzEngine.tsx\<close>. This theory holds the properties that
  span components.

  \<^bold>\<open>What the lemmas show.\<close>
  In every page theory the \<open>clicks\<close> lemmas characterize what its page offers, the \<open>frame\<close> lemmas what a
  continuation leaves alone, and an invariant over \<open>reach\<close> carries the property. The properties, numbered
  in the order of their importance: the session (C1, C2, C3, C9, C10, C26), guarded changes of the
  server's state (C4, C7, C8, C13, C14, C22, C24, C28, C29, C30, C36), what is sent (C11, C15, C21, C25,
  C33, C34, C37), the editors (C5, C6, C12, C16 to C19, C38, C39) and what is shown (C20, C23, C27,
  C31, C32, C35, C40). Some state that the code does something it should not: C6 and C18 on custom
  dashboards, C8 on the reset of one's own second factor while the profile is missing, C15 on a change that
  succeeds after another case was opened, C19 on a deleted parser, C20 on resolving a case from the
  list, C40 on the artifacts suggested for a Mac.

  \<^bold>\<open>Bounds and fuel.\<close>
  Redirects are followed for at most three steps, which is enough (C10: two redirects reach a page). The two
  effects of a custom dashboard are run for two rounds, after which neither has anything to do (C39). Numbers
  are integers where the code computes on counts and times below \<open>2^53\<close>; quotients that the code rounds to
  doubles take the rounded value, or the rounding, as an argument. Trimming and letter case are those of
  ASCII text, strings are their bytes.

  \<^bold>\<open>Parameters.\<close>
  Which route the router chooses is an argument. \<open>router_ok\<close> states what is relied on: it is a route of the table
  or the splat route; and at a plain address, of letters, digits, dashes, underscores and slashes, a
  route that matches, where letter case and slashes at the end do not count, and the splat route only when none does.
  The first match satisfies it. The clock of the workflow builder is taken not to be set back behind the last
  loading of a workflow (C5). The answers of the server, the clock, random numbers, the parsing of numbers, the browser's \<open>confirm\<close>
  and its date texts are arguments.

  \<^bold>\<open>Not modelled.\<close>
  The backend, the detection engine and the agent are programs in Python, Go and shell; the model has their
  answers as arguments. React, the router, the query cache, the chart and canvas libraries and axios
  are third-party packages: the model has the calls made to them. Left out are class names, styles, icons, drawing
  of charts, relative dates, the ticking clock of the layout, key repeat and focus, and the files that only mount or
  build the application (\<open>main.tsx\<close>, the configuration of the build).
\<close>

section \<open>The end of a session\<close>

text \<open>C2. A rejected session ends everywhere: when any call but a sign-in attempt is answered 401, with
  identifiers that hold no slash in its path, the stored session is gone, the window is sent to the
  sign-in page and every address shows it, and later requests carry no authorization.\<close>

theorem rejected_session_ends:
  assumes "router_ok pick" "\<not> sign_in_call c" "slash_free (path_args c)"
    and "err_url e = JStr (req_url (api_request c))" "err_response e = Some (401, d)"
  shows "let w' = fst (on_response_error e w) in
    auth_store w' = initAuth \<and> location w' = ''/login'' \<and>
    settle pick (auth_store w') 3 path = Some LoginPage \<and>
    attach_jwt (auth_store w') headers = headers"
proof -
  have "\<not> is_auth_attempt (err_url_text e)"
    using attempt_iff_sign_in [OF assms(3)] assms(2,4)
    by (auto simp: err_url_text_def jor_def is_auth_attempt_def)
  then have "fst (on_response_error e w) = w\<lparr>auth_store := initAuth, location := ''/login''\<rparr>"
    using assms(5) by (intro on_response_error_401)
  moreover have "token initAuth = JNull" by (simp add: initAuth_def)
  ultimately show ?thesis using settle_signed_out [OF assms(1), of initAuth] by (simp add: attach_jwt_def)
qed

theorem rejected_session_ends_witness:
  "auth_store (fst (on_response_error
      \<lparr>err_code = JUndef, err_url = JStr ''/cases/7'', err_response = Some (401, JUndef)\<rparr>
      \<lparr>auth_store = setAuth (JStr ''t'') JNull JNull JNull initAuth, location = ''/cases/7''\<rparr>)) = initAuth"
proof -
  let ?e = "\<lparr>err_code = JUndef, err_url = JStr ''/cases/7'', err_response = Some (401, JUndef)\<rparr>"
  have "\<not> sign_in_call (CaseCall (GetCase ''7''))" "slash_free (path_args (CaseCall (GetCase ''7'')))"
    "err_url ?e = JStr (req_url (api_request (CaseCall (GetCase ''7''))))"
    "err_response ?e = Some (401, JUndef)"
    by (simp_all add: sign_in_call_def slash_free_def path_args_def get_def mk_request_def)
  from rejected_session_ends [OF router_ok_first_match this]
  show ?thesis by (simp add: Let_def)
qed

text \<open>A failed sign-in attempt is left to the sign-in page: whatever a login or a verification call
  fails with, the session and the window's address stay; these two calls are the ones with a time
  limit, 15 seconds.\<close>

theorem sign_in_failures_stay:
  assumes "sign_in_call c" "err_url e = JStr (req_url (api_request c))"
  shows "on_response_error e w = (w, e) \<and> timeout_ms (api_request c) = Some 15000 \<and>
    (\<forall>c'. timeout_ms (api_request c') \<noteq> None \<longrightarrow> sign_in_call c')"
proof -
  have "is_auth_attempt (err_url_text e)"
    using sign_in_is_attempt [OF assms(1)] assms(2)
    by (auto simp: err_url_text_def jor_def is_auth_attempt_def)
  then show ?thesis using assms(1) by (simp add: on_response_error_def timeout_iff_sign_in)
qed

theorem sign_in_failures_stay_witness:
  "on_response_error \<lparr>err_code = JUndef, err_url = JStr ''/auth/login'', err_response = Some (401, JUndef)\<rparr>
     \<lparr>auth_store = initAuth, location = ''/login''\<rparr> =
   (\<lparr>auth_store = initAuth, location = ''/login''\<rparr>,
    \<lparr>err_code = JUndef, err_url = JStr ''/auth/login'', err_response = Some (401, JUndef)\<rparr>)"
proof -
  have "sign_in_call (AuthCall (Login ''a'' ''b''))" by (simp add: sign_in_call_def)
  moreover have "err_url \<lparr>err_code = JUndef, err_url = JStr ''/auth/login'', err_response = Some (401, JUndef)\<rparr> =
      JStr (req_url (api_request (AuthCall (Login ''a'' ''b''))))"
    by (simp add: request_defs)
  ultimately show ?thesis using sign_in_failures_stay by blast
qed

section \<open>Resolving a case from the list\<close>

text \<open>C20. The case list offers Resolve for every case in progress, also for one without a classification,
  and its update carries none, although the case page insists on a verdict for every case that is
  resolved: there the same choice opens the dialog and sends nothing.\<close>

theorem list_resolves_without_verdict:
  assumes "c \<in> set (filtered_cases cs s)" "fld c ''status'' = JStr ''in_progress''"
    and "\<not> truthy (fld c ''classification'')" "ctx_case cx = c"
  shows "ResolveCase c \<in> set (page_clicks (cases_view isLoading isPending templates cs s)) \<and>
    calls_of (snd (cases_step (ResolveCase c) s)) =
      [CaseCall (UpdateCase (row_id c) (JObj [(''status'', JStr ''resolved'')]))] \<and>
    calls_of (snd (case_step cx (Header (PickStatus ''resolved'')) p)) = [] \<and>
    closingModal (fst (case_step cx (Header (PickStatus ''resolved'')) p)) = JStr ''resolved''"
  using assms by (auto simp: clicks_cases_view clicks_case_row status_body_def CLOSING_STATUSES_def)

theorem list_resolves_without_verdict_witness:
  "ResolveCase [(''id'', JNum 7), (''status'', JStr ''in_progress''), (''classification'', JNull)]
     \<in> set (page_clicks (cases_view False False []
         [[(''id'', JNum 7), (''status'', JStr ''in_progress''), (''classification'', JNull)]] init_cases))"
proof -
  let ?c = "[(''id'', JNum 7), (''status'', JStr ''in_progress''), (''classification'', JNull)]"
  let ?cx = "\<lparr>ctx_id = ''7'', ctx_userId = JNull, ctx_fullName = JNull, ctx_case = ?c, ctx_timeline = [],
    ctx_alerts = [], ctx_observables = [], ctx_tasks = [], ctx_comments = [], ctx_assets = [],
    ctx_evidence = [], ctx_notes = [], ctx_mitre = [], ctx_pending = \<lambda>m. False\<rparr>"
  have "?c \<in> set (filtered_cases [?c] init_cases)" "fld ?c ''status'' = JStr ''in_progress''"
    "\<not> truthy (fld ?c ''classification'')" "ctx_case ?cx = ?c"
    by (simp_all add: filtered_cases_def init_cases_def case_matches_def)
  from list_resolves_without_verdict [OF this] show ?thesis by blast
qed

end
